(* ===== verification/Prelude.thy ===== *)
theory Prelude
  imports Complex_Main "HOL-Library.AList"
begin

text \<open>
  Shared vocabulary of the development: the model of Python's float values,
  the error values that stand for the exceptions and \<open>verif.util.error\<close> aborts
  of \<open>src/verif/input.py\<close>, the warning log, Python's \<open>set.add\<close> on an
  insertion-ordered list, the error-propagating fold that models a loop whose
  body may raise, and association lists as the model of Python dictionaries.
  The generic lemmas here are declared \<open>[simp]\<close> or collected in
  \<open>res_simps\<close> so that the component theories can use them by name.
\<close>

named_theorems res_simps "rules that evaluate the error-propagating combinators"

section \<open>Python floats\<close>

text \<open>
  Every number the loader handles is a Python \<open>float\<close> (or a small \<open>int\<close>
  that Python compares and hashes equal to the float).  A float is modelled as
  an exact rational or the NaN value: \<open>float()\<close> of a decimal literal is read
  as the rational it denotes, so binary rounding is abstracted away.  The code
  makes NaN through the single object \<open>np.nan\<close> (missing columns and the
  -999 sentinel), and Python's containers compare keys by identity before
  equality, so that NaN behaves as an ordinary value inside sets and
  dictionary keys; as a constructor of a datatype it does the same here.  A
  \<open>nan\<close> literal in the file is a fresh object in Python, distinct from
  every other NaN inside a set; the model identifies it with \<open>np.nan\<close>.
  Arithmetic and comparisons follow IEEE: any operation with NaN gives NaN
  and any comparison with NaN is false (\<open>fl_eq\<close>, \<open>fl_gt\<close>).
\<close>

datatype fl = Num rat | NaN

definition is_nan :: "fl \<Rightarrow> bool" where
  "is_nan f \<longleftrightarrow> f = NaN"

fun fl_add :: "fl \<Rightarrow> fl \<Rightarrow> fl" where
  "fl_add (Num a) (Num b) = Num (a + b)"
| "fl_add _ _ = NaN"

fun fl_sub :: "fl \<Rightarrow> fl \<Rightarrow> fl" where
  "fl_sub (Num a) (Num b) = Num (a - b)"
| "fl_sub _ _ = NaN"

fun fl_mul :: "fl \<Rightarrow> fl \<Rightarrow> fl" where
  "fl_mul (Num a) (Num b) = Num (a * b)"
| "fl_mul _ _ = NaN"

fun fl_abs :: "fl \<Rightarrow> fl" where
  "fl_abs (Num a) = Num \<bar>a\<bar>"
| "fl_abs NaN = NaN"

text \<open>\<open>a == b\<close> on floats: false as soon as one side is NaN, even for the same object.\<close>

fun fl_eq :: "fl \<Rightarrow> fl \<Rightarrow> bool" where
  "fl_eq (Num a) (Num b) \<longleftrightarrow> a = b"
| "fl_eq _ _ \<longleftrightarrow> False"

text \<open>\<open>a > b\<close> on floats: false as soon as one side is NaN.\<close>

fun fl_gt :: "fl \<Rightarrow> fl \<Rightarrow> bool" where
  "fl_gt (Num a) (Num b) \<longleftrightarrow> b < a"
| "fl_gt _ _ \<longleftrightarrow> False"

section \<open>Errors and warnings\<close>

text \<open>
  \<open>verif.util.error\<close> never returns: it aborts the load.  Each abort, and
  each Python exception the code lets escape, is a constructor of \<open>error\<close>;
  a computation that may fail returns \<open>error + 'a\<close> with \<open>Inl\<close> the error.
  \<open>verif.util.warning\<close> (and the \<open>print\<close> beside it) returns; warnings are
  appended to a log of \<open>message\<close>s.
\<close>

datatype error =
    FileNotFound string       \<comment> \<open>\<open>get_input\<close>: the path does not exist\<close>
  | InvalidInput string       \<comment> \<open>\<open>get_input\<close>: no format accepted the file\<close>
  | MissingColumn string      \<comment> \<open>\<open>Text\<close>: header lacks \<open>obs\<close> or \<open>fcst\<close>\<close>
  | ColumnCount nat string    \<comment> \<open>\<open>Text\<close>: a row has the wrong number of fields\<close>
  | ValueError string         \<comment> \<open>\<open>float()\<close> of a string that is not a number\<close>
  | IndexError                \<comment> \<open>indexing past the end of a string or list\<close>
  | KeyError string           \<comment> \<open>a netCDF variable that does not exist\<close>
  | AttributeError string     \<comment> \<open>an attribute that does not exist or cannot be set\<close>
  | ShapeError                \<comment> \<open>numpy refuses an assignment between arrays\<close>

datatype message =
    IgnoredLine string
  | ConflictingLocation fl fl fl fl fl fl

type_synonym 'a res = "error + 'a"

fun is_conflict :: "message \<Rightarrow> bool" where
  "is_conflict (ConflictingLocation _ _ _ _ _ _) = True"
| "is_conflict (IgnoredLine _) = False"

text \<open>
  Sequencing two steps of which the first may raise: the second runs on the
  first's result, an error of the first is the error of both.
\<close>

definition rbind :: "'a res \<Rightarrow> ('a \<Rightarrow> 'b res) \<Rightarrow> 'b res" where
  "rbind x f = (case x of Inl e \<Rightarrow> Inl e | Inr a \<Rightarrow> f a)"

section \<open>Loops whose body may raise\<close>

text \<open>
  A Python \<open>for\<close> loop over a list whose body may raise is a left fold that
  stops at the first error, as the exception does.
\<close>

fun fold_res :: "('a \<Rightarrow> 's \<Rightarrow> 's res) \<Rightarrow> 'a list \<Rightarrow> 's \<Rightarrow> 's res" where
  "fold_res f [] s = Inr s"
| "fold_res f (x # xs) s = (case f x s of Inl e \<Rightarrow> Inl e | Inr s' \<Rightarrow> fold_res f xs s')"

section \<open>Python sets as insertion-ordered lists\<close>

text \<open>
  The loader accumulates coordinates in Python sets and later turns each set
  into a list.  A set is modelled as a list without duplicates that
  \<open>pyset_add\<close> extends at the end; the list fixes one of the orders Python
  may produce (the theorems about the dense arrays hold for any order).
\<close>

definition pyset_add :: "'a \<Rightarrow> 'a list \<Rightarrow> 'a list" where
  "pyset_add x xs = (if x \<in> set xs then xs else xs @ [x])"

section \<open>Python dictionaries as association lists\<close>

text \<open>
  A dictionary \<open>d\<close> is an association list: \<open>d[k] = v\<close> is \<open>AList.update\<close>,
  \<open>k in d\<close> and \<open>d[k]\<close> go through \<open>map_of\<close>, and \<open>len(d) != 0\<close> is
  \<open>d \<noteq> []\<close>.  \<open>nan_lookup\<close> is the read of a cell of an array that was
  allocated full of NaN and then filled from the dictionary.
\<close>

definition nan_lookup :: "('k \<times> fl) list \<Rightarrow> 'k \<Rightarrow> fl" where
  "nan_lookup d k = (case map_of d k of None \<Rightarrow> NaN | Some v \<Rightarrow> v)"

section \<open>Properties\<close>

lemma is_nan_simps [simp]:
  "is_nan NaN" "\<not> is_nan (Num r)"
  by (simp_all add: is_nan_def)

lemma not_nan_iff: "\<not> is_nan f \<longleftrightarrow> (\<exists>r. f = Num r)"
  by (cases f) simp_all

lemma fl_eq_iff: "fl_eq a b \<longleftrightarrow> a = b \<and> \<not> is_nan a"
  by (cases a; cases b) simp_all

lemma fl_gt_NaN [simp]: "\<not> fl_gt NaN f" "\<not> fl_gt f NaN"
  by (cases f; simp)+

lemma rbind_simps [simp]: "rbind (Inl e) f = Inl e" "rbind (Inr a) f = f a"
  by (simp_all add: rbind_def)

lemma rbind_Inr: "rbind x f = Inr b \<longleftrightarrow> (\<exists>a. x = Inr a \<and> f a = Inr b)"
  by (cases x) simp_all

lemma rbind_Inl: "rbind x f = Inl e \<longleftrightarrow> x = Inl e \<or> (\<exists>a. x = Inr a \<and> f a = Inl e)"
  by (cases x) simp_all

lemma fold_res_append [res_simps]:
  "fold_res f (xs @ ys) s = (case fold_res f xs s of Inl e \<Rightarrow> Inl e | Inr s' \<Rightarrow> fold_res f ys s')"
  by (induction xs arbitrary: s) (simp_all split: sum.split)

text \<open>The invariant rule of such a loop: what every iteration keeps, the loop keeps.\<close>

lemma fold_res_invariant:
  assumes "fold_res f xs s = Inr s'" and "P s"
    and step: "\<And>x t t'. x \<in> set xs \<Longrightarrow> P t \<Longrightarrow> f x t = Inr t' \<Longrightarrow> P t'"
  shows "P s'"
  using assms
proof (induction xs arbitrary: s)
  case Nil
  then show ?case by simp
next
  case (Cons x xs)
  then obtain t where t: "f x s = Inr t" and rest: "fold_res f xs t = Inr s'"
    by (auto split: sum.splits)
  from Cons.prems(3) [OF _ \<open>P s\<close> t] have "P t" by simp
  with rest Cons.prems(3) show ?case
    by (intro Cons.IH) auto
qed

text \<open>A loop in which no iteration raises runs to its end.\<close>

lemma fold_res_total:
  assumes "\<And>x t. x \<in> set xs \<Longrightarrow> \<exists>t'. f x t = Inr t'"
  shows "\<exists>s'. fold_res f xs s = Inr s'"
  using assms
proof (induction xs arbitrary: s)
  case Nil
  then show ?case by simp
next
  case (Cons x xs)
  then obtain t where "f x s = Inr t" by fastforce
  with Cons show ?case by simp
qed

text \<open>Progress with preservation: every iteration from a good state succeeds into one.\<close>

lemma fold_res_progress:
  assumes "P s" and step: "\<And>x t. x \<in> set xs \<Longrightarrow> P t \<Longrightarrow> \<exists>t'. f x t = Inr t' \<and> P t'"
  shows "\<exists>s'. fold_res f xs s = Inr s' \<and> P s'"
  using assms
proof (induction xs arbitrary: s)
  case Nil
  then show ?case by simp
next
  case (Cons x xs)
  then obtain t where "f x s = Inr t" "P t" by fastforce
  with Cons.IH [of t] Cons.prems(2) show ?case by simp
qed

lemma fold_res_Inl_step:
  "f x s = Inl e \<Longrightarrow> fold_res f (x # xs) s = Inl e"
  by simp

text \<open>
  A loop each of whose iterations overwrites some cells of an array with values
  that do not depend on the array: after the loop a cell holds its value if
  some iteration wrote it and its initial content otherwise.  \<open>get\<close> reads a
  cell, \<open>ok\<close> is the shape the iterations keep.
\<close>

lemma fold_cellwise:
  assumes "\<And>i a. i \<in> set ixs \<Longrightarrow> ok a \<Longrightarrow> ok (f i a)"
    and "\<And>i a p. i \<in> set ixs \<Longrightarrow> ok a \<Longrightarrow> get (f i a) p = (if p \<in> W i then val p else get a p)"
    and "ok a"
  shows "ok (fold f ixs a) \<and> get (fold f ixs a) p = (if p \<in> (\<Union>i \<in> set ixs. W i) then val p else get a p)"
  using assms
proof (induction ixs arbitrary: a)
  case Nil
  then show ?case by simp
next
  case (Cons i ixs)
  have "ok (f i a)" using Cons.prems(1,3) by simp
  then have "ok (fold f ixs (f i a)) \<and>
      get (fold f ixs (f i a)) p = (if p \<in> (\<Union>i \<in> set ixs. W i) then val p else get (f i a) p)"
    using Cons.prems(1,2) by (intro Cons.IH) auto
  then show ?case using Cons.prems(2,3) by auto
qed

lemma set_pyset_add [simp]: "set (pyset_add x xs) = insert x (set xs)"
  by (auto simp: pyset_add_def)

lemma distinct_pyset_add [simp]: "distinct (pyset_add x xs) \<longleftrightarrow> distinct xs"
  by (simp add: pyset_add_def)

lemma pyset_add_prefix: "\<exists>ys. pyset_add x xs = xs @ ys"
  by (auto simp: pyset_add_def)

lemma pyset_add_nth:
  "i < length xs \<Longrightarrow> pyset_add x xs ! i = xs ! i"
  by (simp add: pyset_add_def nth_append)

section \<open>Indexed writes into lists\<close>

text \<open>
  \<open>xs[i := x]\<close> read back at any index, in range or not: the write is seen
  only at its own index and only when that index is in range.
\<close>

lemma nth_list_update_if:
  "xs[i := x] ! j = (if i = j \<and> i < length xs then x else xs ! j)"
  by (cases "i = j") (auto simp: nth_list_update_neq list_update_beyond not_less)

lemma length_nth_list_update:
  "length (xs[i := x] ! j) = (if i = j \<and> i < length xs then length x else length (xs ! j))"
  by (simp add: nth_list_update_if)

lemma map_of_update [simp]: "map_of (AList.update k v d) = (map_of d)(k \<mapsto> v)"
  by (simp add: update_conv')

lemma nan_lookup_update [simp]:
  "nan_lookup (AList.update k v d) k' = (if k' = k then v else nan_lookup d k')"
  by (simp add: nan_lookup_def)

lemma nan_lookup_Nil [simp]: "nan_lookup [] k = NaN"
  by (simp add: nan_lookup_def)

end

