(* ===== verification/Location.thy ===== *)
theory Location
  imports Prelude
begin

text \<open>
  The location registry of the text loader (\<open>Text.__init__\<close> in
  \<open>src/verif/input.py\<close>).  A \<open>Location\<close> (\<open>verif.location\<close>, outside
  \<open>src/\<close>, modelled from the spec) is a record of an id, a latitude, a
  longitude and an elevation; its id is the float NaN while unassigned.
  Locations compare by their four fields.  The registry is the dictionary
  \<open>locationInfo\<close> from id to the first location seen with that id, the set
  \<open>self._locations\<close> and the flag \<open>shownConflictingWarning\<close>.
  \<open>resolve_location\<close> is the per-row lookup-or-create step, \<open>resolve_ids\<close>
  the deferred numbering of the locations that have no id.
\<close>

record location =
  loc_id :: fl
  loc_lat :: fl
  loc_lon :: fl
  loc_elev :: fl

record registry =
  reg_info :: "fl \<Rightarrow> location option"   \<comment> \<open>\<open>locationInfo\<close>\<close>
  reg_locs :: "location list"            \<comment> \<open>\<open>self._locations\<close>\<close>
  reg_shown :: bool                      \<comment> \<open>\<open>shownConflictingWarning\<close>\<close>

text \<open>
  \<open>Location.__eq__\<close> compares the four fields with float \<open>==\<close>, so a location
  whose id is NaN equals no location, itself included.  \<open>set.add\<close> of a
  freshly made object adds it unless the set holds an element equal to it.
\<close>

definition loc_eq :: "location \<Rightarrow> location \<Rightarrow> bool" where
  "loc_eq l1 l2 \<longleftrightarrow> fl_eq (loc_id l1) (loc_id l2) \<and> fl_eq (loc_lat l1) (loc_lat l2) \<and>
     fl_eq (loc_lon l1) (loc_lon l2) \<and> fl_eq (loc_elev l1) (loc_elev l2)"

definition loc_set_add :: "location \<Rightarrow> location list \<Rightarrow> location list" where
  "loc_set_add l ls = (if list_ex (loc_eq l) ls then ls else ls @ [l])"

definition empty_registry :: registry where
  "empty_registry = \<lparr>reg_info = Map.empty, reg_locs = [], reg_shown = False\<rparr>"

section \<open>Lookup or create\<close>

text \<open>\<open>not np.isnan(cur) and abs(cur - stored) > tol\<close>.\<close>

definition conflicts :: "fl \<Rightarrow> fl \<Rightarrow> rat \<Rightarrow> bool" where
  "conflicts cur stored tol \<longleftrightarrow> \<not> is_nan cur \<and> fl_gt (fl_abs (fl_sub cur stored)) (Num tol)"

text \<open>\<open>if np.isnan(x): x = 0\<close>.\<close>

definition nan_to_zero :: "fl \<Rightarrow> fl" where
  "nan_to_zero f = (if is_nan f then Num 0 else f)"

text \<open>
  One row's identity resolution (lines 440--472).  A known, non-NaN id reuses
  the stored location; while no warning has been shown, a row whose own
  latitude or longitude differs by more than 0.0001, or whose elevation
  differs by more than 0.001, emits the one conflict warning (the \<open>print\<close> and
  \<open>verif.util.warning\<close> of lines 456--457) and sets the flag.  Otherwise a new
  location is made from the row's values, NaN replaced by 0, added to the set
  and registered under its id.  The result is the new registry, the location
  whose coordinates key the row's data (lines 470--472), and the warning.
\<close>

definition resolve_location ::
  "registry \<Rightarrow> fl \<Rightarrow> fl \<Rightarrow> fl \<Rightarrow> fl \<Rightarrow> registry \<times> location \<times> message option" where
  "resolve_location r i cur_lat cur_lon cur_elev =
     (case (if is_nan i then None else reg_info r i) of
        Some l \<Rightarrow>
          (if \<not> reg_shown r \<and>
              (conflicts cur_lat (loc_lat l) (1 / 10000) \<or> conflicts cur_lon (loc_lon l) (1 / 10000)
               \<or> conflicts cur_elev (loc_elev l) (1 / 1000))
           then (r\<lparr>reg_shown := True\<rparr>, l,
                 Some (ConflictingLocation cur_lat cur_lon cur_elev (loc_lat l) (loc_lon l) (loc_elev l)))
           else (r, l, None))
      | None \<Rightarrow>
          (let l = \<lparr>loc_id = i, loc_lat = nan_to_zero cur_lat, loc_lon = nan_to_zero cur_lon,
                    loc_elev = nan_to_zero cur_elev\<rparr>
           in (r\<lparr>reg_locs := loc_set_add l (reg_locs r), reg_info := (reg_info r)(i \<mapsto> l)\<rparr>, l, None)))"

section \<open>Deferred id assignment\<close>

text \<open>
  Lines 539--544: the largest id, skipping NaN ids; NaN when every id is NaN.
  While the running maximum is NaN it takes the next id, after that only a
  larger one.
\<close>

fun max_loc_id :: "fl \<Rightarrow> location list \<Rightarrow> fl" where
  "max_loc_id m [] = m"
| "max_loc_id m (l # ls) =
     max_loc_id (if is_nan m then loc_id l else if fl_gt (loc_id l) m then loc_id l else m) ls"

text \<open>Lines 550--553: NaN ids replaced by consecutive numbers from the counter, in list order.\<close>

fun assign_ids :: "fl \<Rightarrow> location list \<Rightarrow> location list" where
  "assign_ids c [] = []"
| "assign_ids c (l # ls) =
     (if is_nan (loc_id l) then l\<lparr>loc_id := c\<rparr> # assign_ids (fl_add c (Num 1)) ls
      else l # assign_ids c ls)"

text \<open>Lines 539--553: the counter starts at 0, or one above the largest id.\<close>

definition resolve_ids :: "location list \<Rightarrow> location list" where
  "resolve_ids ls =
     (let m = max_loc_id NaN ls;
          counter = (if is_nan m then Num 0 else fl_add m (Num 1))
      in assign_ids counter ls)"

section \<open>The registry invariant\<close>

text \<open>
  What the dictionary and the set agree on: every location of the set with a
  non-NaN id is the one registered under that id, every registered location
  carries its key as id and is in the set, and no location with an id is in
  the set twice.  Locations without id may repeat: two rows without id at
  the same place make two equal records.
\<close>

definition reg_inv :: "registry \<Rightarrow> bool" where
  "reg_inv r \<longleftrightarrow>
     (\<forall>l \<in> set (reg_locs r). \<not> is_nan (loc_id l) \<longrightarrow> reg_info r (loc_id l) = Some l) \<and>
     (\<forall>i l. reg_info r i = Some l \<longrightarrow> loc_id l = i \<and> l \<in> set (reg_locs r)) \<and>
     distinct (filter (\<lambda>l. \<not> is_nan (loc_id l)) (reg_locs r))"

text \<open>Non-NaN ids identify locations.\<close>

definition ids_unique :: "location list \<Rightarrow> bool" where
  "ids_unique ls \<longleftrightarrow>
     (\<forall>l1 \<in> set ls. \<forall>l2 \<in> set ls. \<not> is_nan (loc_id l1) \<longrightarrow> loc_id l1 = loc_id l2 \<longrightarrow> l1 = l2)"

text \<open>Three locations, the first and the last without id, for the numbering theorem.\<close>

definition id_example :: "location list" where
  "id_example =
     [\<lparr>loc_id = NaN, loc_lat = Num 1, loc_lon = Num 0, loc_elev = Num 0\<rparr>,
      \<lparr>loc_id = Num 3, loc_lat = Num 2, loc_lon = Num 0, loc_elev = Num 0\<rparr>,
      \<lparr>loc_id = NaN, loc_lat = Num 3, loc_lon = Num 0, loc_elev = Num 0\<rparr>]"

section \<open>Properties\<close>

lemma reg_inv_empty: "reg_inv empty_registry"
  by (simp add: reg_inv_def empty_registry_def)

lemma reg_inv_ids_unique: "reg_inv r \<Longrightarrow> ids_unique (reg_locs r)"
  unfolding reg_inv_def ids_unique_def by (metis option.inject)

lemma loc_eq_eq: "loc_eq l1 l2 \<Longrightarrow> l1 = l2"
  by (simp add: loc_eq_def fl_eq_iff)

lemma set_loc_set_add [simp]: "set (loc_set_add l ls) = insert l (set ls)"
  unfolding loc_set_add_def list_ex_iff by (auto dest: loc_eq_eq)

text \<open>A location whose id no element of the set carries (or is NaN) is appended.\<close>

lemma loc_set_add_fresh:
  "(\<forall>l' \<in> set ls. \<not> is_nan (loc_id l') \<longrightarrow> loc_id l' \<noteq> loc_id l) \<Longrightarrow> loc_set_add l ls = ls @ [l]"
  by (auto simp: loc_set_add_def list_ex_iff loc_eq_def fl_eq_iff)

text \<open>The cases of \<open>resolve_location\<close>, the way the proofs use them.\<close>

lemma resolve_location_known:
  assumes "\<not> is_nan i" and "reg_info r i = Some l"
  shows "\<exists>r' w. resolve_location r i a b c = (r', l, w) \<and> reg_info r' = reg_info r \<and>
           reg_locs r' = reg_locs r \<and> (w = None \<longrightarrow> reg_shown r' = reg_shown r) \<and>
           (w \<noteq> None \<longrightarrow> \<not> reg_shown r \<and> reg_shown r')"
  using assms by (simp add: resolve_location_def)

lemma resolve_location_new:
  assumes "is_nan i \<or> reg_info r i = None"
  shows "resolve_location r i a b c =
           (let l = \<lparr>loc_id = i, loc_lat = nan_to_zero a, loc_lon = nan_to_zero b,
                     loc_elev = nan_to_zero c\<rparr>
            in (r\<lparr>reg_locs := loc_set_add l (reg_locs r), reg_info := (reg_info r)(i \<mapsto> l)\<rparr>, l, None))"
  using assms by (auto simp: resolve_location_def)

lemma resolve_location_inv:
  assumes "reg_inv r" and "resolve_location r i a b c = (r', l, w)"
  shows "reg_inv r'"
proof (cases "\<not> is_nan i \<and> reg_info r i \<noteq> None")
  case True
  with assms show ?thesis
    by (auto simp: resolve_location_def reg_inv_def split: if_splits)
next
  case False
  then have new: "is_nan i \<or> reg_info r i = None" by blast
  have fresh: "loc_id l' \<noteq> i" if "l' \<in> set (reg_locs r)" and "\<not> is_nan (loc_id l')" for l'
  proof
    assume "loc_id l' = i"
    from that assms(1) have "reg_info r (loc_id l') = Some l'"
      unfolding reg_inv_def by blast
    with new \<open>loc_id l' = i\<close> that(2) show False by simp
  qed
  let ?l = "\<lparr>loc_id = i, loc_lat = nan_to_zero a, loc_lon = nan_to_zero b, loc_elev = nan_to_zero c\<rparr>"
  from assms(2) new have r': "r' = r\<lparr>reg_locs := loc_set_add ?l (reg_locs r), reg_info := (reg_info r)(i \<mapsto> ?l)\<rparr>"
    by (auto simp add: resolve_location_new Let_def)
  show ?thesis
    unfolding reg_inv_def
  proof (intro conjI allI impI ballI)
    fix l' assume "l' \<in> set (reg_locs r')" "\<not> is_nan (loc_id l')"
    with assms(1) fresh show "reg_info r' (loc_id l') = Some l'"
      by (auto simp: r' reg_inv_def)
  next
    fix j l' assume "reg_info r' j = Some l'"
    with assms(1) show "loc_id l' = j"
      by (auto simp: r' reg_inv_def split: if_splits)
  next
    fix j l' assume "reg_info r' j = Some l'"
    with assms(1) show "l' \<in> set (reg_locs r')"
      by (auto simp: r' reg_inv_def split: if_splits)
  next
    have "loc_set_add ?l (reg_locs r) = reg_locs r @ [?l]"
      using fresh by (intro loc_set_add_fresh) auto
    moreover have "\<not> is_nan i \<longrightarrow> ?l \<notin> set (reg_locs r)"
      using fresh by force
    ultimately show "distinct (filter (\<lambda>l. \<not> is_nan (loc_id l)) (reg_locs r'))"
      using assms(1) by (auto simp: r' reg_inv_def)
  qed
qed

text \<open>The location registered under a non-NaN id never changes.\<close>

lemma resolve_location_stable:
  assumes "\<not> is_nan j" and "reg_info r j = Some l0" and "resolve_location r i a b c = (r', l, w)"
  shows "reg_info r' j = Some l0"
proof (cases "\<not> is_nan i \<and> reg_info r i \<noteq> None")
  case True
  with assms(3) show ?thesis using assms(2)
    by (auto simp: resolve_location_def split: if_splits)
next
  case False
  then have "i \<noteq> j" using assms(1,2) by auto
  with False assms(2,3) show ?thesis
    by (auto simp: resolve_location_new Let_def)
qed

lemma resolve_location_warning:
  assumes "resolve_location r i a b c = (r', l, w)"
  shows "(w = None \<longrightarrow> reg_shown r' = reg_shown r) \<and> (w \<noteq> None \<longrightarrow> \<not> reg_shown r \<and> reg_shown r')"
proof (cases "\<not> is_nan i \<and> reg_info r i \<noteq> None")
  case True
  then obtain l0 where "reg_info r i = Some l0" by blast
  with True assms show ?thesis by (auto simp: resolve_location_def split: if_splits)
next
  case False
  with assms show ?thesis by (auto simp: resolve_location_new Let_def)
qed


text \<open>The resolved location is in the set afterwards, the set only grows, a warning is a conflict.\<close>

lemma resolve_location_loc:
  assumes "reg_inv r" and "resolve_location r i a b c = (r', l, w)"
  shows "l \<in> set (reg_locs r') \<and> set (reg_locs r) \<subseteq> set (reg_locs r') \<and> (\<forall>m. w = Some m \<longrightarrow> is_conflict m)"
proof (cases "\<not> is_nan i \<and> reg_info r i \<noteq> None")
  case True
  then obtain l0 where l0: "reg_info r i = Some l0" by blast
  with assms(1) have "l0 \<in> set (reg_locs r)" by (simp add: reg_inv_def)
  with True l0 assms(2) show ?thesis
    by (auto simp: resolve_location_def split: if_splits)
next
  case False
  with assms(2) show ?thesis by (auto simp: resolve_location_new Let_def)
qed

section \<open>Deferred ids are fresh and unique\<close>

lemma max_loc_id_NaN:
  "max_loc_id m ls = NaN \<Longrightarrow> is_nan m \<and> (\<forall>l \<in> set ls. is_nan (loc_id l))"
proof (induction m ls rule: max_loc_id.induct)
  case (1 m)
  then show ?case by simp
next
  case (2 m l ls)
  let ?m = "if is_nan m then loc_id l else if fl_gt (loc_id l) m then loc_id l else m"
  from "2.prems" have "is_nan ?m \<and> (\<forall>l \<in> set ls. is_nan (loc_id l))"
    by (intro "2.IH") simp
  then show ?case
    by (cases "is_nan m"; cases "fl_gt (loc_id l) m") (auto simp: is_nan_def)
qed

lemma max_loc_id_bound:
  "max_loc_id m ls = Num M \<Longrightarrow>
     (\<forall>r. m = Num r \<longrightarrow> r \<le> M) \<and> (\<forall>l \<in> set ls. \<forall>r. loc_id l = Num r \<longrightarrow> r \<le> M)"
proof (induction m ls rule: max_loc_id.induct)
  case (1 m)
  then show ?case by simp
next
  case (2 m l ls)
  let ?m = "if is_nan m then loc_id l else if fl_gt (loc_id l) m then loc_id l else m"
  from "2.prems" have IH: "(\<forall>r. ?m = Num r \<longrightarrow> r \<le> M) \<and> (\<forall>l \<in> set ls. \<forall>r. loc_id l = Num r \<longrightarrow> r \<le> M)"
    by (intro "2.IH") simp
  show ?case
  proof (cases m)
    case (Num a)
    then show ?thesis using IH
      by (cases "loc_id l") (auto split: if_splits)
  next
    case NaN
    then show ?thesis using IH by auto
  qed
qed

lemma assign_ids_length [simp]: "length (assign_ids c ls) = length ls"
  by (induction c ls rule: assign_ids.induct) simp_all

lemma assign_ids_coords:
  "map (\<lambda>l. (loc_lat l, loc_lon l, loc_elev l)) (assign_ids c ls) =
   map (\<lambda>l. (loc_lat l, loc_lon l, loc_elev l)) ls"
  by (induction c ls rule: assign_ids.induct) simp_all

lemma assign_ids_keep:
  "l \<in> set ls \<Longrightarrow> \<not> is_nan (loc_id l) \<Longrightarrow> l \<in> set (assign_ids c ls)"
  by (induction c ls rule: assign_ids.induct) auto

lemma assign_ids_range:
  "l \<in> set (assign_ids (Num q) ls) \<Longrightarrow>
     (l \<in> set ls \<and> \<not> is_nan (loc_id l)) \<or> (\<exists>r. q \<le> r \<and> loc_id l = Num r)"
proof (induction ls arbitrary: q)
  case Nil
  then show ?case by simp
next
  case (Cons l0 ls)
  show ?case
  proof (cases "is_nan (loc_id l0)")
    case True
    with Cons.prems consider "l = l0\<lparr>loc_id := Num q\<rparr>" | "l \<in> set (assign_ids (Num (q + 1)) ls)"
      by auto
    then show ?thesis
    proof cases
      case 1
      then show ?thesis by auto
    next
      case 2
      from Cons.IH [OF 2] show ?thesis
      proof
        assume "l \<in> set ls \<and> \<not> is_nan (loc_id l)"
        then show ?thesis by simp
      next
        assume "\<exists>r \<ge> q + 1. loc_id l = Num r"
        then obtain r where "q + 1 \<le> r" and "loc_id l = Num r" by blast
        then show ?thesis by (intro disjI2 exI [of _ r]) simp
      qed
    qed
  next
    case False
    with Cons.prems Cons.IH show ?thesis by auto
  qed
qed

lemma assign_ids_not_nan:
  "l \<in> set (assign_ids (Num q) ls) \<Longrightarrow> \<not> is_nan (loc_id l)"
  using assign_ids_range by fastforce

lemma assign_ids_distinct:
  assumes "distinct (map loc_id (filter (\<lambda>l. \<not> is_nan (loc_id l)) ls))"
    and "\<forall>l \<in> set ls. \<forall>r. loc_id l = Num r \<longrightarrow> r < q"
  shows "distinct (map loc_id (assign_ids (Num q) ls))"
  using assms
proof (induction ls arbitrary: q)
  case Nil
  then show ?case by simp
next
  case (Cons l ls)
  show ?case
  proof (cases "is_nan (loc_id l)")
    case True
    have "distinct (map loc_id (assign_ids (Num (q + 1)) ls))"
      using Cons.prems True by (intro Cons.IH) auto
    moreover have "Num q \<notin> loc_id ` set (assign_ids (Num (q + 1)) ls)"
    proof
      assume "Num q \<in> loc_id ` set (assign_ids (Num (q + 1)) ls)"
      then obtain l' where l': "l' \<in> set (assign_ids (Num (q + 1)) ls)" "loc_id l' = Num q" by auto
      from assign_ids_range [OF l'(1)] l'(2) Cons.prems(2) show False by force
    qed
    ultimately show ?thesis using True by simp
  next
    case False
    then obtain r where r: "loc_id l = Num r" by (cases "loc_id l") auto
    with Cons.prems(2) have "r < q" by simp
    have "distinct (map loc_id (assign_ids (Num q) ls))"
      using Cons.prems False by (intro Cons.IH) auto
    moreover have "Num r \<notin> loc_id ` set (assign_ids (Num q) ls)"
    proof
      assume "Num r \<in> loc_id ` set (assign_ids (Num q) ls)"
      then obtain l' where l': "l' \<in> set (assign_ids (Num q) ls)" "loc_id l' = Num r" by auto
      from assign_ids_range [OF l'(1)] l'(2) \<open>r < q\<close> have "l' \<in> set ls \<and> \<not> is_nan (loc_id l')"
        by auto
      with Cons.prems(1) False r l'(2) show False by (auto simp: image_iff)
    qed
    ultimately show ?thesis using False r by simp
  qed
qed

lemma ids_unique_distinct_ids:
  "distinct (filter (\<lambda>l. \<not> is_nan (loc_id l)) ls) \<Longrightarrow> ids_unique ls \<Longrightarrow> distinct (map loc_id (filter (\<lambda>l. \<not> is_nan (loc_id l)) ls))"
  by (auto simp: distinct_map ids_unique_def inj_on_def)

theorem resolve_ids_unique:
  assumes "distinct (filter (\<lambda>l. \<not> is_nan (loc_id l)) ls)" and "ids_unique ls"
  shows "distinct (map loc_id (resolve_ids ls)) \<and> (\<forall>l \<in> set (resolve_ids ls). \<not> is_nan (loc_id l))"
proof (cases "max_loc_id NaN ls")
  case (Num M)
  from max_loc_id_bound [OF Num] have "\<forall>l \<in> set ls. \<forall>r. loc_id l = Num r \<longrightarrow> r < M + 1"
    by fastforce
  with assms show ?thesis
    using Num assign_ids_distinct ids_unique_distinct_ids assign_ids_not_nan
    by (simp add: resolve_ids_def)
next
  case NaN
  from max_loc_id_NaN [OF NaN] have "\<forall>l \<in> set ls. \<forall>r. loc_id l = Num r \<longrightarrow> r < 0"
    by (auto simp: is_nan_def)
  with assms show ?thesis
    using NaN assign_ids_distinct ids_unique_distinct_ids assign_ids_not_nan
    by (simp add: resolve_ids_def)
qed

lemma assign_ids_nth:
  "i < length ls \<Longrightarrow> assign_ids (Num q) ls ! i =
     (if is_nan (loc_id (ls ! i))
      then (ls ! i)\<lparr>loc_id := Num (q + of_nat (length (filter (\<lambda>l. is_nan (loc_id l)) (take i ls))))\<rparr>
      else ls ! i)"
proof (induction ls arbitrary: q i)
  case Nil
  then show ?case by simp
next
  case (Cons l ls)
  show ?case
  proof (cases i)
    case 0
    then show ?thesis by simp
  next
    case (Suc j)
    with Cons.prems have "j < length ls" by simp
    with Cons.IH [of j] Cons.IH [of j "q + 1"] Suc show ?thesis
      by (auto simp: add.assoc)
  qed
qed

text \<open>
  C13: the deferred numbering of lines 539--553.  The location at position
  \<open>i\<close> of the list keeps its id when it has one; when its id is NaN it gets
  the counter (one above the largest id, or 0 when no location has an id)
  plus the number of NaN-id locations before it.  Nothing else changes.
\<close>

theorem resolve_ids_numbering:
  assumes "i < length ls"
  shows "resolve_ids ls ! i =
     (if is_nan (loc_id (ls ! i))
      then (ls ! i)\<lparr>loc_id := Num ((case max_loc_id NaN ls of NaN \<Rightarrow> 0 | Num M \<Rightarrow> M + 1)
                               + of_nat (length (filter (\<lambda>l. is_nan (loc_id l)) (take i ls))))\<rparr>
      else ls ! i)"
proof (cases "max_loc_id NaN ls")
  case (Num M)
  with assms show ?thesis by (simp add: resolve_ids_def assign_ids_nth)
next
  case NaN
  with assms show ?thesis by (simp add: resolve_ids_def assign_ids_nth)
qed

theorem resolve_ids_numbering_witness:
  "2 < length id_example \<and>
   resolve_ids id_example ! 2 = \<lparr>loc_id = Num 5, loc_lat = Num 3, loc_lon = Num 0, loc_elev = Num 0\<rparr>"
  using resolve_ids_numbering [of 2 id_example] by (simp add: id_example_def)

text \<open>The numbering applied to the set of a registry that keeps its invariant.\<close>

lemma resolve_ids_registry:
  assumes "reg_inv r"
  shows "distinct (map loc_id (resolve_ids (reg_locs r))) \<and> (\<forall>l \<in> set (resolve_ids (reg_locs r)). \<not> is_nan (loc_id l))"
proof -
  from assms have "distinct (filter (\<lambda>l. \<not> is_nan (loc_id l)) (reg_locs r))"
    by (simp add: reg_inv_def)
  then show ?thesis using reg_inv_ids_unique [OF assms] by (rule resolve_ids_unique)
qed

end
