(* ===== verification/Dense.thy ===== *)
theory Dense
  imports Location
begin

text \<open>
  The second pass of the text loader (\<open>Text.__init__\<close>, lines 504--537 of
  \<open>src/verif/input.py\<close>): the sparse dictionaries built while reading the
  rows are turned into dense numpy arrays indexed by position in the frozen
  coordinate lists.  \<open>fill_dense\<close> is the loop as written: arrays allocated
  full of NaN, then one sweep over every (date, offset, location) index triple
  that copies each value found under the cell's key.  \<open>assemble\<close> is the
  reference: each cell is the dictionary's value at its key, or NaN.  The
  theorems are the equivalence of the two, the shape of every array, and the
  cell-by-cell reading of the result.
\<close>

type_synonym key = "fl \<times> fl \<times> fl \<times> fl \<times> fl"
type_synonym key6 = "fl \<times> fl \<times> fl \<times> fl \<times> fl \<times> fl"
type_synonym arr3 = "fl list list list"
type_synonym arr4 = "fl list list list list"

text \<open>The frozen coordinate lists (lines 493--497).\<close>

record coords =
  c_dates :: "fl list"
  c_offsets :: "fl list"
  c_locations :: "location list"
  c_quantiles :: "fl list"
  c_thresholds :: "fl list"

text \<open>The dictionaries \<open>obs\<close>, \<open>fcst\<close>, \<open>pit\<close>, \<open>x\<close> and \<open>cdf\<close> (lines 364--368).\<close>

record sparse =
  sp_obs :: "(key \<times> fl) list"
  sp_fcst :: "(key \<times> fl) list"
  sp_pit :: "(key \<times> fl) list"
  sp_x :: "(key6 \<times> fl) list"
  sp_cdf :: "(key6 \<times> fl) list"

text \<open>
  \<open>self.obs\<close>, \<open>self.deterministic\<close>, \<open>self._pit\<close> (\<open>None\<close> unless some row
  had a \<open>pit\<close> value), \<open>self.quantile_scores\<close>, \<open>self.threshold_scores\<close>.
\<close>

record dense =
  dn_obs :: arr3
  dn_fcst :: arr3
  dn_pit :: "arr3 option"
  dn_qs :: arr4
  dn_ts :: arr4

definition loc_key :: "fl \<Rightarrow> fl \<Rightarrow> location \<Rightarrow> key" where
  "loc_key d h l = (d, h, loc_lat l, loc_lon l, loc_elev l)"

definition key6 :: "key \<Rightarrow> fl \<Rightarrow> key6" where
  "key6 k q = (case k of (d, h, a, b, e) \<Rightarrow> (d, h, a, b, e, q))"

text \<open>Lines 512--521: the key of cell \<open>[d][o][s]\<close>.\<close>

definition cell_key :: "coords \<Rightarrow> nat \<Rightarrow> nat \<Rightarrow> nat \<Rightarrow> key" where
  "cell_key c d h s = loc_key (c_dates c ! d) (c_offsets c ! h) (c_locations c ! s)"

text \<open>\<open>np.zeros(shape) * np.nan\<close>.\<close>

definition nan3 :: "nat \<Rightarrow> nat \<Rightarrow> nat \<Rightarrow> arr3" where
  "nan3 n m k = replicate n (replicate m (replicate k NaN))"

definition nan4 :: "nat \<Rightarrow> nat \<Rightarrow> nat \<Rightarrow> nat \<Rightarrow> arr4" where
  "nan4 n m k r = replicate n (replicate m (replicate k (replicate r NaN)))"

text \<open>\<open>a[d][o][s] = v\<close> and \<open>a[d, o, s, q] = v\<close>.\<close>

definition upd3 :: "'a list list list \<Rightarrow> nat \<Rightarrow> nat \<Rightarrow> nat \<Rightarrow> 'a \<Rightarrow> 'a list list list" where
  "upd3 a d h s v = a[d := (a ! d)[h := (a ! d ! h)[s := v]]]"

definition upd4 :: "'a list list list list \<Rightarrow> nat \<Rightarrow> nat \<Rightarrow> nat \<Rightarrow> nat \<Rightarrow> 'a \<Rightarrow> 'a list list list list" where
  "upd4 a d h s q v = a[d := (a ! d)[h := (a ! d ! h)[s := (a ! d ! h ! s)[q := v]]]]"

text \<open>Lines 522--527: \<open>if key in table: array[d][o][s] = table[key]\<close>.\<close>

definition fill3 :: "(key \<times> fl) list \<Rightarrow> coords \<Rightarrow> nat \<times> nat \<times> nat \<Rightarrow> arr3 \<Rightarrow> arr3" where
  "fill3 tbl c i a =
     (case i of (d, h, s) \<Rightarrow>
        (case map_of tbl (cell_key c d h s) of Some v \<Rightarrow> upd3 a d h s v | None \<Rightarrow> a))"

text \<open>Lines 528--537: the inner loop over the quantiles (or thresholds) of one cell.\<close>

definition fill4 :: "(key6 \<times> fl) list \<Rightarrow> fl list \<Rightarrow> coords \<Rightarrow> nat \<times> nat \<times> nat \<Rightarrow> arr4 \<Rightarrow> arr4" where
  "fill4 tbl lv c i a =
     (case i of (d, h, s) \<Rightarrow>
        fold (\<lambda>q a. case map_of tbl (key6 (cell_key c d h s) (lv ! q)) of
                      Some v \<Rightarrow> upd4 a d h s q v | None \<Rightarrow> a)
          [0..<length lv] a)"

text \<open>
  The body of the innermost loop (lines 517--537).  Its five statements write
  five different arrays, so the body is the five writes side by side.
\<close>

definition fill_cell :: "sparse \<Rightarrow> coords \<Rightarrow> nat \<times> nat \<times> nat \<Rightarrow> dense \<Rightarrow> dense" where
  "fill_cell sp c i dn =
     \<lparr>dn_obs = fill3 (sp_obs sp) c i (dn_obs dn),
      dn_fcst = fill3 (sp_fcst sp) c i (dn_fcst dn),
      dn_pit = map_option (fill3 (sp_pit sp) c i) (dn_pit dn),
      dn_qs = fill4 (sp_x sp) (c_quantiles c) c i (dn_qs dn),
      dn_ts = fill4 (sp_cdf sp) (c_thresholds c) c i (dn_ts dn)\<rparr>"

text \<open>The three nested loops of lines 511--516, in their order.\<close>

definition cells :: "coords \<Rightarrow> (nat \<times> nat \<times> nat) list" where
  "cells c = [(d, h, s). d \<leftarrow> [0..<length (c_dates c)], h \<leftarrow> [0..<length (c_offsets c)],
                         s \<leftarrow> [0..<length (c_locations c)]]"

text \<open>Lines 504--537.\<close>

definition fill_dense :: "sparse \<Rightarrow> coords \<Rightarrow> dense" where
  "fill_dense sp c =
     (let nd = length (c_dates c); no = length (c_offsets c); nl = length (c_locations c)
      in fold (fill_cell sp c) (cells c)
           \<lparr>dn_obs = nan3 nd no nl, dn_fcst = nan3 nd no nl,
            dn_pit = (if sp_pit sp \<noteq> [] then Some (nan3 nd no nl) else None),
            dn_qs = nan4 nd no nl (length (c_quantiles c)),
            dn_ts = nan4 nd no nl (length (c_thresholds c))\<rparr>)"

section \<open>The reference: each cell is the value under its key\<close>

definition dense3 :: "(key \<times> fl) list \<Rightarrow> coords \<Rightarrow> arr3" where
  "dense3 tbl c =
     map (\<lambda>d. map (\<lambda>h. map (\<lambda>l. nan_lookup tbl (loc_key d h l)) (c_locations c)) (c_offsets c))
       (c_dates c)"

definition dense4 :: "(key6 \<times> fl) list \<Rightarrow> fl list \<Rightarrow> coords \<Rightarrow> arr4" where
  "dense4 tbl lv c =
     map (\<lambda>d. map (\<lambda>h. map (\<lambda>l. map (\<lambda>q. nan_lookup tbl (key6 (loc_key d h l) q)) lv)
                            (c_locations c)) (c_offsets c)) (c_dates c)"

definition assemble :: "sparse \<Rightarrow> coords \<Rightarrow> dense" where
  "assemble sp c =
     \<lparr>dn_obs = dense3 (sp_obs sp) c, dn_fcst = dense3 (sp_fcst sp) c,
      dn_pit = (if sp_pit sp \<noteq> [] then Some (dense3 (sp_pit sp) c) else None),
      dn_qs = dense4 (sp_x sp) (c_quantiles c) c,
      dn_ts = dense4 (sp_cdf sp) (c_thresholds c) c\<rparr>"

text \<open>Array extents: \<open>a.shape == (n, m, k)\<close> for a nested list.\<close>

definition shape3 :: "'a list list list \<Rightarrow> nat \<Rightarrow> nat \<Rightarrow> nat \<Rightarrow> bool" where
  "shape3 a n m k \<longleftrightarrow>
     length a = n \<and> (\<forall>d < n. length (a ! d) = m \<and> (\<forall>h < m. length (a ! d ! h) = k))"

definition shape4 :: "'a list list list list \<Rightarrow> nat \<Rightarrow> nat \<Rightarrow> nat \<Rightarrow> nat \<Rightarrow> bool" where
  "shape4 a n m k r \<longleftrightarrow>
     length a = n \<and> (\<forall>d < n. length (a ! d) = m \<and> (\<forall>h < m. length (a ! d ! h) = k \<and>
       (\<forall>s < k. length (a ! d ! h ! s) = r)))"

section \<open>The loop writes each cell from its key\<close>

text \<open>One step of a 3-D fill writes cell \<open>i\<close> when its key is in the table.\<close>

definition written3 :: "(key \<times> fl) list \<Rightarrow> coords \<Rightarrow> nat \<times> nat \<times> nat \<Rightarrow> (nat \<times> nat \<times> nat) set" where
  "written3 tbl c i = {p. p = i \<and> map_of tbl (case p of (d, h, s) \<Rightarrow> cell_key c d h s) \<noteq> None}"

definition at3 :: "'a list list list \<Rightarrow> nat \<times> nat \<times> nat \<Rightarrow> 'a" where
  "at3 a p = (case p of (d, h, s) \<Rightarrow> a ! d ! h ! s)"

definition val3 :: "(key \<times> fl) list \<Rightarrow> coords \<Rightarrow> nat \<times> nat \<times> nat \<Rightarrow> fl" where
  "val3 tbl c p = (case p of (d, h, s) \<Rightarrow> the (map_of tbl (cell_key c d h s)))"

definition written4 :: "(key6 \<times> fl) list \<Rightarrow> fl list \<Rightarrow> coords \<Rightarrow> nat \<times> nat \<times> nat \<Rightarrow> (nat \<times> nat \<times> nat \<times> nat) set" where
  "written4 tbl lv c i =
     {p. case p of (d, h, s, q) \<Rightarrow> (d, h, s) = i \<and> q < length lv \<and>
                     map_of tbl (key6 (cell_key c d h s) (lv ! q)) \<noteq> None}"

definition at4 :: "'a list list list list \<Rightarrow> nat \<times> nat \<times> nat \<times> nat \<Rightarrow> 'a" where
  "at4 a p = (case p of (d, h, s, q) \<Rightarrow> a ! d ! h ! s ! q)"

definition val4 :: "(key6 \<times> fl) list \<Rightarrow> fl list \<Rightarrow> coords \<Rightarrow> nat \<times> nat \<times> nat \<times> nat \<Rightarrow> fl" where
  "val4 tbl lv c p = (case p of (d, h, s, q) \<Rightarrow> the (map_of tbl (key6 (cell_key c d h s) (lv ! q))))"

section \<open>Shapes and cells\<close>

lemma shape3_nan3 [simp]: "shape3 (nan3 n m k) n m k"
  by (simp add: shape3_def nan3_def)

lemma shape4_nan4 [simp]: "shape4 (nan4 n m k r) n m k r"
  by (simp add: shape4_def nan4_def)

lemma nan3_nth [simp]: "d < n \<Longrightarrow> h < m \<Longrightarrow> s < k \<Longrightarrow> nan3 n m k ! d ! h ! s = NaN"
  by (simp add: nan3_def)

lemma nan4_nth [simp]: "d < n \<Longrightarrow> h < m \<Longrightarrow> s < k \<Longrightarrow> q < r \<Longrightarrow> nan4 n m k r ! d ! h ! s ! q = NaN"
  by (simp add: nan4_def)

lemma upd3_shape: "shape3 a n m k \<Longrightarrow> shape3 (upd3 a d h s v) n m k"
  by (auto simp: shape3_def upd3_def length_nth_list_update)

lemma upd4_shape: "shape4 a n m k r \<Longrightarrow> shape4 (upd4 a d h s q v) n m k r"
  by (auto simp: shape4_def upd4_def length_nth_list_update)

lemma upd3_nth:
  assumes "shape3 a n m k" "d < n" "h < m" "s < k"
  shows "upd3 a d h s v ! d' ! h' ! s' = (if (d', h', s') = (d, h, s) then v else a ! d' ! h' ! s')"
  using assms by (auto simp: shape3_def upd3_def nth_list_update_if)

lemma upd4_nth:
  assumes "shape4 a n m k r" "d < n" "h < m" "s < k" "q < r"
  shows "upd4 a d h s q v ! d' ! h' ! s' ! q' =
           (if (d', h', s', q') = (d, h, s, q) then v else a ! d' ! h' ! s' ! q')"
  using assms by (auto simp: shape4_def upd4_def nth_list_update_if)

lemma shape3_eqI:
  assumes "shape3 a n m k" "shape3 b n m k"
    and "\<And>d h s. d < n \<Longrightarrow> h < m \<Longrightarrow> s < k \<Longrightarrow> a ! d ! h ! s = b ! d ! h ! s"
  shows "a = b"
  using assms unfolding shape3_def by (metis nth_equalityI)

lemma shape4_eqI:
  assumes "shape4 a n m k r" "shape4 b n m k r"
    and "\<And>d h s q. d < n \<Longrightarrow> h < m \<Longrightarrow> s < k \<Longrightarrow> q < r \<Longrightarrow> a ! d ! h ! s ! q = b ! d ! h ! s ! q"
  shows "a = b"
  using assms unfolding shape4_def by (metis nth_equalityI)

lemma set_cells:
  "set (cells c) = {(d, h, s). d < length (c_dates c) \<and> h < length (c_offsets c) \<and> s < length (c_locations c)}"
  by (auto simp: cells_def image_iff)

lemma fill3_step:
  assumes "shape3 a n m k" and "i \<in> {(d, h, s). d < n \<and> h < m \<and> s < k}"
  shows "shape3 (fill3 tbl c i a) n m k \<and>
         at3 (fill3 tbl c i a) p = (if p \<in> written3 tbl c i then val3 tbl c p else at3 a p)"
  using assms
  by (auto simp: fill3_def written3_def at3_def val3_def upd3_nth upd3_shape split: option.splits prod.splits)

lemma fold_fill3:
  assumes "shape3 a (length (c_dates c)) (length (c_offsets c)) (length (c_locations c))"
  shows "shape3 (fold (fill3 tbl c) (cells c) a) (length (c_dates c)) (length (c_offsets c)) (length (c_locations c)) \<and>
         at3 (fold (fill3 tbl c) (cells c) a) p =
           (if p \<in> (\<Union>i \<in> set (cells c). written3 tbl c i) then val3 tbl c p else at3 a p)"
  by (rule fold_cellwise [where ok = "\<lambda>a. shape3 a _ _ _"]) (use assms fill3_step set_cells in auto)


lemma upd4_at4:
  assumes "shape4 a n m k r" "d < n" "h < m" "s < k" "q < r"
  shows "at4 (case x of Some v \<Rightarrow> upd4 a d h s q v | None \<Rightarrow> a) p =
           (if p = (d, h, s, q) \<and> x \<noteq> None then the x else at4 a p)"
  using assms by (cases p) (auto simp: at4_def upd4_nth split: option.splits)

lemma fill4_step:
  assumes "shape4 a n m k (length lv)" and "i \<in> {(d, h, s). d < n \<and> h < m \<and> s < k}"
  shows "shape4 (fill4 tbl lv c i a) n m k (length lv) \<and>
         at4 (fill4 tbl lv c i a) p = (if p \<in> written4 tbl lv c i then val4 tbl lv c p else at4 a p)"
proof -
  obtain d h s where i: "i = (d, h, s)" and rng: "d < n" "h < m" "s < k"
    using assms(2) by auto
  let ?x = "\<lambda>q. map_of tbl (key6 (cell_key c d h s) (lv ! q))"
  let ?f = "\<lambda>q a. case ?x q of Some v \<Rightarrow> upd4 a d h s q v | None \<Rightarrow> a"
  let ?W = "\<lambda>q. {p. p = (d, h, s, q) \<and> ?x q \<noteq> None}"
  have A: "shape4 (fold ?f [0..<length lv] a) n m k (length lv) \<and>
        at4 (fold ?f [0..<length lv] a) p =
          (if p \<in> (\<Union>q \<in> set [0..<length lv]. ?W q) then val4 tbl lv c p else at4 a p)"
  proof (rule fold_cellwise [where ok = "\<lambda>a. shape4 a n m k (length lv)"])
    fix q and a' :: arr4 assume "q \<in> set [0..<length lv]" "shape4 a' n m k (length lv)"
    then show "shape4 (?f q a') n m k (length lv)"
      by (simp add: upd4_shape split: option.split)
  next
    fix q p' and a' :: arr4 assume "q \<in> set [0..<length lv]" "shape4 a' n m k (length lv)"
    with rng show "at4 (?f q a') p' = (if p' \<in> ?W q then val4 tbl lv c p' else at4 a' p')"
      by (auto simp: upd4_at4 val4_def)
  qed (rule assms(1))
  have B: "(\<Union>q \<in> set [0..<length lv]. ?W q) = written4 tbl lv c i"
    by (auto simp: written4_def i)
  show ?thesis using A unfolding B fill4_def i prod.case .
qed

lemma fold_fill4:
  assumes "shape4 a (length (c_dates c)) (length (c_offsets c)) (length (c_locations c)) (length lv)"
  shows "shape4 (fold (fill4 tbl lv c) (cells c) a) (length (c_dates c)) (length (c_offsets c))
           (length (c_locations c)) (length lv) \<and>
         at4 (fold (fill4 tbl lv c) (cells c) a) p =
           (if p \<in> (\<Union>i \<in> set (cells c). written4 tbl lv c i) then val4 tbl lv c p else at4 a p)"
  by (rule fold_cellwise [where ok = "\<lambda>a. shape4 a _ _ _ _"]) (use assms fill4_step set_cells in auto)

section \<open>The loop computes the reference\<close>

lemma dense3_shape:
  "shape3 (dense3 tbl c) (length (c_dates c)) (length (c_offsets c)) (length (c_locations c))"
  by (simp add: shape3_def dense3_def)

lemma dense4_shape:
  "shape4 (dense4 tbl lv c) (length (c_dates c)) (length (c_offsets c)) (length (c_locations c)) (length lv)"
  by (simp add: shape4_def dense4_def)

lemma dense3_nth:
  "d < length (c_dates c) \<Longrightarrow> h < length (c_offsets c) \<Longrightarrow> s < length (c_locations c) \<Longrightarrow>
   dense3 tbl c ! d ! h ! s = nan_lookup tbl (cell_key c d h s)"
  by (simp add: dense3_def cell_key_def)

lemma dense4_nth:
  "d < length (c_dates c) \<Longrightarrow> h < length (c_offsets c) \<Longrightarrow> s < length (c_locations c) \<Longrightarrow>
   q < length lv \<Longrightarrow> dense4 tbl lv c ! d ! h ! s ! q = nan_lookup tbl (key6 (cell_key c d h s) (lv ! q))"
  by (simp add: dense4_def cell_key_def)

lemma fold_fill3_dense3:
  "fold (fill3 tbl c) (cells c) (nan3 (length (c_dates c)) (length (c_offsets c)) (length (c_locations c)))
   = dense3 tbl c"
proof (rule shape3_eqI [OF _ dense3_shape])
  note F = fold_fill3 [OF shape3_nan3, where c = c and tbl = tbl]
  show "shape3 (fold (fill3 tbl c) (cells c) (nan3 (length (c_dates c)) (length (c_offsets c))
          (length (c_locations c)))) (length (c_dates c)) (length (c_offsets c)) (length (c_locations c))"
    using F by blast
  fix d h s assume rng: "d < length (c_dates c)" "h < length (c_offsets c)" "s < length (c_locations c)"
  from F [of "(d, h, s)"] rng show "fold (fill3 tbl c) (cells c) (nan3 (length (c_dates c))
      (length (c_offsets c)) (length (c_locations c))) ! d ! h ! s = dense3 tbl c ! d ! h ! s"
    by (auto simp: at3_def val3_def written3_def set_cells dense3_nth nan_lookup_def split: option.splits)
qed

lemma fold_fill4_dense4:
  "fold (fill4 tbl lv c) (cells c)
     (nan4 (length (c_dates c)) (length (c_offsets c)) (length (c_locations c)) (length lv))
   = dense4 tbl lv c"
proof (rule shape4_eqI [OF _ dense4_shape])
  note F = fold_fill4 [OF shape4_nan4, where c = c and lv = lv and tbl = tbl]
  show "shape4 (fold (fill4 tbl lv c) (cells c) (nan4 (length (c_dates c)) (length (c_offsets c))
          (length (c_locations c)) (length lv))) (length (c_dates c)) (length (c_offsets c))
          (length (c_locations c)) (length lv)"
    using F by blast
  fix d h s q
  assume rng: "d < length (c_dates c)" "h < length (c_offsets c)" "s < length (c_locations c)" "q < length lv"
  from F [of "(d, h, s, q)"] rng show "fold (fill4 tbl lv c) (cells c) (nan4 (length (c_dates c))
      (length (c_offsets c)) (length (c_locations c)) (length lv)) ! d ! h ! s ! q = dense4 tbl lv c ! d ! h ! s ! q"
    by (auto simp: at4_def val4_def written4_def set_cells dense4_nth nan_lookup_def split: option.splits)
qed

lemma fold_fill_cell:
  "fold (fill_cell sp c) ixs dn =
     \<lparr>dn_obs = fold (fill3 (sp_obs sp) c) ixs (dn_obs dn),
      dn_fcst = fold (fill3 (sp_fcst sp) c) ixs (dn_fcst dn),
      dn_pit = map_option (fold (fill3 (sp_pit sp) c) ixs) (dn_pit dn),
      dn_qs = fold (fill4 (sp_x sp) (c_quantiles c) c) ixs (dn_qs dn),
      dn_ts = fold (fill4 (sp_cdf sp) (c_thresholds c) c) ixs (dn_ts dn)\<rparr>"
proof (induction ixs arbitrary: dn)
  case Nil
  then show ?case by (simp add: option.map_ident)
next
  case (Cons i ixs)
  then show ?case by (simp add: fill_cell_def option.map_comp comp_def)
qed

lemma fill_dense_eq: "fill_dense sp c = assemble sp c"
  by (simp add: fill_dense_def assemble_def fold_fill_cell fold_fill3_dense3 fold_fill4_dense4 Let_def)

text \<open>
  C1: the literal loop of lines 504--537, which allocates NaN arrays and
  writes every cell whose key is in a dictionary, computes the same arrays as
  the map-form reference \<open>assemble\<close>: each cell holds the dictionary's value
  at the cell's key, NaN where there is none, and \<open>pit\<close> is present exactly
  when its dictionary is not empty.
\<close>

theorem fill_dense_assemble: "fill_dense sp c = assemble sp c"
  by (simp add: fill_dense_def assemble_def fold_fill_cell fold_fill3_dense3 fold_fill4_dense4 Let_def)

end

