(* ===== verification/NetCDF.thy ===== *)
theory NetCDF
  imports Dense
begin

text \<open>
  The netCDF side of \<open>src/verif/input.py\<close>: an abstract netCDF file, the
  cleaning of the arrays read from it (\<open>verif.util.clean\<close>, outside
  \<open>src/\<close>), the units rule shared by both netCDF decoders, and the
  self-describing decoder \<open>NetcdfCf\<close> (lines 254--334).

  A file as the netCDF library presents it is its global attributes and its
  variables, each in file order.  Attributes are strings (the code only ever
  compares them with strings and concatenates them); a variable is a 1-, 3-
  or 4-dimensional array of floats.  The decoder reads each variable with the
  rank its role has (coordinates 1, \<open>obs\<close> and \<open>fcst\<close> 3, \<open>ens\<close>,
  \<open>cdf\<close> and \<open>x\<close> 4); a variable of another rank in that place is outside
  the model and reads as \<open>ShapeError\<close>.

  The properties: the constructor's success is characterised field by
  field, and its result does not depend on the data variables, so the
  extents of the data arrays are never compared with the coordinates.
\<close>

datatype ncvar = Var1 "fl list" | Var3 arr3 | Var4 arr4

record ncfile =
  nc_attrs :: "(string \<times> string) list"
  nc_vars :: "(string \<times> ncvar) list"

text \<open>\<open>hasattr(file, a)\<close>, \<open>file.a\<close> (\<open>AttributeError\<close> when missing), \<open>file.variables[v]\<close>.\<close>

definition nc_hasattr :: "ncfile \<Rightarrow> string \<Rightarrow> bool" where
  "nc_hasattr f a \<longleftrightarrow> map_of (nc_attrs f) a \<noteq> None"

definition nc_getattr :: "ncfile \<Rightarrow> string \<Rightarrow> string res" where
  "nc_getattr f a = (case map_of (nc_attrs f) a of None \<Rightarrow> Inl (AttributeError a) | Some v \<Rightarrow> Inr v)"

definition nc_variable :: "ncfile \<Rightarrow> string \<Rightarrow> ncvar res" where
  "nc_variable f v = (case map_of (nc_vars f) v of None \<Rightarrow> Inl (KeyError v) | Some x \<Rightarrow> Inr x)"

section \<open>\<open>verif.util.clean\<close>\<close>

text \<open>The sentinel -999 becomes NaN, every other value passes unchanged.\<close>

definition clean_fl :: "fl \<Rightarrow> fl" where
  "clean_fl x = (if x = Num (- 999) then NaN else x)"

fun clean_var :: "ncvar \<Rightarrow> ncvar" where
  "clean_var (Var1 xs) = Var1 (map clean_fl xs)"
| "clean_var (Var3 a) = Var3 (map (map (map clean_fl)) a)"
| "clean_var (Var4 a) = Var4 (map (map (map (map clean_fl))) a)"

fun as1 :: "ncvar \<Rightarrow> fl list res" where
  "as1 (Var1 xs) = Inr xs"
| "as1 _ = Inl ShapeError"

fun as3 :: "ncvar \<Rightarrow> arr3 res" where
  "as3 (Var3 a) = Inr a"
| "as3 _ = Inl ShapeError"

fun as4 :: "ncvar \<Rightarrow> arr4 res" where
  "as4 (Var4 a) = Inr a"
| "as4 _ = Inl ShapeError"

text \<open>\<open>verif.util.clean(file.variables[v])\<close> read as a vector, a 3-D and a 4-D array.\<close>

definition clean1 :: "ncfile \<Rightarrow> string \<Rightarrow> fl list res" where
  "clean1 f v = rbind (nc_variable f v) (\<lambda>x. as1 (clean_var x))"

definition clean3 :: "ncfile \<Rightarrow> string \<Rightarrow> arr3 res" where
  "clean3 f v = rbind (nc_variable f v) (\<lambda>x. as3 (clean_var x))"

definition clean4 :: "ncfile \<Rightarrow> string \<Rightarrow> arr4 res" where
  "clean4 f v = rbind (nc_variable f v) (\<lambda>x. as4 (clean_var x))"

section \<open>Locations and units, shared by both netCDF decoders\<close>

text \<open>
  Lines 304--313 (and 155--164): one location per entry of the latitude
  vector, from the four parallel vectors; a shorter id, longitude or
  elevation vector raises \<open>IndexError\<close> at its first missing entry.
\<close>

definition nc_locations :: "fl list \<Rightarrow> fl list \<Rightarrow> fl list \<Rightarrow> fl list \<Rightarrow> location list res" where
  "nc_locations lat lon ids elev =
     (if length lat \<le> length ids \<and> length lat \<le> length lon \<and> length lat \<le> length elev
      then Inr (map (\<lambda>i. \<lparr>loc_id = ids ! i, loc_lat = lat ! i, loc_lon = lon ! i, loc_elev = elev ! i\<rparr>)
                  [0..<length lat])
      else Inl IndexError)"

text \<open>The four vectors are read in the order of the code: latitude, longitude, id, elevation.\<close>

definition read_locations :: "ncfile \<Rightarrow> string \<Rightarrow> string \<Rightarrow> string \<Rightarrow> string \<Rightarrow> location list res" where
  "read_locations f vlat vlon vid velev =
     rbind (clean1 f vlat) (\<lambda>lat. rbind (clean1 f vlon) (\<lambda>lon.
       rbind (clean1 f vid) (\<lambda>ids. rbind (clean1 f velev) (\<lambda>elev. nc_locations lat lon ids elev))))"

text \<open>Lines 326--333 (and 186--193): the units label of the \<open>Units\<close> attribute.\<close>

definition units_label :: "string option \<Rightarrow> string" where
  "units_label u = (case u of None \<Rightarrow> ''No units''
                           | Some v \<Rightarrow> if v = [] then ''No units'' else if v = ''%'' then ''%''
                                       else ''$'' @ v @ ''$'')"

section \<open>\<open>NetcdfCf\<close>\<close>

text \<open>The attributes \<open>NetcdfCf.__init__\<close> sets (lines 262--267).\<close>

record nc_input =
  ni_dates :: "fl list"
  ni_offsets :: "fl list"
  ni_locations :: "location list"
  ni_thresholds :: "fl list"
  ni_quantiles :: "fl list"
  ni_variable :: "string \<times> string"

text \<open>Lines 270--279: the file opens as netCDF and its \<open>Conventions\<close> is \<open>verif_1.0.0\<close>.\<close>

definition netcdf_is_valid :: "ncfile option \<Rightarrow> bool" where
  "netcdf_is_valid fo = (case fo of None \<Rightarrow> False
                          | Some f \<Rightarrow> nc_hasattr f ''Conventions'' \<and> nc_getattr f ''Conventions'' = Inr ''verif_1.0.0'')"

text \<open>Lines 324--334, \<open>_get_variable\<close>.\<close>

definition netcdf_variable :: "ncfile \<Rightarrow> (string \<times> string) res" where
  "netcdf_variable f = rbind (nc_getattr f ''standard_name'') (\<lambda>name. Inr (name, units_label (map_of (nc_attrs f) ''Units'')))"

text \<open>The accessors the constructor calls (lines 301--322).\<close>

definition netcdf_dates :: "ncfile \<Rightarrow> fl list res" where
  "netcdf_dates f = clean1 f ''date''"

definition netcdf_locations :: "ncfile \<Rightarrow> location list res" where
  "netcdf_locations f = read_locations f ''lat'' ''lon'' ''id'' ''elev''"

definition netcdf_offsets :: "ncfile \<Rightarrow> fl list res" where
  "netcdf_offsets f = clean1 f ''offset''"

definition netcdf_thresholds :: "ncfile \<Rightarrow> fl list res" where
  "netcdf_thresholds f = clean1 f ''thresholds''"

definition netcdf_quantiles :: "ncfile \<Rightarrow> fl list res" where
  "netcdf_quantiles f = clean1 f ''quantiles''"

text \<open>Lines 258--267, \<open>NetcdfCf.__init__\<close>, in the order of its reads.\<close>

definition netcdf_load :: "ncfile \<Rightarrow> nc_input res" where
  "netcdf_load f =
     rbind (netcdf_dates f) (\<lambda>dates. rbind (netcdf_offsets f) (\<lambda>offsets.
     rbind (netcdf_locations f) (\<lambda>locs.
     rbind (netcdf_thresholds f) (\<lambda>ths. rbind (netcdf_quantiles f) (\<lambda>qs.
     rbind (netcdf_variable f) (\<lambda>var.
       Inr \<lparr>ni_dates = dates, ni_offsets = offsets, ni_locations = locs, ni_thresholds = ths,
            ni_quantiles = qs, ni_variable = var\<rparr>))))))"

text \<open>Lines 281--299: the data arrays are views of the stored variables, read when asked for.\<close>

definition netcdf_obs :: "ncfile \<Rightarrow> arr3 res" where
  "netcdf_obs f = clean3 f ''obs''"

definition netcdf_fcst :: "ncfile \<Rightarrow> arr3 res" where
  "netcdf_fcst f = clean3 f ''fcst''"

definition netcdf_ens :: "ncfile \<Rightarrow> arr4 res" where
  "netcdf_ens f = clean4 f ''ens''"

definition netcdf_cdf :: "ncfile \<Rightarrow> arr4 res" where
  "netcdf_cdf f = clean4 f ''cdf''"

definition netcdf_x :: "ncfile \<Rightarrow> arr4 res" where
  "netcdf_x f = clean4 f ''x''"

text \<open>
  A file that the decoder accepts: one date, two offsets, two stations (the
  second with the missing-value id -999), no threshold, one quantile, units
  \<open>mm\<close>; its \<open>obs\<close> array holds a single cell.
\<close>

definition netcdf_example :: ncfile where
  "netcdf_example =
     \<lparr>nc_attrs = [(''Conventions'', ''verif_1.0.0''), (''standard_name'', ''Precipitation''), (''Units'', ''mm'')],
      nc_vars = [(''date'', Var1 [Num 20170101]), (''offset'', Var1 [Num 0, Num 12]),
                 (''lat'', Var1 [Num 60, Num 61]), (''lon'', Var1 [Num 10, Num 11]),
                 (''id'', Var1 [Num 18700, Num (- 999)]), (''elev'', Var1 [Num 94, Num 100]),
                 (''thresholds'', Var1 []), (''quantiles'', Var1 [Num (1 / 2)]),
                 (''obs'', Var3 [[[Num 1]]])]\<rparr>"

section \<open>Properties\<close>

lemmas netcdf_accessors = netcdf_dates_def netcdf_offsets_def netcdf_locations_def netcdf_thresholds_def
  netcdf_quantiles_def

lemma clean1_Inr:
  "clean1 f v = Inr xs \<longleftrightarrow> (\<exists>ys. map_of (nc_vars f) v = Some (Var1 ys) \<and> xs = map clean_fl ys)"
proof (cases "map_of (nc_vars f) v")
  case (Some x)
  then show ?thesis by (cases x) (auto simp: clean1_def nc_variable_def)
qed (simp add: clean1_def nc_variable_def)

lemma clean1_Inl:
  "clean1 f v = Inl e \<Longrightarrow> e = KeyError v \<or> e = ShapeError"
proof (cases "map_of (nc_vars f) v")
  case (Some x)
  then show "clean1 f v = Inl e \<Longrightarrow> ?thesis" by (cases x) (auto simp: clean1_def nc_variable_def)
qed (simp add: clean1_def nc_variable_def)

lemma nc_locations_Inr:
  "nc_locations lat lon ids elev = Inr ls \<longleftrightarrow>
     length lat \<le> length ids \<and> length lat \<le> length lon \<and> length lat \<le> length elev \<and>
     ls = map (\<lambda>i. \<lparr>loc_id = ids ! i, loc_lat = lat ! i, loc_lon = lon ! i, loc_elev = elev ! i\<rparr>) [0..<length lat]"
  by (auto simp: nc_locations_def)

lemma nc_locations_Inl: "nc_locations lat lon ids elev = Inl e \<Longrightarrow> e = IndexError"
  by (simp add: nc_locations_def split: if_splits)

lemma netcdf_variable_Inr:
  "netcdf_variable f = Inr var \<longleftrightarrow>
     (\<exists>name. map_of (nc_attrs f) ''standard_name'' = Some name \<and> var = (name, units_label (map_of (nc_attrs f) ''Units'')))"
  by (auto simp: netcdf_variable_def nc_getattr_def rbind_Inr split: option.splits)

lemma netcdf_variable_Inl: "netcdf_variable f = Inl e \<Longrightarrow> e = AttributeError ''standard_name''"
  by (simp add: netcdf_variable_def nc_getattr_def rbind_def split: option.splits sum.splits)

text \<open>
  C25: \<open>NetcdfCf.__init__\<close> succeeds exactly when the eight coordinate
  variables exist as vectors, the latitude vector is no longer than the other
  three location vectors and \<open>standard_name\<close> is set; the attributes are
  then the cleaned vectors, one location per latitude entry, and the name and
  units label of the file.
\<close>

theorem netcdf_load_Inr:
  "netcdf_load f = Inr ni \<longleftrightarrow>
    (\<exists>d off lat lon ids elev ths qs name.
       map_of (nc_vars f) ''date'' = Some (Var1 d) \<and> map_of (nc_vars f) ''offset'' = Some (Var1 off) \<and>
       map_of (nc_vars f) ''lat'' = Some (Var1 lat) \<and> map_of (nc_vars f) ''lon'' = Some (Var1 lon) \<and>
       map_of (nc_vars f) ''id'' = Some (Var1 ids) \<and> map_of (nc_vars f) ''elev'' = Some (Var1 elev) \<and>
       map_of (nc_vars f) ''thresholds'' = Some (Var1 ths) \<and> map_of (nc_vars f) ''quantiles'' = Some (Var1 qs) \<and>
       map_of (nc_attrs f) ''standard_name'' = Some name \<and>
       length lat \<le> length ids \<and> length lat \<le> length lon \<and> length lat \<le> length elev \<and>
       ni = \<lparr>ni_dates = map clean_fl d, ni_offsets = map clean_fl off,
             ni_locations = map (\<lambda>i. \<lparr>loc_id = clean_fl (ids ! i), loc_lat = clean_fl (lat ! i),
                                       loc_lon = clean_fl (lon ! i), loc_elev = clean_fl (elev ! i)\<rparr>) [0..<length lat],
             ni_thresholds = map clean_fl ths, ni_quantiles = map clean_fl qs,
             ni_variable = (name, units_label (map_of (nc_attrs f) ''Units''))\<rparr>)"
  unfolding netcdf_load_def netcdf_accessors read_locations_def
  by (auto simp: rbind_Inr clean1_Inr nc_locations_Inr netcdf_variable_Inr)

theorem netcdf_load_Inr_witness:
  "\<exists>ni. netcdf_load netcdf_example = Inr ni \<and> length (ni_locations ni) = 2"
  by (simp add: netcdf_load_Inr netcdf_example_def)

text \<open>
  C26: \<open>NetcdfCf.__init__\<close> never reads the data variables: storing
  any value under \<open>obs\<close>, \<open>fcst\<close>, \<open>ens\<close>, \<open>cdf\<close> or \<open>x\<close>,
  of any rank and extent, leaves the result of the load unchanged, so a file
  whose arrays disagree with its coordinates loads as one whose arrays agree.
\<close>

theorem netcdf_load_ignores_data:
  assumes "v \<in> {''obs'', ''fcst'', ''ens'', ''cdf'', ''x''}"
  shows "netcdf_load (f\<lparr>nc_vars := (v, x) # nc_vars f\<rparr>) = netcdf_load f"
  using assms
  unfolding netcdf_load_def netcdf_accessors read_locations_def clean1_def nc_variable_def netcdf_variable_def
    nc_getattr_def
  by auto

theorem netcdf_load_ignores_data_witness:
  "''obs'' \<in> {''obs'', ''fcst'', ''ens'', ''cdf'', ''x''} \<and>
   netcdf_load (netcdf_example\<lparr>nc_vars := (''obs'', Var1 []) # nc_vars netcdf_example\<rparr>) = netcdf_load netcdf_example \<and>
   netcdf_obs (netcdf_example\<lparr>nc_vars := (''obs'', Var3 [[[Num 1], [Num 2]], [[Num 3]]]) # nc_vars netcdf_example\<rparr>) =
     Inr [[[Num 1], [Num 2]], [[Num 3]]] \<and>
   (\<exists>ni. netcdf_load netcdf_example = Inr ni \<and> length (ni_offsets ni) = 2)"
proof -
  have "''obs'' \<in> {''obs'', ''fcst'', ''ens'', ''cdf'', ''x''}" by simp
  note n = netcdf_load_ignores_data [OF this, where f = netcdf_example and x = "Var1 []"]
  moreover have "netcdf_obs (netcdf_example\<lparr>nc_vars := (''obs'', Var3 [[[Num 1], [Num 2]], [[Num 3]]]) # nc_vars netcdf_example\<rparr>) =
     Inr [[[Num 1], [Num 2]], [[Num 3]]]"
    by (simp add: netcdf_obs_def clean3_def nc_variable_def clean_fl_def)
  moreover have "\<exists>ni. netcdf_load netcdf_example = Inr ni \<and> length (ni_offsets ni) = 2"
    by (simp add: netcdf_load_Inr netcdf_example_def)
  ultimately show ?thesis by simp
qed

end
