(* ===== verification/PyRuntime.thy ===== *)
theory PyRuntime
  imports Prelude
begin

text \<open>
  The Python 2 builtins that \<open>src/verif/input.py\<close> calls on strings:
  \<open>str.split()\<close>, \<open>str.strip()\<close>, \<open>' '.join\<close>, \<open>str.replace\<close> and \<open>float()\<close>.
  They are not code of the repository, so they are not in the map; they are
  written after the language's documentation, on the part of their behaviour
  the loader can reach.  \<open>float()\<close> is modelled on decimal literals (sign,
  digits, a decimal point, an exponent) and on \<open>nan\<close>; the spellings
  \<open>inf\<close> and \<open>infinity\<close> are outside the model and read as non-numeric.
\<close>

section \<open>Whitespace and \<open>str.split()\<close>\<close>

text \<open>Python 2's whitespace for \<open>str\<close>: tab, newline, vertical tab, form feed, carriage return, space.\<close>

definition is_ws :: "char \<Rightarrow> bool" where
  "is_ws c \<longleftrightarrow> of_char c \<in> {9, 10, 11, 12, 13, 32::nat}"

text \<open>\<open>s.split()\<close>: the maximal runs of non-whitespace characters, in order.\<close>

fun split_ws :: "string \<Rightarrow> string \<Rightarrow> string list" where
  "split_ws acc [] = (if acc = [] then [] else [rev acc])"
| "split_ws acc (c # cs) =
     (if is_ws c then (if acc = [] then split_ws [] cs else rev acc # split_ws [] cs)
      else split_ws (c # acc) cs)"

definition py_split :: "string \<Rightarrow> string list" where
  "py_split s = split_ws [] s"

text \<open>\<open>s.strip()\<close>: whitespace removed at both ends.\<close>

definition py_strip :: "string \<Rightarrow> string" where
  "py_strip s = rev (dropWhile is_ws (rev (dropWhile is_ws s)))"

text \<open>\<open>sep.join(ws)\<close>.\<close>

fun py_join :: "string \<Rightarrow> string list \<Rightarrow> string" where
  "py_join sep [] = []"
| "py_join sep [w] = w"
| "py_join sep (w # ws) = w @ sep @ py_join sep ws"

section \<open>\<open>str.replace\<close>\<close>

text \<open>
  \<open>s.replace(old, new)\<close> scans left to right and replaces non-overlapping
  occurrences.  Every call in the loader has a non-empty \<open>old\<close>; for an empty
  \<open>old\<close> (where Python inserts \<open>new\<close> between all characters) the model
  leaves the string unchanged.
\<close>

function py_replace :: "string \<Rightarrow> string \<Rightarrow> string \<Rightarrow> string" where
  "py_replace old new [] = []"
| "py_replace old new (c # cs) =
     (if old \<noteq> [] \<and> take (length old) (c # cs) = old
      then new @ py_replace old new (drop (length old) (c # cs))
      else c # py_replace old new cs)"
  by pat_completeness auto
termination
  by (relation "measure (\<lambda>(old, new, s). length s)") auto

section \<open>\<open>float()\<close>\<close>

definition is_digit :: "char \<Rightarrow> bool" where
  "is_digit c \<longleftrightarrow> (48::nat) \<le> of_char c \<and> of_char c \<le> (57::nat)"

definition digit_val :: "char \<Rightarrow> nat" where
  "digit_val c = of_char c - 48"

text \<open>The value of a string of decimal digits.\<close>

definition digits_nat :: "string \<Rightarrow> nat" where
  "digits_nat ds = foldl (\<lambda>n c. 10 * n + digit_val c) 0 ds"

text \<open>The optionally signed digit string after an exponent letter.\<close>

definition parse_exp :: "string \<Rightarrow> int option" where
  "parse_exp t =
     (let (neg, ds) = (case t of
                         c # u \<Rightarrow> if c = CHR ''-'' then (True, u)
                                  else if c = CHR ''+'' then (False, u) else (False, t)
                       | [] \<Rightarrow> (False, []))
      in if ds \<noteq> [] \<and> list_all is_digit ds
         then Some ((if neg then -1 else 1) * int (digits_nat ds)) else None)"

definition scale10 :: "rat \<Rightarrow> int \<Rightarrow> rat" where
  "scale10 m k = (if 0 \<le> k then m * 10 ^ nat k else m / 10 ^ nat (- k))"

text \<open>
  An unsigned decimal literal: digits, optionally a point and more digits (at
  least one digit in all), optionally an exponent.
\<close>

definition parse_unsigned :: "string \<Rightarrow> rat option" where
  "parse_unsigned s =
     (let ip = takeWhile is_digit s; r1 = dropWhile is_digit s;
          (fp, r2) = (case r1 of
                        c # t \<Rightarrow> if c = CHR ''.'' then (takeWhile is_digit t, dropWhile is_digit t)
                                 else ([], r1)
                      | [] \<Rightarrow> ([], []))
      in if ip = [] \<and> fp = [] then None
         else (let m = of_nat (digits_nat (ip @ fp)) / 10 ^ length fp
               in case r2 of
                    [] \<Rightarrow> Some m
                  | e # t \<Rightarrow> if e = CHR ''e'' \<or> e = CHR ''E''
                             then map_option (scale10 m) (parse_exp t) else None))"

definition is_nan_word :: "string \<Rightarrow> bool" where
  "is_nan_word u \<longleftrightarrow>
     list_all2 (\<lambda>c p. c = fst p \<or> c = snd p) u
       [(CHR ''n'', CHR ''N''), (CHR ''a'', CHR ''A''), (CHR ''n'', CHR ''N'')]"

text \<open>\<open>float(s)\<close>: \<open>None\<close> is the \<open>ValueError\<close> Python raises.\<close>

definition parse_float :: "string \<Rightarrow> fl option" where
  "parse_float s =
     (let t = py_strip s;
          (neg, u) = (case t of
                        c # v \<Rightarrow> if c = CHR ''-'' then (True, v)
                                 else if c = CHR ''+'' then (False, v) else (False, t)
                      | [] \<Rightarrow> (False, []))
      in if is_nan_word u then Some NaN
         else map_option (\<lambda>r. Num (if neg then - r else r)) (parse_unsigned u))"

text \<open>\<open>verif.util.is_number\<close> (outside \<open>src/\<close>): whether \<open>float()\<close> succeeds.\<close>

definition is_number :: "string \<Rightarrow> bool" where
  "is_number s \<longleftrightarrow> parse_float s \<noteq> None"

section \<open>Properties\<close>

lemma split_ws_nonempty: "w \<in> set (split_ws acc s) \<Longrightarrow> w \<noteq> []"
  by (induction acc s rule: split_ws.induct) (auto split: if_splits)

lemma py_split_nonempty: "w \<in> set (py_split s) \<Longrightarrow> w \<noteq> []"
  by (simp add: py_split_def split_ws_nonempty)

lemma split_ws_no_ws:
  "\<forall>c \<in> set acc. \<not> is_ws c \<Longrightarrow> w \<in> set (split_ws acc s) \<Longrightarrow> c \<in> set w \<Longrightarrow> \<not> is_ws c"
  by (induction acc s rule: split_ws.induct) (auto split: if_splits)

lemma py_replace_absent:
  "\<not> (\<exists>i. take (length old) (drop i s) = old) \<Longrightarrow> py_replace old new s = s"
proof (induction old new s rule: py_replace.induct)
  case (1 old new)
  then show ?case by simp
next
  case (2 old new c cs)
  have "\<not> (\<exists>i. take (length old) (drop i cs) = old)"
    using "2.prems" by (metis drop_Suc_Cons)
  moreover have "take (length old) (c # cs) \<noteq> old"
    using "2.prems" by (metis drop0)
  ultimately show ?case using "2.IH"(2) by simp
qed

lemmas parse_defs [res_simps] = parse_float_def parse_unsigned_def parse_exp_def is_nan_word_def
  digits_nat_def digit_val_def is_digit_def py_strip_def is_ws_def scale10_def

end

