(* ===== verification/Codec.thy ===== *)
theory Codec
  imports PyRuntime
begin

text \<open>
  The naming codec of the legacy \<open>Comps\<close> format (\<open>src/verif/input.py\<close>,
  lines 200--251): a threshold \<open>t\<close> is stored in a variable named \<open>p\<close>
  followed by an encoding of \<open>t\<close>, a quantile \<open>q\<close> in one named \<open>q\<close>
  followed by an encoding of the percentage \<open>100 q\<close>.  The encoders use
  Python's \<open>"%d"\<close> and \<open>"%g"\<close> formatting, modelled here on exact
  rationals: \<open>"%g"\<close> rounds to six significant digits (half to even), picks
  fixed or exponent notation by the decimal exponent and strips trailing
  zeros, as CPython does.  Python formats the binary double nearest to a
  literal, which differs from the rational only when the seventh significant
  digit is an exact tie.

  The properties: integer thresholds and whole-percentage quantiles
  round-trip; negative fractions above -1 do not, nor do non-integer
  thresholds of magnitude at least 1, which \<open>"%d"\<close> truncates; the
  decoding guard admits every name of two characters, so the numbers 10 to
  100 decode both as thresholds and as quantiles.
\<close>

section \<open>Decimal strings of integers\<close>

definition digit_char :: "nat \<Rightarrow> char" where
  "digit_char d = ''0123456789'' ! d"

text \<open>\<open>str(n)\<close> of a non-negative integer.\<close>

fun nat_str :: "nat \<Rightarrow> string" where
  "nat_str n = (if n < 10 then [digit_char n] else nat_str (n div 10) @ [digit_char (n mod 10)])"

definition int_str :: "int \<Rightarrow> string" where
  "int_str i = (if i < 0 then CHR ''-'' # nat_str (nat (- i)) else nat_str (nat i))"

text \<open>The decimal exponent of a natural number: \<open>10 ^ ilog10 n \<le> n < 10 ^ (ilog10 n + 1)\<close> for \<open>n > 0\<close>.\<close>

fun ilog10 :: "nat \<Rightarrow> nat" where
  "ilog10 n = (if n < 10 then 0 else Suc (ilog10 (n div 10)))"

section \<open>\<open>"%d" % x\<close> and \<open>"%g" % x\<close>\<close>

text \<open>\<open>"%d" % x\<close> truncates a float towards zero; NaN raises \<open>ValueError\<close>.\<close>

definition trunc_rat :: "rat \<Rightarrow> int" where
  "trunc_rat r = (if 0 \<le> r then \<lfloor>r\<rfloor> else - \<lfloor>- r\<rfloor>)"

definition fmt_d :: "fl \<Rightarrow> string res" where
  "fmt_d x = (case x of NaN \<Rightarrow> Inl (ValueError ''cannot convert float NaN to integer'')
                      | Num r \<Rightarrow> Inr (int_str (trunc_rat r)))"

text \<open>
  \<open>\<lfloor>log10 x\<rfloor>\<close> of a positive rational: \<open>ilog10 \<lfloor>x\<rfloor>\<close> from 1 on;
  below 1 it is \<open>-(ilog10 \<lfloor>1 / x\<rfloor>) - 1\<close>, or one more when \<open>x\<close> is a
  power of ten.
\<close>

definition dec_exp :: "rat \<Rightarrow> int" where
  "dec_exp x =
     (if 1 \<le> x then int (ilog10 (nat \<lfloor>x\<rfloor>))
      else (let c = - int (ilog10 (nat \<lfloor>1 / x\<rfloor>)) - 1
            in if scale10 1 (c + 1) \<le> x then c + 1 else c))"

text \<open>Rounding to the nearest integer, ties to even.\<close>

definition round_he :: "rat \<Rightarrow> int" where
  "round_he r = (let f = \<lfloor>r\<rfloor>; d = r - of_int f
                 in if d < 1 / 2 then f else if 1 / 2 < d then f + 1 else if even f then f else f + 1)"

definition strip_zeros :: "string \<Rightarrow> string" where
  "strip_zeros s = rev (dropWhile (\<lambda>c. c = CHR ''0'') (rev s))"

text \<open>The six significant digits of a positive rational and its decimal exponent, after rounding.\<close>

definition sig6 :: "rat \<Rightarrow> nat \<times> int" where
  "sig6 x = (let e = dec_exp x; m = round_he (scale10 x (5 - e))
             in if m = 10 ^ 6 then (10 ^ 5, e + 1) else (nat m, e))"

text \<open>Fixed notation of the digits \<open>ds\<close> of \<open>d.ddddd \<times> 10 ^ X\<close>, trailing zeros removed.\<close>

definition fmt_fixed :: "string \<Rightarrow> int \<Rightarrow> string" where
  "fmt_fixed ds X =
     (let (ip, fp) = (if 0 \<le> X then (take (nat X + 1) ds, drop (nat X + 1) ds)
                      else (''0'', replicate (nat (- X - 1)) (CHR ''0'') @ ds));
          fp' = strip_zeros fp
      in ip @ (if fp' = [] then [] else CHR ''.'' # fp'))"

text \<open>Exponent notation: \<open>d[.ddddd]e\<plusminus>XX\<close>, at least two exponent digits.\<close>

definition fmt_exp :: "string \<Rightarrow> int \<Rightarrow> string" where
  "fmt_exp ds X =
     (let f = strip_zeros (drop 1 ds); ex = nat_str (nat \<bar>X\<bar>)
      in take 1 ds @ (if f = [] then [] else CHR ''.'' # f) @ ''e'' @ (if X < 0 then ''-'' else ''+'')
         @ (if length ex < 2 then CHR ''0'' # ex else ex))"

definition fmt_g_pos :: "rat \<Rightarrow> string" where
  "fmt_g_pos x = (let (m, X) = sig6 x; ds = nat_str m
                  in if - 4 \<le> X \<and> X < 6 then fmt_fixed ds X else fmt_exp ds X)"

text \<open>\<open>"%g" % x\<close>.\<close>

definition fmt_g :: "fl \<Rightarrow> string" where
  "fmt_g x = (case x of NaN \<Rightarrow> ''nan''
                      | Num r \<Rightarrow> if r = 0 then ''0''
                                 else (if r < 0 then ''-'' else []) @ fmt_g_pos \<bar>r\<bar>)"

section \<open>The codec\<close>

text \<open>
  \<open>len(name) >= 2 or name[0] == c\<close>: Python evaluates \<open>name[0]\<close> only when
  the name is shorter than two characters, and raises on the empty name.
\<close>

definition name_guard :: "char \<Rightarrow> string \<Rightarrow> bool res" where
  "name_guard c name = (if 2 \<le> length name then Inr True
                        else case name of [] \<Rightarrow> Inl IndexError | d # _ \<Rightarrow> Inr (d = c))"

text \<open>
  Lines 201--211, \<open>_comps_to_verif_threshold\<close>.  The assertion of line 208
  compares a string with \<open>"."\<close>, so \<open>np.where\<close> of a scalar \<open>False\<close>
  gives a tuple of length one and the assertion always holds; it is omitted.
\<close>

definition comps_to_verif_threshold :: "string \<Rightarrow> fl option res" where
  "comps_to_verif_threshold name =
     (case name_guard (CHR ''p'') name of
        Inl e \<Rightarrow> Inl e
      | Inr False \<Rightarrow> Inr None
      | Inr True \<Rightarrow>
          (let v = py_replace ''p'' [] (py_replace ''p0'' ''0.'' (py_replace ''m'' ''-'' name))
           in Inr (if is_number v then parse_float v else None)))"

text \<open>Lines 214--224, \<open>_comps_to_verif_quantile\<close>: the number is a percentage.\<close>

definition comps_to_verif_quantile :: "string \<Rightarrow> fl option res" where
  "comps_to_verif_quantile name =
     (case name_guard (CHR ''q'') name of
        Inl e \<Rightarrow> Inl e
      | Inr False \<Rightarrow> Inr None
      | Inr True \<Rightarrow>
          (let v = py_replace ''q'' [] (py_replace ''q0'' ''0.'' name)
           in Inr (case parse_float v of
                     None \<Rightarrow> None
                   | Some f \<Rightarrow> (case f of NaN \<Rightarrow> None
                                | Num r \<Rightarrow> if 0 \<le> r / 100 \<and> r / 100 \<le> 1 then Some (Num (r / 100)) else None))))"

text \<open>Lines 227--238, \<open>_verif_to_comps_threshold\<close>.\<close>

definition verif_to_comps_threshold :: "fl \<Rightarrow> string res" where
  "verif_to_comps_threshold t =
     (case (if fl_eq t (Num 0) then Inr ''0''
            else if fl_gt (Num 1) (fl_abs t) then Inr (py_replace ''.'' [] (fmt_g t))
            else fmt_d t) of
        Inl e \<Rightarrow> Inl e
      | Inr v \<Rightarrow> Inr (CHR ''p'' # py_replace ''-'' ''m'' v))"

text \<open>Lines 241--251, \<open>_verif_to_comps_quantile\<close>; \<open>None\<close> outside [0, 1].\<close>

definition verif_to_comps_quantile :: "fl \<Rightarrow> string option" where
  "verif_to_comps_quantile q =
     (if fl_gt (Num 0) q \<or> fl_gt q (Num 1) then None
      else Some (CHR ''q'' # (if fl_eq q (Num 0) then ''0''
                              else py_replace ''.'' [] (fmt_g (fl_mul q (Num 100))))))"

section \<open>Properties\<close>

declare ilog10.simps [simp del] nat_str.simps [simp del]

lemma ilog10_small [simp]: "n < 10 \<Longrightarrow> ilog10 n = 0"
  by (simp add: ilog10.simps)

lemma ilog10_big [simp]: "\<not> n < 10 \<Longrightarrow> ilog10 n = Suc (ilog10 (n div 10))"
  by (simp add: ilog10.simps)

lemma nat_str_small [simp]: "n < 10 \<Longrightarrow> nat_str n = [digit_char n]"
  by (simp add: nat_str.simps)

lemma nat_str_big [simp]: "\<not> n < 10 \<Longrightarrow> nat_str n = nat_str (n div 10) @ [digit_char (n mod 10)]"
  by (simp add: nat_str.simps)

lemma ilog10_bounds: "0 < n \<Longrightarrow> 10 ^ ilog10 n \<le> n \<and> n < 10 ^ Suc (ilog10 n)"
proof (induction n rule: ilog10.induct)
  case (1 n)
  show ?case
  proof (cases "n < 10")
    case True
    with "1.prems" show ?thesis by simp
  next
    case False
    then have "0 < n div 10" by simp
    with "1.IH" False have "10 ^ ilog10 (n div 10) \<le> n div 10 \<and> n div 10 < 10 ^ Suc (ilog10 (n div 10))"
      by blast
    with False show ?thesis by (auto simp: less_eq_div_iff_mult_less_eq div_less_iff_less_mult mult.commute)
  qed
qed

lemma ilog10_unique: "10 ^ k \<le> n \<Longrightarrow> n < 10 ^ Suc k \<Longrightarrow> ilog10 n = k"
proof (induction n arbitrary: k rule: ilog10.induct)
  case (1 n)
  show ?case
  proof (cases "n < 10")
    case True
    with "1.prems" have "10 ^ k < (10::nat) ^ 1" by simp
    then have "k = 0" by (cases k) auto
    with True show ?thesis by simp
  next
    case False
    with "1.prems" obtain j where k: "k = Suc j" by (cases k) auto
    with "1.prems" have "10 ^ j \<le> n div 10" "n div 10 < 10 ^ Suc j"
      by (auto simp: less_eq_div_iff_mult_less_eq div_less_iff_less_mult mult.commute)
    with "1.IH" False k show ?thesis by simp
  qed
qed

lemma digit_char_digit: "d < 10 \<Longrightarrow> is_digit (digit_char d) \<and> digit_val (digit_char d) = d"
proof -
  assume "d < 10"
  then have "d = 0 \<or> d = 1 \<or> d = 2 \<or> d = 3 \<or> d = 4 \<or> d = 5 \<or> d = 6 \<or> d = 7 \<or> d = 8 \<or> d = 9"
    by presburger
  then show ?thesis
    by (elim disjE) (simp_all add: digit_char_def is_digit_def digit_val_def)
qed

lemma nat_str_digits: "c \<in> set (nat_str n) \<Longrightarrow> is_digit c"
proof (induction n rule: nat_str.induct)
  case (1 n)
  then show ?case by (cases "n < 10") (auto simp: digit_char_digit)
qed

lemma nat_str_ne [simp]: "nat_str n \<noteq> []"
  by (cases "n < 10") simp_all

lemma digits_nat_snoc: "digits_nat (xs @ [c]) = 10 * digits_nat xs + digit_val c"
  by (simp add: digits_nat_def)

lemma digits_nat_nat_str [simp]: "digits_nat (nat_str n) = n"
proof (induction n rule: nat_str.induct)
  case (1 n)
  then show ?case by (cases "n < 10") (simp_all add: digits_nat_snoc digit_char_digit, simp add: digits_nat_def digit_char_digit)
qed

lemma length_nat_str: "length (nat_str n) = Suc (ilog10 n)"
proof (induction n rule: nat_str.induct)
  case (1 n)
  then show ?case by (cases "n < 10") simp_all
qed

lemma nat_str_hd: "0 < n \<Longrightarrow> hd (nat_str n) \<noteq> CHR ''0''"
proof (induction n rule: nat_str.induct)
  case (1 n)
  show ?case
  proof (cases "n < 10")
    case True
    from digit_char_digit [OF True] have "digit_val (digit_char n) = n" by simp
    with True "1.prems" show ?thesis by (auto simp: digit_val_def)
  next
    case False
    with "1.IH" show ?thesis by simp
  qed
qed

lemma digit_char_0 [simp]: "digit_char 0 = CHR ''0''"
  by (simp add: digit_char_def)

lemma nat_str_times10: "0 < m \<Longrightarrow> nat_str (m * 10) = nat_str m @ ''0''"
  by simp

lemma nat_str_pow10: "0 < n \<Longrightarrow> nat_str (n * 10 ^ j) = nat_str n @ replicate j (CHR ''0'')"
proof (induction j)
  case 0
  then show ?case by simp
next
  case (Suc j)
  have "nat_str (n * 10 ^ Suc j) = nat_str (n * 10 ^ j * 10)" by (simp add: ac_simps)
  also have "\<dots> = nat_str (n * 10 ^ j) @ ''0''" using Suc.prems by (simp add: nat_str_times10)
  finally show ?case using Suc by (simp add: replicate_append_same [symmetric])
qed

lemma py_replace_char: "py_replace [c] new s = concat (map (\<lambda>x. if x = c then new else [x]) s)"
  by (induction s) auto

lemma digit_not_ws: "is_digit c \<Longrightarrow> \<not> is_ws c"
  by (auto simp: is_digit_def is_ws_def)

lemma dropWhile_none: "\<forall>c \<in> set s. \<not> P c \<Longrightarrow> dropWhile P s = s"
  by (induction s) auto

lemma py_strip_id: "\<forall>c \<in> set s. \<not> is_ws c \<Longrightarrow> py_strip s = s"
  by (simp add: py_strip_def dropWhile_none)

lemma parse_unsigned_digits:
  assumes "ds \<noteq> []" and d: "\<forall>c \<in> set ds. is_digit c"
  shows "parse_unsigned ds = Some (of_nat (digits_nat ds))"
proof -
  from d have tw: "takeWhile is_digit ds = ds" and dw: "dropWhile is_digit ds = []"
    by (simp_all add: takeWhile_eq_all_conv)
  show ?thesis unfolding parse_unsigned_def tw dw using assms(1) by simp
qed

lemma parse_float_nat_str: "parse_float (nat_str n) = Some (Num (of_nat n))"
proof -
  obtain c cs where cs: "nat_str n = c # cs" by (cases "nat_str n") auto
  have d: "is_digit c" using nat_str_digits [of c n] cs by simp
  then have "c \<noteq> CHR ''-'' \<and> c \<noteq> CHR ''+'' \<and> c \<noteq> CHR ''n'' \<and> c \<noteq> CHR ''N''"
    by (auto simp: is_digit_def)
  moreover have "py_strip (nat_str n) = nat_str n"
    using nat_str_digits digit_not_ws by (blast intro: py_strip_id)
  moreover have "parse_unsigned (nat_str n) = Some (of_nat n)"
    using nat_str_digits by (simp add: parse_unsigned_digits)
  ultimately show ?thesis by (simp add: parse_float_def cs is_nan_word_def)
qed

lemma int_str_chars: "c \<in> set (int_str i) \<Longrightarrow> is_digit c \<or> c = CHR ''-''"
  by (auto simp: int_str_def nat_str_digits split: if_splits)

lemma parse_float_neg_digits:
  assumes "ds \<noteq> []" and d: "\<forall>c \<in> set ds. is_digit c"
  shows "parse_float (CHR ''-'' # ds) = Some (Num (- of_nat (digits_nat ds)))"
proof -
  obtain c cs where cs: "ds = c # cs" using assms(1) by (cases ds) auto
  have "is_digit c" using d cs by simp
  then have c: "c \<noteq> CHR ''n'' \<and> c \<noteq> CHR ''N''" by (auto simp: is_digit_def)
  have strip: "py_strip (CHR ''-'' # ds) = CHR ''-'' # ds"
    using d digit_not_ws by (intro py_strip_id) (auto simp: is_ws_def)
  have pu: "parse_unsigned ds = Some (of_nat (digits_nat ds))"
    using assms by (rule parse_unsigned_digits)
  show ?thesis
    unfolding parse_float_def Let_def strip by (simp add: pu [unfolded cs] cs c is_nan_word_def)
qed

lemma parse_float_int_str: "parse_float (int_str i) = Some (Num (of_int i))"
proof (cases "i < 0")
  case True
  have "parse_float (CHR ''-'' # nat_str (nat (- i))) = Some (Num (- of_nat (nat (- i))))"
    using parse_float_neg_digits [of "nat_str (nat (- i))"] nat_str_digits by simp
  with True show ?thesis by (simp add: int_str_def)
next
  case False
  then show ?thesis using parse_float_nat_str [of "nat i"] by (simp add: int_str_def)
qed

lemma trunc_rat_of_int [simp]: "trunc_rat (of_int i) = i"
proof -
  have "\<lfloor>- (of_int i :: rat)\<rfloor> = - i" by (metis floor_of_int of_int_minus)
  then show ?thesis unfolding trunc_rat_def by (simp only: floor_of_int if_cancel minus_minus)
qed

text \<open>Replacing a two-character pattern \<open>c d\<close> in a string that starts with \<open>c\<close> and has no other \<open>c\<close>.\<close>

lemma py_replace_lead:
  assumes "c \<notin> set s" and "take 1 s \<noteq> [d]"
  shows "py_replace [c, d] new (c # s) = c # s"
proof -
  have "\<not> (\<exists>i. take (length [c, d]) (drop i s) = [c, d])"
  proof
    assume "\<exists>i. take (length [c, d]) (drop i s) = [c, d]"
    then obtain i where i: "take (length [c, d]) (drop i s) = [c, d]" by blast
    then have "c \<in> set (take (length [c, d]) (drop i s))" by simp
    then have "c \<in> set (drop i s)" by (meson in_set_takeD)
    with assms(1) show False by (meson in_set_dropD)
  qed
  then have "py_replace [c, d] new s = s" by (rule py_replace_absent)
  moreover have "take 2 (c # s) \<noteq> [c, d]" using assms(2) by (cases s) auto
  ultimately show ?thesis by simp
qed

lemma concat_map_absent: "c \<notin> set s \<Longrightarrow> concat (map (\<lambda>x. if x = c then new else [x]) s) = s"
  by (induction s) auto

lemma py_replace_char_absent: "c \<notin> set s \<Longrightarrow> py_replace [c] new s = s"
  by (simp add: py_replace_char concat_map_absent)

lemma py_replace_drop_lead: "c \<notin> set s \<Longrightarrow> py_replace [c] [] (c # s) = s"
  by (simp add: py_replace_char concat_map_absent)

lemma concat_map_single: "concat (map (\<lambda>x. if x = c then [d] else [x]) s) = map (\<lambda>x. if x = c then d else x) s"
  by (induction s) auto

lemma map_replace_absent: "c \<notin> set s \<Longrightarrow> map (\<lambda>x. if x = c then d else x) s = s"
  by (induction s) auto

lemma py_replace_map: "py_replace [c] [d] s = map (\<lambda>x. if x = c then d else x) s"
  by (simp only: py_replace_char concat_map_single)

lemma int_str_hd: "i \<noteq> 0 \<Longrightarrow> take 1 (int_str i) \<noteq> ''0''"
proof (cases "i < 0")
  case False
  moreover assume "i \<noteq> 0"
  ultimately have "0 < nat i" by simp
  from nat_str_hd [OF this] show ?thesis using False
    by (cases "nat_str (nat i)") (auto simp: int_str_def)
qed (simp add: int_str_def)

lemma int_str_ne: "int_str i \<noteq> []"
  by (simp add: int_str_def)

text \<open>Encoding an integer threshold: \<open>"%d"\<close>, the sign written \<open>m\<close>, the prefix \<open>p\<close>.\<close>

lemma abs_of_int_ge1: "i \<noteq> 0 \<Longrightarrow> \<not> \<bar>of_int i :: rat\<bar> < 1"
proof -
  assume "i \<noteq> 0"
  then have "1 \<le> \<bar>i\<bar>" by simp
  then have "(1 :: rat) \<le> of_int \<bar>i\<bar>" by (metis of_int_1 of_int_le_iff)
  then show ?thesis by simp
qed

lemma comps_to_verif_threshold_int:
  assumes "i \<noteq> 0"
  shows "comps_to_verif_threshold (CHR ''p'' # py_replace ''-'' ''m'' (int_str i)) = Inr (Some (Num (of_int i)))"
proof -
  let ?s = "int_str i"
  have chars: "CHR ''m'' \<notin> set ?s" "CHR ''p'' \<notin> set ?s"
    using int_str_chars by (fastforce simp: is_digit_def)+
  have "py_replace ''m'' ''-'' (CHR ''p'' # py_replace ''-'' ''m'' ?s) = CHR ''p'' # ?s"
    using chars(1) by (simp add: py_replace_map) (rule map_idI, auto)
  moreover have "py_replace ''p0'' ''0.'' (CHR ''p'' # ?s) = CHR ''p'' # ?s"
    using chars(2) int_str_hd [OF assms] by (intro py_replace_lead) simp_all
  moreover have "py_replace ''p'' [] (CHR ''p'' # ?s) = ?s"
    using chars(2) by (rule py_replace_drop_lead)
  moreover have "2 \<le> length (CHR ''p'' # py_replace ''-'' ''m'' ?s)"
    using int_str_ne by (cases ?s) (simp_all add: py_replace_map)
  ultimately show ?thesis
    by (simp add: comps_to_verif_threshold_def name_guard_def is_number_def parse_float_int_str)
qed

text \<open>
  C16: Every integer threshold round-trips through the legacy naming: its
  name (\<open>p\<close>, the \<open>"%d"\<close> digits with \<open>m\<close> for the sign, \<open>p0\<close> for zero) decodes
  to the same threshold, so \<open>threshold_scores\<close> finds the variable it was
  discovered from.
\<close>

theorem threshold_int_roundtrip:
  "\<exists>name. verif_to_comps_threshold (Num (of_int i)) = Inr name \<and>
          comps_to_verif_threshold name = Inr (Some (Num (of_int i)))"
proof (cases "i = 0")
  case True
  then show ?thesis
    by (simp add: verif_to_comps_threshold_def comps_to_verif_threshold_def name_guard_def
                  is_number_def parse_defs)
next
  case False
  have "verif_to_comps_threshold (Num (of_int i)) = Inr (CHR ''p'' # py_replace ''-'' ''m'' (int_str i))"
    using abs_of_int_ge1 [of i] False by (simp add: verif_to_comps_threshold_def fmt_d_def)
  then show ?thesis using comps_to_verif_threshold_int [OF False] by blast
qed

lemma round_he_of_int [simp]: "round_he (of_int k) = k"
  by (simp add: round_he_def)

lemma strip_zeros_replicate [simp]: "strip_zeros (replicate k (CHR ''0'')) = []"
  by (simp add: strip_zeros_def)

lemma nat_str_take1: "0 < n \<Longrightarrow> take 1 (nat_str n) \<noteq> ''0''"
  using nat_str_hd [of n] by (cases "nat_str n") auto

lemma dec_exp_nat: "0 < n \<Longrightarrow> dec_exp (of_nat n) = int (ilog10 n)"
  by (simp add: dec_exp_def)

text \<open>\<open>"%g"\<close> of a whole number below \<open>10 ^ 6\<close> prints its digits.\<close>

lemma fmt_g_nat:
  assumes "0 < n" and "n < 10 ^ 6"
  shows "fmt_g (Num (of_nat n)) = nat_str n"
proof -
  let ?e = "ilog10 n"
  from ilog10_bounds [OF assms(1)] have lo: "10 ^ ?e \<le> n" and hi: "n < 10 ^ Suc ?e" by auto
  from lo assms(2) have "(10::nat) ^ ?e < 10 ^ 6" by linarith
  then have e6: "?e < 6" by (subst (asm) power_strict_increasing_iff) simp_all
  have sc: "scale10 (of_nat n) (5 - int ?e) = of_int (int (n * 10 ^ (5 - ?e)))"
    using e6 by (simp add: scale10_def nat_diff_distrib)
  have "n * 10 ^ (5 - ?e) < 10 ^ Suc ?e * 10 ^ (5 - ?e)"
    using hi by simp
  also have "\<dots> = 10 ^ 6" using e6 by (simp add: power_add [symmetric])
  finally have "int (n * 10 ^ (5 - ?e)) < int (10 ^ 6)" by (simp only: of_nat_less_iff)
  then have m6: "int (n * 10 ^ (5 - ?e)) \<noteq> 10 ^ 6" by simp
  have rd: "round_he (scale10 (of_nat n) (5 - int ?e)) = int (n * 10 ^ (5 - ?e))"
    by (simp only: sc round_he_of_int)
  have sig: "sig6 (of_nat n) = (n * 10 ^ (5 - ?e), int ?e)"
    using m6 unfolding sig6_def Let_def dec_exp_nat [OF assms(1)] rd by (simp only: if_False nat_int)
  have ds: "nat_str (n * 10 ^ (5 - ?e)) = nat_str n @ replicate (5 - ?e) (CHR ''0'')"
    using assms(1) by (rule nat_str_pow10)
  have len: "nat (int ?e) + 1 = length (nat_str n)" by (simp add: length_nat_str)
  have "fmt_fixed (nat_str n @ replicate (5 - ?e) (CHR ''0'')) (int ?e) = nat_str n"
    unfolding fmt_fixed_def Let_def using len by simp
  then have "fmt_g_pos (of_nat n) = nat_str n"
    using e6 by (simp add: fmt_g_pos_def sig ds)
  with assms(1) show ?thesis by (simp add: fmt_g_def)
qed

lemma nat_str_no: "x \<in> {CHR ''.'', CHR ''q'', CHR ''p'', CHR ''m'', CHR ''-''} \<Longrightarrow> x \<notin> set (nat_str n)"
  using nat_str_digits by (fastforce simp: is_digit_def)

lemma comps_to_verif_quantile_percent:
  assumes "0 < n" and "n \<le> 100"
  shows "comps_to_verif_quantile (CHR ''q'' # nat_str n) = Inr (Some (Num (of_nat n / 100)))"
proof -
  have q: "CHR ''q'' \<notin> set (nat_str n)" by (simp add: nat_str_no)
  have "py_replace ''q0'' ''0.'' (CHR ''q'' # nat_str n) = CHR ''q'' # nat_str n"
    using q nat_str_take1 [OF assms(1)] by (intro py_replace_lead) simp_all
  moreover have "py_replace ''q'' [] (CHR ''q'' # nat_str n) = nat_str n"
    using q by (rule py_replace_drop_lead)
  moreover have "2 \<le> length (CHR ''q'' # nat_str n)" by (cases "nat_str n") simp_all
  ultimately show ?thesis using assms(2)
    by (simp add: comps_to_verif_quantile_def name_guard_def parse_float_nat_str)
qed

text \<open>
  C17: Every quantile that is a whole percentage (0, 0.01, ..., 1) round-trips:
  it is written \<open>q\<close> and the percentage, and that name decodes to it.
\<close>

theorem quantile_percent_roundtrip:
  assumes "n \<le> 100"
  shows "\<exists>name. verif_to_comps_quantile (Num (of_nat n / 100)) = Some name \<and>
                comps_to_verif_quantile name = Inr (Some (Num (of_nat n / 100)))"
proof (cases "n = 0")
  case True
  then show ?thesis
    by (simp add: verif_to_comps_quantile_def comps_to_verif_quantile_def name_guard_def parse_defs)
next
  case False
  then have n: "0 < n" by simp
  have "fmt_g (fl_mul (Num (of_nat n / 100)) (Num 100)) = nat_str n"
    using n assms fmt_g_nat [of n] by simp
  moreover have "py_replace ''.'' [] (nat_str n) = nat_str n"
    using nat_str_no [of "CHR ''.''"] by (simp add: py_replace_char_absent)
  moreover have "\<not> (1 :: rat) < of_nat n / 100" using assms by simp
  ultimately have "verif_to_comps_quantile (Num (of_nat n / 100)) = Some (CHR ''q'' # nat_str n)"
    using n by (simp add: verif_to_comps_quantile_def)
  then show ?thesis using comps_to_verif_quantile_percent [OF n assms] by blast
qed

theorem quantile_percent_roundtrip_witness:
  "(30::nat) \<le> 100 \<and>
   (\<exists>name. verif_to_comps_quantile (Num (of_nat 30 / 100)) = Some name \<and>
          comps_to_verif_quantile name = Inr (Some (Num (of_nat 30 / 100))))"
  using quantile_percent_roundtrip [of 30] by simp

text \<open>Between \<open>10 ^ -4\<close> and 1 the decimal exponent is between -4 and -1.\<close>

lemma dec_exp_fraction:
  assumes "1 / 10000 \<le> x" and "x < 1"
  shows "- 4 \<le> dec_exp x \<and> dec_exp x \<le> - 1"
proof -
  have x0: "0 < x" using assms(1) by linarith
  define N where "N = nat \<lfloor>1 / x\<rfloor>"
  define k where "k = ilog10 N"
  have "1 < 1 / x" using x0 assms(2) by simp
  then have fl: "1 \<le> \<lfloor>1 / x\<rfloor>" by (simp add: le_floor_iff)
  from nat_mono [OF this] have N1: "1 \<le> N" unfolding N_def by (simp only: nat_1)
  from fl have "0 \<le> \<lfloor>1 / x\<rfloor>" by linarith
  from nat_0_le [OF this] have iN: "int N = \<lfloor>1 / x\<rfloor>" by (simp only: N_def)
  have "1 / x \<le> 10000" using assms(1) x0 by (simp add: field_simps)
  then have "N \<le> 10000" unfolding N_def by (simp add: nat_le_iff floor_le_iff)
  moreover from ilog10_bounds [of N] N1 have kb: "10 ^ k \<le> N" "N < 10 ^ Suc k" by (auto simp: k_def)
  ultimately have "(10::nat) ^ k \<le> 10 ^ 4" by simp
  then have k4: "k \<le> 4" by (subst (asm) power_increasing_iff) simp_all
  have de: "dec_exp x = (if scale10 1 (- int k) \<le> x then - int k else - int k - 1)"
    using assms(2) by (simp add: dec_exp_def N_def k_def Let_def)
  show ?thesis
  proof (cases "scale10 1 (- int k) \<le> x")
    case True
    have "k \<noteq> 0"
    proof
      assume "k = 0"
      with True assms(2) show False by (simp add: scale10_def)
    qed
    with True k4 de show ?thesis by simp
  next
    case False
    have "k \<noteq> 4"
    proof
      assume "k = 4"
      with kb have "10000 \<le> N" by simp
      then have "int 10000 \<le> \<lfloor>1 / x\<rfloor>" unfolding iN [symmetric] by (simp only: of_nat_le_iff)
      then have "10000 \<le> 1 / x" by (simp add: le_floor_iff)
      then have "x \<le> 1 / 10000" using x0 by (simp add: field_simps)
      with assms(1) \<open>k = 4\<close> False show False by (simp add: scale10_def)
    qed
    with False k4 de show ?thesis by simp
  qed
qed

lemma set_strip_zeros: "set (strip_zeros s) \<subseteq> set s"
  by (auto simp: strip_zeros_def dest: set_dropWhileD)

text \<open>Fixed notation writes digits and at most a point, and starts with a digit.\<close>

lemma fmt_fixed_chars:
  assumes "ds \<noteq> []" and d: "\<forall>c \<in> set ds. is_digit c"
  shows "(\<forall>c \<in> set (fmt_fixed ds X). is_digit c \<or> c = CHR ''.'') \<and>
         (\<exists>c cs. fmt_fixed ds X = c # cs \<and> is_digit c)"
proof (cases "0 \<le> X")
  case True
  obtain c cs where cs: "ds = c # cs" using assms(1) by (cases ds) auto
  have "\<forall>c \<in> set (strip_zeros (drop (nat X + 1) ds)). is_digit c"
    using d set_strip_zeros by (fastforce dest: in_set_dropD)
  moreover have "\<forall>c \<in> set (take (nat X + 1) ds). is_digit c" using d by (auto dest: in_set_takeD)
  ultimately show ?thesis using True d
    by (auto simp: fmt_fixed_def Let_def cs)
next
  case False
  have "\<forall>c \<in> set (strip_zeros (replicate (nat (- X - 1)) (CHR ''0'') @ ds)). is_digit c"
    using d set_strip_zeros by (fastforce simp: is_digit_def)
  with False show ?thesis by (auto simp: fmt_fixed_def Let_def is_digit_def)
qed

lemma nat_str_sig6: "ds = nat_str m \<Longrightarrow> ds \<noteq> [] \<and> (\<forall>c \<in> set ds. is_digit c)"
  using nat_str_digits by auto

text \<open>A negative threshold above -1 and at least \<open>10 ^ -4\<close> in size is written \<open>pm\<close> and digits.\<close>

lemma verif_to_comps_threshold_neg_fraction:
  assumes "- 1 < r" and "r \<le> - 1 / 10000"
  shows "\<exists>D. D \<noteq> [] \<and> (\<forall>c \<in> set D. is_digit c) \<and>
             verif_to_comps_threshold (Num r) = Inr (CHR ''p'' # CHR ''m'' # D)"
proof -
  obtain m X where sig: "sig6 \<bar>r\<bar> = (m, X)" by (cases "sig6 \<bar>r\<bar>")
  have "- 4 \<le> dec_exp \<bar>r\<bar> \<and> dec_exp \<bar>r\<bar> \<le> - 1"
    using assms by (intro dec_exp_fraction) simp_all
  moreover have "X = dec_exp \<bar>r\<bar> \<or> X = dec_exp \<bar>r\<bar> + 1"
    using sig by (auto simp: sig6_def Let_def split: if_splits)
  ultimately have X: "- 4 \<le> X \<and> X < 6" by auto
  define F where "F = fmt_fixed (nat_str m) X"
  have sig': "sig6 (- r) = (m, X)" using sig assms by simp
  have g: "fmt_g (Num r) = CHR ''-'' # F"
    using assms X by (simp add: fmt_g_def fmt_g_pos_def sig' F_def)
  from fmt_fixed_chars [of "nat_str m" X] nat_str_digits
  obtain c cs where F: "F = c # cs" "is_digit c" and Fc: "\<forall>x \<in> set F. is_digit x \<or> x = CHR ''.''"
    by (auto simp: F_def)
  define D where "D = py_replace ''.'' [] F"
  have Dd: "\<forall>x \<in> set D. is_digit x"
    using Fc by (auto simp: D_def py_replace_char split: if_splits)
  have Dc: "D = c # py_replace ''.'' [] cs" using F by (auto simp: D_def py_replace_char is_digit_def)
  have "CHR ''-'' \<notin> set D" using Dd by (auto simp: is_digit_def)
  then have "py_replace ''-'' ''m'' (CHR ''-'' # D) = CHR ''m'' # D"
    by (simp add: py_replace_map map_replace_absent)
  moreover have "py_replace ''.'' [] (CHR ''-'' # F) = CHR ''-'' # D"
    by (simp add: D_def py_replace_char)
  moreover have "\<bar>r\<bar> < 1" "r \<noteq> 0" using assms by auto
  ultimately show ?thesis using Dd Dc g
    by (intro exI [of _ D]) (simp add: verif_to_comps_threshold_def)
qed

text \<open>Decoding \<open>pm\<close> and digits: the point that the encoder removed is not restored.\<close>

lemma comps_to_verif_threshold_pm_digits:
  assumes "D \<noteq> []" and d: "\<forall>c \<in> set D. is_digit c"
  shows "comps_to_verif_threshold (CHR ''p'' # CHR ''m'' # D) = Inr (Some (Num (- of_nat (digits_nat D))))"
proof -
  have nd: "CHR ''m'' \<notin> set D" "CHR ''p'' \<notin> set D" "CHR ''-'' \<notin> set D"
    using d by (auto simp: is_digit_def)
  have "py_replace ''m'' ''-'' (CHR ''p'' # CHR ''m'' # D) = CHR ''p'' # CHR ''-'' # D"
    using nd(1) by (simp add: py_replace_map map_replace_absent)
  moreover have "py_replace ''p0'' ''0.'' (CHR ''p'' # CHR ''-'' # D) = CHR ''p'' # CHR ''-'' # D"
    using nd(2) by (intro py_replace_lead) simp_all
  moreover have "py_replace ''p'' [] (CHR ''p'' # CHR ''-'' # D) = CHR ''-'' # D"
    using nd(2) by (intro py_replace_drop_lead) simp
  ultimately show ?thesis using parse_float_neg_digits [OF assms]
    by (simp add: comps_to_verif_threshold_def name_guard_def is_number_def)
qed

text \<open>
  C18: A negative threshold between -1 and \<open>-10 ^ -4\<close> does not survive the
  round trip: the encoder drops the decimal point of \<open>"%g"\<close> (\<open>-0.5\<close> becomes
  \<open>pm05\<close>), and the decoder restores a point only after \<open>p0\<close>, so the name
  decodes to an integer (\<open>-5\<close>).
\<close>

theorem threshold_negative_fraction_lost:
  assumes "- 1 < r" and "r \<le> - 1 / 10000"
  shows "\<exists>name k. verif_to_comps_threshold (Num r) = Inr name \<and>
                  comps_to_verif_threshold name = Inr (Some (Num (of_int k))) \<and> of_int k \<noteq> r"
proof -
  from verif_to_comps_threshold_neg_fraction [OF assms]
  obtain D where D: "D \<noteq> []" "\<forall>c \<in> set D. is_digit c"
    and enc: "verif_to_comps_threshold (Num r) = Inr (CHR ''p'' # CHR ''m'' # D)" by blast
  let ?k = "- int (digits_nat D)"
  have "of_int ?k \<noteq> r"
  proof (cases "digits_nat D = 0")
    case True
    with assms show ?thesis by simp
  next
    case False
    then have "(1 :: rat) \<le> of_nat (digits_nat D)" by simp
    with assms show ?thesis by simp
  qed
  with enc comps_to_verif_threshold_pm_digits [OF D] show ?thesis
    by (intro exI [of _ "CHR ''p'' # CHR ''m'' # D"] exI [of _ ?k]) simp
qed

theorem threshold_negative_fraction_lost_witness:
  "- 1 < (- 1 / 2 :: rat) \<and> (- 1 / 2 :: rat) \<le> - 1 / 10000 \<and>
   (\<exists>name k. verif_to_comps_threshold (Num (- 1 / 2)) = Inr name \<and>
             comps_to_verif_threshold name = Inr (Some (Num (of_int k))) \<and> of_int k \<noteq> (- 1 / 2 :: rat))"
  using threshold_negative_fraction_lost [of "- 1 / 2"] by simp

section \<open>Examples\<close>

lemma floor_num_div: "\<lfloor>numeral a / numeral b :: rat\<rfloor> = numeral a div numeral b"
  using floor_divide_of_int_eq [of "numeral a" "numeral b", where 'a = rat] by simp

lemma replicate_numeral_Cons: "replicate (numeral k) x = x # replicate (pred_numeral k) x"
  by (simp add: numeral_eq_Suc)

lemmas codec_eval = replicate_numeral_Cons verif_to_comps_threshold_def comps_to_verif_threshold_def verif_to_comps_quantile_def
  comps_to_verif_quantile_def name_guard_def is_number_def parse_defs fmt_d_def trunc_rat_def int_str_def
  fmt_g_def fmt_g_pos_def sig6_def dec_exp_def round_he_def fmt_fixed_def fmt_exp_def strip_zeros_def
  digit_char_def floor_num_div

lemma py_replace_head_absent: "c \<notin> set s \<Longrightarrow> py_replace (c # d) new s = s"
proof (rule py_replace_absent, rule notI)
  assume "c \<notin> set s" and "\<exists>i. take (length (c # d)) (drop i s) = c # d"
  then obtain i where "take (length (c # d)) (drop i s) = c # d" by blast
  then have "c \<in> set (take (length (c # d)) (drop i s))" by simp
  with \<open>c \<notin> set s\<close> show False by (meson in_set_takeD in_set_dropD)
qed

lemma nat_str_two_digits: "10 \<le> n \<Longrightarrow> 2 \<le> length (nat_str n)"
  by (simp add: length_nat_str)

text \<open>
  C19: Because the guard is \<open>len(name) >= 2 or name[0] == "p"\<close> (and
  likewise for \<open>q\<close>), every name of two or more characters is tried: a
  variable named by a number from 10 to 100 is discovered both as the
  threshold \<open>n\<close> and as the quantile \<open>n / 100\<close>.
\<close>

theorem number_names_both_levels:
  assumes "10 \<le> n" and "n \<le> 100"
  shows "comps_to_verif_threshold (nat_str n) = Inr (Some (Num (of_nat n))) \<and>
         comps_to_verif_quantile (nat_str n) = Inr (Some (Num (of_nat n / 100)))"
proof -
  have no: "CHR ''m'' \<notin> set (nat_str n)" "CHR ''p'' \<notin> set (nat_str n)" "CHR ''q'' \<notin> set (nat_str n)"
    by (simp_all add: nat_str_no)
  have g: "name_guard c (nat_str n) = Inr True" for c
    using nat_str_two_digits [OF assms(1)] by (simp add: name_guard_def)
  have "\<not> (1 :: rat) < of_nat n / 100" using assms(2) by simp
  with g no show ?thesis
    by (simp add: comps_to_verif_threshold_def comps_to_verif_quantile_def py_replace_char_absent
                  py_replace_head_absent is_number_def parse_float_nat_str)
qed

theorem number_names_both_levels_witness:
  "10 \<le> (50::nat) \<and> (50::nat) \<le> 100 \<and>
   comps_to_verif_threshold ''50'' = Inr (Some (Num 50)) \<and>
   comps_to_verif_quantile ''50'' = Inr (Some (Num (1 / 2)))"
proof -
  have s: "nat_str 50 = ''50''" by (simp add: digit_char_def)
  show ?thesis using number_names_both_levels [of 50] by (simp add: s)
qed

lemma trunc_rat_nonzero:
  assumes "1 \<le> \<bar>r\<bar>"
  shows "trunc_rat r \<noteq> 0"
proof (cases "0 \<le> r")
  case True
  with assms have "1 \<le> \<lfloor>r\<rfloor>" by (simp add: le_floor_iff)
  moreover have "trunc_rat r = \<lfloor>r\<rfloor>" using True by (simp add: trunc_rat_def)
  ultimately show ?thesis by linarith
next
  case False
  with assms have "1 \<le> \<lfloor>- r\<rfloor>" by (simp add: le_floor_iff)
  moreover have "trunc_rat r = - \<lfloor>- r\<rfloor>" using False by (simp add: trunc_rat_def)
  ultimately show ?thesis by linarith
qed

text \<open>
  C21: \<open>"%d"\<close> truncates: a threshold of magnitude at least 1 that is not an
  integer is written with the digits of its truncation toward zero, so the
  name decodes to that integer, not to the threshold (2.5 becomes \<open>p2\<close>,
  read back as 2).
\<close>

theorem threshold_truncated:
  assumes "1 \<le> \<bar>r\<bar>" and "r \<notin> \<int>"
  shows "\<exists>name. verif_to_comps_threshold (Num r) = Inr name \<and>
           comps_to_verif_threshold name = Inr (Some (Num (of_int (trunc_rat r)))) \<and>
           of_int (trunc_rat r) \<noteq> r"
proof -
  have k: "trunc_rat r \<noteq> 0" using trunc_rat_nonzero [OF assms(1)] .
  have "r \<noteq> 0" "\<not> \<bar>r\<bar> < 1" using assms(1) by auto
  then have "verif_to_comps_threshold (Num r) = Inr (CHR ''p'' # py_replace ''-'' ''m'' (int_str (trunc_rat r)))"
    by (simp add: verif_to_comps_threshold_def fmt_d_def)
  moreover have "of_int (trunc_rat r) \<noteq> r" using assms(2) by (metis Ints_of_int)
  ultimately show ?thesis using comps_to_verif_threshold_int [OF k] by blast
qed

theorem threshold_truncated_witness:
  "1 \<le> \<bar>5 / 2 :: rat\<bar> \<and> (5 / 2 :: rat) \<notin> \<int> \<and>
   verif_to_comps_threshold (Num (5 / 2)) = Inr ''p2'' \<and>
   comps_to_verif_threshold ''p2'' = Inr (Some (Num 2))"
proof -
  have ni: "(5 / 2 :: rat) \<notin> \<int>"
  proof
    assume "(5 / 2 :: rat) \<in> \<int>"
    then obtain k :: int where "5 / 2 = (of_int k :: rat)" by (auto elim: Ints_cases)
    then have "5 = 2 * (of_int k :: rat)" by simp
    then have "(5 :: int) = 2 * k" by (metis of_int_eq_iff of_int_mult of_int_numeral)
    then show False by presburger
  qed
  have "1 \<le> \<bar>5 / 2 :: rat\<bar>" by simp
  from threshold_truncated [OF this ni] ni show ?thesis by (simp add: codec_eval)
qed

end
