(* ===== verification/Comps.thy ===== *)
theory Comps
  imports NetCDF Codec
begin

text \<open>
  The legacy decoder \<open>Comps\<close> (\<open>src/verif/input.py\<close>, lines 77--198).  Its
  thresholds and quantiles are not stored as coordinate vectors: every
  variable whose name is not one of the six coordinate names is decoded with
  the naming codec, and the threshold and quantile score arrays are stacked,
  one stored 3-D variable per threshold or quantile, along a new last axis.
  The stacking loop assigns each variable into a slice of an array allocated
  with the shape of the first one; the assignment follows numpy's rule: an
  axis of the variable matches the slice's or has length 1 (and is then
  broadcast), otherwise numpy raises.

  The properties: the stacking loop refines the reference \<open>stack_ref\<close>,
  through the invariant \<open>partial\<close> of its iterations; discovery yields
  quantiles in [0, 1] only; \<open>is_valid\<close> is characterised.
\<close>

definition comps_dimension_names :: "string list" where
  "comps_dimension_names = [''Date'', ''Offset'', ''Location'', ''Lat'', ''Lon'', ''Elev'']"

text \<open>
  Lines 99--111, \<open>is_valid\<close>: when the file has an attribute
  \<open>Convensions\<close>, the code reads \<open>file.Convension\<close> (without the final
  \<open>s\<close>), which raises unless that attribute exists too, and the handler
  returns \<open>False\<close>; in every other case the function returns \<open>True\<close>,
  whatever the value of \<open>valid\<close>.
\<close>

definition comps_is_valid :: "ncfile option \<Rightarrow> bool" where
  "comps_is_valid fo =
     (case fo of None \<Rightarrow> False
               | Some f \<Rightarrow> (if nc_hasattr f ''Convensions''
                            then (case nc_getattr f ''Convension'' of Inl _ \<Rightarrow> False | Inr _ \<Rightarrow> True)
                            else True))"

text \<open>Lines 166--173 and 175--182: decode every non-coordinate variable name, in file order.\<close>

definition discover :: "(string \<Rightarrow> fl option res) \<Rightarrow> ncfile \<Rightarrow> fl list res" where
  "discover dec f =
     fold_res (\<lambda>(var, v) acc. if var \<notin> set comps_dimension_names
                              then rbind (dec var) (\<lambda>t. Inr (case t of None \<Rightarrow> acc | Some x \<Rightarrow> acc @ [x]))
                              else Inr acc)
       (nc_vars f) []"

definition comps_thresholds :: "ncfile \<Rightarrow> fl list res" where
  "comps_thresholds f = discover comps_to_verif_threshold f"

definition comps_quantiles :: "ncfile \<Rightarrow> fl list res" where
  "comps_quantiles f = discover comps_to_verif_quantile f"

text \<open>Lines 184--194, \<open>_get_variable\<close>.\<close>

definition comps_variable :: "ncfile \<Rightarrow> (string \<times> string) res" where
  "comps_variable f = rbind (nc_getattr f ''Variable'') (\<lambda>name. Inr (name, units_label (map_of (nc_attrs f) ''Units'')))"

record comps_input =
  ci_dates :: "fl list"
  ci_offsets :: "fl list"
  ci_thresholds :: "fl list"
  ci_quantiles :: "fl list"
  ci_locations :: "location list"
  ci_variable :: "string \<times> string"

text \<open>Lines 155--164, \<open>_get_locations\<close>: the shared location assembly on the legacy names.\<close>

definition comps_locations :: "ncfile \<Rightarrow> location list res" where
  "comps_locations f = read_locations f ''Lat'' ''Lon'' ''Location'' ''Elev''"

text \<open>Lines 86--97, \<open>Comps.__init__\<close>, in the order of its reads.\<close>

definition comps_load :: "ncfile \<Rightarrow> comps_input res" where
  "comps_load f =
     rbind (clean1 f ''Date'') (\<lambda>dates. rbind (clean1 f ''Offset'') (\<lambda>offsets.
     rbind (comps_thresholds f) (\<lambda>ths. rbind (comps_quantiles f) (\<lambda>qs.
     rbind (comps_locations f) (\<lambda>locs.
     rbind (comps_variable f) (\<lambda>var.
       Inr \<lparr>ci_dates = dates, ci_offsets = offsets, ci_thresholds = ths, ci_quantiles = qs,
            ci_locations = locs, ci_variable = var\<rparr>))))))"

text \<open>Lines 113--119: \<open>obs\<close> and \<open>deterministic\<close> read the stored arrays.\<close>

definition comps_obs :: "ncfile \<Rightarrow> arr3 res" where
  "comps_obs f = clean3 f ''obs''"

definition comps_fcst :: "ncfile \<Rightarrow> arr3 res" where
  "comps_fcst f = clean3 f ''fcst''"

section \<open>Stacking the score arrays\<close>

text \<open>\<open>np.zeros(shape + [N])\<close> for the shape of a 3-D array.\<close>

definition zeros4 :: "nat \<Rightarrow> nat \<Rightarrow> nat \<Rightarrow> nat \<Rightarrow> arr4" where
  "zeros4 n m k r = replicate n (replicate m (replicate k (replicate r (Num 0))))"

text \<open>The first three extents of an array (an empty axis hides the ones inside it).\<close>

definition dims3 :: "'a list list list \<Rightarrow> nat \<times> nat \<times> nat" where
  "dims3 a = (length a, (case a of [] \<Rightarrow> 0 | r # _ \<Rightarrow> length r),
              (case a of (c # _) # _ \<Rightarrow> length c | _ \<Rightarrow> 0))"

text \<open>One axis of numpy's broadcasting: equal lengths, or length 1 read at index 0.\<close>

definition bfits :: "nat \<Rightarrow> nat \<Rightarrow> bool" where
  "bfits have want \<longleftrightarrow> have = want \<or> have = 1"

definition bget :: "'a list \<Rightarrow> nat \<Rightarrow> 'a" where
  "bget xs i = (if length xs = 1 then xs ! 0 else xs ! i)"

text \<open>\<open>values[:, :, :, t] = temp\<close> (lines 134 and 151).\<close>

definition assign_slice :: "arr4 \<Rightarrow> nat \<Rightarrow> arr3 \<Rightarrow> arr4 res" where
  "assign_slice v t temp =
     (let (n, m, k) = dims3 v; (a, b, c) = dims3 temp
      in if bfits a n \<and> bfits b m \<and> bfits c k
         then Inr (map (\<lambda>d. map (\<lambda>h. map (\<lambda>s. (v ! d ! h ! s)[t := bget (bget (bget temp d) h) s])
                                  [0..<k]) [0..<m]) [0..<n])
         else Inl ShapeError)"

text \<open>
  One iteration of the loops of lines 127--134 and 144--151: the name of the
  level, the stored array of that name, allocation on the first iteration,
  the assignment.
\<close>

definition stack_step ::
  "(fl \<Rightarrow> string res) \<Rightarrow> ncfile \<Rightarrow> nat \<Rightarrow> nat \<times> fl \<Rightarrow> arr4 option \<Rightarrow> arr4 option res" where
  "stack_step enc f r = (\<lambda>(t, lv) values.
     rbind (enc lv) (\<lambda>name. rbind (clean3 f name) (\<lambda>temp.
       let v = (case values of None \<Rightarrow> (let (n, m, k) = dims3 temp in zeros4 n m k r) | Some v \<Rightarrow> v)
       in rbind (assign_slice v t temp) (\<lambda>v'. Inr (Some v')))))"

text \<open>The stacked scores: \<open>None\<close> (Python's \<open>None\<close>) when there is no level.\<close>

definition stack_scores :: "(fl \<Rightarrow> string res) \<Rightarrow> ncfile \<Rightarrow> fl list \<Rightarrow> arr4 option res" where
  "stack_scores enc f lvs = fold_res (stack_step enc f (length lvs)) (zip [0..<length lvs] lvs) None"

text \<open>\<open>_verif_to_comps_quantile\<close> returns \<open>None\<close> outside [0, 1]; \<open>variables[None]\<close> raises.\<close>

definition quantile_name :: "fl \<Rightarrow> string res" where
  "quantile_name q = (case verif_to_comps_quantile q of None \<Rightarrow> Inl (KeyError ''None'') | Some n \<Rightarrow> Inr n)"

text \<open>Lines 121--136 and 138--153, \<open>threshold_scores\<close> and \<open>quantile_scores\<close>.\<close>

definition comps_threshold_scores :: "ncfile \<Rightarrow> fl list \<Rightarrow> arr4 option res" where
  "comps_threshold_scores f ths = stack_scores verif_to_comps_threshold f ths"

definition comps_quantile_scores :: "ncfile \<Rightarrow> fl list \<Rightarrow> arr4 option res" where
  "comps_quantile_scores f qs = stack_scores quantile_name f qs"

text \<open>The reference: level \<open>t\<close> of cell \<open>(d, o, s)\<close> is cell \<open>(d, o, s)\<close> of the \<open>t\<close>-th array.\<close>

definition stack_ref :: "nat \<Rightarrow> nat \<Rightarrow> nat \<Rightarrow> arr3 list \<Rightarrow> arr4" where
  "stack_ref n m k as =
     map (\<lambda>d. map (\<lambda>h. map (\<lambda>s. map (\<lambda>a. a ! d ! h ! s) as) [0..<k]) [0..<m]) [0..<n]"

text \<open>The array after \<open>j\<close> levels: the first \<open>j\<close> arrays along the last axis, zeros beyond.\<close>

definition partial :: "nat \<Rightarrow> nat \<Rightarrow> nat \<Rightarrow> nat \<Rightarrow> arr3 list \<Rightarrow> nat \<Rightarrow> arr4" where
  "partial n m k r as j =
     map (\<lambda>d. map (\<lambda>h. map (\<lambda>s. map (\<lambda>t. if t < j then as ! t ! d ! h ! s else Num 0) [0..<r])
                 [0..<k]) [0..<m]) [0..<n]"

text \<open>What the theorems assume of level \<open>i\<close>: its name is found and holds a regular array.\<close>

definition level_ok :: "(fl \<Rightarrow> string res) \<Rightarrow> ncfile \<Rightarrow> fl list \<Rightarrow> arr3 list \<Rightarrow> nat \<Rightarrow> nat \<Rightarrow> nat \<Rightarrow> nat \<Rightarrow> bool" where
  "level_ok enc f lvs as n m k i \<longleftrightarrow>
     (\<exists>name. enc (lvs ! i) = Inr name \<and> clean3 f name = Inr (as ! i)) \<and> shape3 (as ! i) n m k"

definition comps_example :: ncfile where
  "comps_example =
     \<lparr>nc_attrs = [(''Variable'', ''T''), (''Units'', ''K'')],
      nc_vars = [(''Date'', Var1 [Num 20150101]), (''Offset'', Var1 [Num 0, Num 1]),
                 (''Location'', Var1 [Num 5]), (''Lat'', Var1 [Num 60]), (''Lon'', Var1 [Num 10]),
                 (''Elev'', Var1 [Num 100]),
                 (''obs'', Var3 [[[Num 1], [Num 2]]]), (''fcst'', Var3 [[[Num 3], [Num (- 999)]]]),
                 (''p10'', Var3 [[[Num (9 / 10)], [Num (8 / 10)]]]),
                 (''p03'', Var3 [[[Num (1 / 10)], [Num (2 / 10)]]]),
                 (''q50'', Var3 [[[Num 5], [Num 6]]])]\<rparr>"

section \<open>Properties\<close>

lemma dims3_shape:
  assumes "shape3 a n m k" and "0 < n" and "0 < m"
  shows "dims3 a = (n, m, k)"
proof -
  from assms have "length a = n" "length (a ! 0) = m" "length (a ! 0 ! 0) = k"
    by (auto simp: shape3_def)
  with assms(2,3) obtain c cs rs where "a = (c # cs) # rs"
    by (cases a; cases "a ! 0") auto
  with \<open>length a = n\<close> \<open>length (a ! 0) = m\<close> \<open>length (a ! 0 ! 0) = k\<close> show ?thesis
    by (simp add: dims3_def)
qed

lemma shape3_partial: "shape3 (partial n m k r as j) n m k"
  by (simp add: shape3_def partial_def)

lemma zeros4_partial: "zeros4 n m k r = partial n m k r as 0"
  by (simp add: zeros4_def partial_def map_replicate_const list_eq_iff_nth_eq)

lemma bget_in: "i < length xs \<Longrightarrow> bget xs i = xs ! i"
  by (cases "length xs = 1") (auto simp: bget_def)

lemma assign_partial:
  assumes "0 < n" "0 < m" "0 < k" "j < r" and sh: "shape3 (as ! j) n m k"
  shows "assign_slice (partial n m k r as j) j (as ! j) = Inr (partial n m k r as (Suc j))"
proof -
  have "bget (bget (bget (as ! j) d) h) s = as ! j ! d ! h ! s" if "d < n" "h < m" "s < k" for d h s
    using sh that by (simp add: shape3_def bget_in)
  then show ?thesis
    using assms dims3_shape [OF shape3_partial assms(1,2)] dims3_shape [OF sh assms(1,2)]
    by (auto simp: assign_slice_def bfits_def partial_def list_eq_iff_nth_eq nth_list_update)
qed

lemma stack_step_partial:
  assumes "0 < n" "0 < m" "0 < k" "j < r" and ok: "level_ok enc f lvs as n m k j"
  shows "stack_step enc f r (j, lvs ! j) (Some (partial n m k r as j)) = Inr (Some (partial n m k r as (Suc j)))"
proof -
  from ok obtain name where e: "enc (lvs ! j) = Inr name" and c: "clean3 f name = Inr (as ! j)"
    and sh: "shape3 (as ! j) n m k" by (auto simp: level_ok_def)
  show ?thesis using assign_partial [OF assms(1-4) sh] by (simp add: stack_step_def e c)
qed

lemma stack_step_first:
  assumes "0 < n" "0 < m" "0 < k" "0 < r" and ok: "level_ok enc f lvs as n m k 0"
  shows "stack_step enc f r (0, lvs ! 0) None = Inr (Some (partial n m k r as 1))"
proof -
  from ok obtain name where e: "enc (lvs ! 0) = Inr name" and c: "clean3 f name = Inr (as ! 0)"
    and sh: "shape3 (as ! 0) n m k" by (auto simp: level_ok_def)
  show ?thesis
    using assign_partial [OF assms(1-4) sh] dims3_shape [OF sh assms(1,2)]
    by (simp add: stack_step_def e c zeros4_partial [of _ _ _ _ as])
qed

lemma stack_loop:
  assumes "0 < n" "0 < m" "0 < k" and ok: "\<forall>i < r. level_ok enc f lvs as n m k i" and "j \<le> r"
  shows "fold_res (stack_step enc f r) (map (\<lambda>i. (i, lvs ! i)) [j..<r]) (Some (partial n m k r as j)) =
         Inr (Some (partial n m k r as r))"
  using assms(5)
proof (induction "r - j" arbitrary: j)
  case 0
  then show ?case by simp
next
  case (Suc x)
  then have "j < r" by simp
  then have u: "[j..<r] = j # [Suc j..<r]" by (simp add: upt_conv_Cons)
  have st: "stack_step enc f r (j, lvs ! j) (Some (partial n m k r as j)) = Inr (Some (partial n m k r as (Suc j)))"
    using stack_step_partial [OF assms(1-3) \<open>j < r\<close>] ok \<open>j < r\<close> by blast
  have "fold_res (stack_step enc f r) (map (\<lambda>i. (i, lvs ! i)) [j..<r]) (Some (partial n m k r as j)) =
        fold_res (stack_step enc f r) (map (\<lambda>i. (i, lvs ! i)) [Suc j..<r]) (Some (partial n m k r as (Suc j)))"
    by (simp only: u list.map fold_res.simps st sum.case)
  also have "\<dots> = Inr (Some (partial n m k r as r))"
  proof (rule Suc.hyps(1))
    show "x = r - Suc j" using Suc.hyps(2) by simp
    show "Suc j \<le> r" using \<open>j < r\<close> by simp
  qed
  finally show ?case .
qed

lemma zip_upt: "zip [0..<length xs] xs = map (\<lambda>i. (i, xs ! i)) [0..<length xs]"
  by (rule nth_equalityI) simp_all

lemma partial_full: "length as = r \<Longrightarrow> partial n m k r as r = stack_ref n m k as"
  by (simp add: partial_def stack_ref_def list_eq_iff_nth_eq)

lemma stack_scores_correct:
  assumes "0 < n" "0 < m" "0 < k" "lvs \<noteq> []" "length as = length lvs"
    and ok: "\<forall>i < length lvs. level_ok enc f lvs as n m k i"
  shows "stack_scores enc f lvs = Inr (Some (stack_ref n m k as))"
proof -
  let ?r = "length lvs"
  have z: "zip [0..<?r] lvs = (0, lvs ! 0) # map (\<lambda>i. (i, lvs ! i)) [1..<?r]"
    using assms(4) by (simp only: zip_upt) (simp add: upt_conv_Cons)
  have "stack_step enc f ?r (0, lvs ! 0) None = Inr (Some (partial n m k ?r as 1))"
    using stack_step_first [OF assms(1-3)] ok assms(4) by simp
  then have "stack_scores enc f lvs =
             fold_res (stack_step enc f ?r) (map (\<lambda>i. (i, lvs ! i)) [1..<?r]) (Some (partial n m k ?r as 1))"
    by (simp only: stack_scores_def z fold_res.simps sum.case)
  also have "\<dots> = Inr (Some (partial n m k ?r as ?r))"
  proof (rule stack_loop [OF assms(1-3) ok])
    show "1 \<le> length lvs" using assms(4) by (cases lvs) auto
  qed
  finally show ?thesis using assms(5) by (simp add: partial_full)
qed

lemma name_guard_ne: "name \<noteq> [] \<Longrightarrow> \<exists>b. name_guard c name = Inr b"
  by (cases name) (auto simp: name_guard_def)

lemma decoders_total:
  "name \<noteq> [] \<Longrightarrow> \<exists>r. comps_to_verif_threshold name = Inr r"
  "name \<noteq> [] \<Longrightarrow> \<exists>r. comps_to_verif_quantile name = Inr r"
   apply (drule name_guard_ne [of _ "CHR ''p''"], auto simp: comps_to_verif_threshold_def Let_def split: bool.split)
  apply (drule name_guard_ne [of _ "CHR ''q''"], auto simp: comps_to_verif_quantile_def Let_def split: bool.split)
  done

lemma discover_inv:
  assumes "\<And>name x. dec name = Inr (Some x) \<Longrightarrow> P x" and "discover dec f = Inr xs"
  shows "\<forall>x \<in> set xs. P x"
  using assms(2) unfolding discover_def
proof (rule fold_res_invariant)
  fix x t t'
  assume "\<forall>y \<in> set t. P y"
    and "(\<lambda>(var, v) acc. if var \<notin> set comps_dimension_names
            then rbind (dec var) (\<lambda>t. Inr (case t of None \<Rightarrow> acc | Some x \<Rightarrow> acc @ [x])) else Inr acc) x t = Inr t'"
  then show "\<forall>y \<in> set t'. P y"
    using assms(1) by (cases x) (auto split: if_splits option.splits simp: rbind_Inr)
qed simp

lemmas comps_eval = codec_eval comps_load_def comps_locations_def clean1_def clean3_def nc_variable_def nc_getattr_def
  comps_thresholds_def comps_quantiles_def discover_def comps_dimension_names_def read_locations_def
  nc_locations_def comps_variable_def units_label_def clean_fl_def comps_threshold_scores_def
  comps_quantile_scores_def stack_scores_def stack_step_def quantile_name_def assign_slice_def dims3_def
  bfits_def bget_def zeros4_def comps_fcst_def

text \<open>
  C22: \<open>threshold_scores\<close> stacks: when every threshold's name is found and
  holds an array of one shape (n, m, k), the result is the 4-D array whose
  level t of cell (d, o, s) is cell (d, o, s) of the t-th array.
\<close>

theorem comps_threshold_scores_stack:
  assumes "0 < n" "0 < m" "0 < k" "ths \<noteq> []" "length as = length ths"
    and "\<forall>i < length ths. level_ok verif_to_comps_threshold f ths as n m k i"
  shows "comps_threshold_scores f ths = Inr (Some (stack_ref n m k as))"
  using stack_scores_correct [OF assms] by (simp add: comps_threshold_scores_def)

theorem comps_threshold_scores_stack_witness:
  "0 < (1::nat) \<and> 0 < (2::nat) \<and> [Num 10, Num (3 / 10)] \<noteq> [] \<and>
   length [[[[Num (9 / 10)], [Num (8 / 10)]]], [[[Num (1 / 10)], [Num (2 / 10)]]]] = length [Num 10, Num (3 / 10)] \<and>
   level_ok verif_to_comps_threshold comps_example [Num 10, Num (3 / 10)] [[[[Num (9 / 10)], [Num (8 / 10)]]], [[[Num (1 / 10)], [Num (2 / 10)]]]] 1 2 1 0 \<and>
   level_ok verif_to_comps_threshold comps_example [Num 10, Num (3 / 10)] [[[[Num (9 / 10)], [Num (8 / 10)]]], [[[Num (1 / 10)], [Num (2 / 10)]]]] 1 2 1 1 \<and>
   comps_threshold_scores comps_example [Num 10, Num (3 / 10)] = Inr (Some (stack_ref 1 2 1 [[[[Num (9 / 10)], [Num (8 / 10)]]], [[[Num (1 / 10)], [Num (2 / 10)]]]]))"
proof -
  have lv: "level_ok verif_to_comps_threshold comps_example [Num 10, Num (3 / 10)] [[[[Num (9 / 10)], [Num (8 / 10)]]], [[[Num (1 / 10)], [Num (2 / 10)]]]] 1 2 1 i"
    if "i = 0 \<or> i = 1" for i
    using that by (elim disjE) (simp_all add: less_2_cases_iff level_ok_def comps_eval comps_example_def shape3_def)
  have ok: "\<forall>i < length [Num 10, Num (3 / 10)].
      level_ok verif_to_comps_threshold comps_example [Num 10, Num (3 / 10)] [[[[Num (9 / 10)], [Num (8 / 10)]]], [[[Num (1 / 10)], [Num (2 / 10)]]]] 1 2 1 i"
  proof (intro allI impI)
    fix i :: nat assume "i < length [Num 10, Num (3 / 10)]"
    then have "i = 0 \<or> i = 1" by auto
    then show "level_ok verif_to_comps_threshold comps_example [Num 10, Num (3 / 10)] [[[[Num (9 / 10)], [Num (8 / 10)]]], [[[Num (1 / 10)], [Num (2 / 10)]]]] 1 2 1 i"
      by (rule lv)
  qed
  show ?thesis using comps_threshold_scores_stack [OF _ _ _ _ _ ok] lv by simp
qed

text \<open>
  C24: \<open>Comps.is_valid\<close> accepts every file that opens as netCDF unless it
  has an attribute \<open>Convensions\<close> and no attribute \<open>Convension\<close>; the value
  \<open>"comps"\<close> the docstring and the spec ask for is never looked at.
\<close>

theorem comps_is_valid_iff:
  "comps_is_valid fo \<longleftrightarrow>
     (\<exists>f. fo = Some f \<and> (nc_hasattr f ''Convensions'' \<longrightarrow> nc_hasattr f ''Convension''))"
  by (auto simp: comps_is_valid_def nc_hasattr_def nc_getattr_def split: option.splits)

theorem comps_is_valid_iff_witness:
  "comps_is_valid (Some comps_example) \<and> \<not> nc_hasattr comps_example ''Convensions''"
  using comps_is_valid_iff [of "Some comps_example"] by (simp add: comps_example_def nc_hasattr_def)

text \<open>
  C20: Every quantile \<open>Comps\<close> discovers is a number in [0, 1]: the decoder
  keeps a percentage only when its hundredth is in range, and NaN (a
  variable named \<open>qnan\<close>) fails both comparisons.
\<close>

theorem comps_quantiles_bounded:
  assumes "comps_quantiles f = Inr qs"
  shows "\<forall>q \<in> set qs. \<exists>r. q = Num r \<and> 0 \<le> r \<and> r \<le> 1"
proof -
  have "\<exists>r. q = Num r \<and> 0 \<le> r \<and> r \<le> 1" if "comps_to_verif_quantile name = Inr (Some q)" for name q
    using that by (auto simp: comps_to_verif_quantile_def Let_def split: sum.splits bool.splits option.splits fl.splits if_splits)
  then show ?thesis using assms unfolding comps_quantiles_def by (rule discover_inv)
qed

theorem comps_quantiles_bounded_witness:
  "comps_quantiles comps_example = Inr [Num (1 / 2)] \<and> (\<exists>r. Num (1 / 2) = Num r \<and> 0 \<le> r \<and> r \<le> 1)"
proof -
  have q: "comps_quantiles comps_example = Inr [Num (1 / 2)]" by (simp add: comps_eval comps_example_def)
  show ?thesis using comps_quantiles_bounded [OF q] q by simp
qed

end
