(* ===== verification/TextFormat.thy ===== *)
theory TextFormat
  imports Dense PyRuntime
begin

text \<open>
  The text decoder, class \<open>Text\<close> of \<open>src/verif/input.py\<close> (lines 338--588).
  The constructor reads the file line by line (lines 385--489): a line that
  starts with \<open>#\<close> is metadata, the first other line is the header, every
  later line is a data row.  This pass is \<open>text_line\<close>, a step function on the
  parser state \<open>tstate\<close>, run over the lines by \<open>text_run\<close>; it stops at the
  first error as the exceptions and \<open>verif.util.error\<close> calls do.  The
  second pass (lines 491--560) is \<open>text_finish\<close>: the dense arrays of
  \<open>Dense\<close> and the deferred ids of \<open>Location\<close>.  \<open>text_load\<close> is the
  whole constructor.  A line is the string Python's file iteration yields,
  newline included, so a blank line is \<open>''\<newline>''\<close>.
\<close>

text \<open>
  The local state of \<open>Text.__init__\<close> during the first pass: the metadata,
  the header and its column positions (\<open>indices\<close>), the coordinate sets, the
  location registry (\<open>locationInfo\<close>, \<open>self._locations\<close>,
  \<open>shownConflictingWarning\<close>), the five sparse dictionaries, and the warnings
  written so far.
\<close>

record tstate =
  ts_units :: string
  ts_variable :: string
  ts_header :: "string list option"
  ts_indices :: "string \<Rightarrow> nat option"
  ts_dates :: "fl list"
  ts_offsets :: "fl list"
  ts_quantiles :: "fl list"
  ts_thresholds :: "fl list"
  ts_reg :: registry
  ts_sparse :: sparse
  ts_log :: "message list"

text \<open>
  The attributes of the constructed \<open>Text\<close> object that the \<open>Input\<close>
  interface exposes (lines 28--53, 555--560), with the warnings written while
  loading.
\<close>

record text_input =
  ti_dates :: "fl list"
  ti_offsets :: "fl list"
  ti_locations :: "location list"
  ti_thresholds :: "fl list"
  ti_quantiles :: "fl list"
  ti_variable :: "string \<times> string"
  ti_obs :: arr3
  ti_fcst :: arr3
  ti_pit :: "arr3 option"
  ti_qs :: arr4
  ti_ts :: arr4
  ti_log :: "message list"

text \<open>Lines 350--383: the state before the first line.\<close>

definition text_init :: tstate where
  "text_init =
     \<lparr>ts_units = ''Unknown units'', ts_variable = ''Unknown'', ts_header = None,
      ts_indices = Map.empty, ts_dates = [], ts_offsets = [], ts_quantiles = [],
      ts_thresholds = [], ts_reg = empty_registry,
      ts_sparse = \<lparr>sp_obs = [], sp_fcst = [], sp_pit = [], sp_x = [], sp_cdf = []\<rparr>,
      ts_log = []\<rparr>"

text \<open>\<open>Text._clean\<close> (lines 569--574): \<open>float(value)\<close>, and -999 becomes NaN.\<close>

definition text_clean :: "string \<Rightarrow> fl res" where
  "text_clean v =
     (case parse_float v of
        None \<Rightarrow> Inl (ValueError v)
      | Some f \<Rightarrow> Inr (if f = Num (-999) then NaN else f))"

text \<open>
  \<open>Text._get_quantile_fields\<close> and \<open>Text._get_threshold_fields\<close>
  (lines 576--588): the header tokens whose first character is \<open>q\<close>, and those
  whose first character is \<open>p\<close> other than \<open>pit\<close>.  Header tokens come from
  \<open>str.split\<close> and are never empty, so \<open>att[0]\<close> is the first element of
  \<open>take 1 att\<close>.
\<close>

definition quantile_fields :: "string list \<Rightarrow> string list" where
  "quantile_fields toks = filter (\<lambda>att. take 1 att = ''q'') toks"

definition threshold_fields :: "string list \<Rightarrow> string list" where
  "threshold_fields toks = filter (\<lambda>att. take 1 att = ''p'' \<and> att \<noteq> ''pit'') toks"

text \<open>
  Lines 386--394: a metadata line.  \<open>rowstr[1:].split()\<close> must have a first
  word (else \<open>curr[0]\<close> raises), and \<open>units:\<close> must be followed by one (else
  \<open>curr[1]\<close> raises); any other first word is ignored with a warning.
\<close>

definition comment_line :: "tstate \<Rightarrow> string \<Rightarrow> string \<Rightarrow> tstate res" where
  "comment_line st rest rowstr =
     (case py_split rest of
        [] \<Rightarrow> Inl IndexError
      | w # ws \<Rightarrow>
          if w = ''variable:'' then Inr (st\<lparr>ts_variable := py_join '' '' ws\<rparr>)
          else if w = ''units:'' then
            (case ws of [] \<Rightarrow> Inl IndexError | u # _ \<Rightarrow> Inr (st\<lparr>ts_units := u\<rparr>))
          else Inr (st\<lparr>ts_log := ts_log st @ [IgnoredLine (py_strip rowstr)]\<rparr>))"

text \<open>
  Lines 399--417: every branch of the \<open>if\<close>/\<open>elif\<close> chain stores
  \<open>indices[att] = i\<close>, so the chain is one update per token, a later
  duplicate overwriting an earlier one.
\<close>

definition header_indices :: "string list \<Rightarrow> string \<Rightarrow> nat option" where
  "header_indices header = fold (\<lambda>i m. m(header ! i \<mapsto> i)) [0..<length header] Map.empty"

text \<open>Lines 397--424: the header line, and the check of the required columns.\<close>

definition header_line :: "tstate \<Rightarrow> string list \<Rightarrow> tstate res" where
  "header_line st row =
     (let idx = header_indices row
      in if idx ''obs'' = None then Inl (MissingColumn ''obs'')
         else if idx ''fcst'' = None then Inl (MissingColumn ''fcst'')
         else Inr (st\<lparr>ts_header := Some row, ts_indices := idx\<rparr>))"

text \<open>\<open>self._clean(row[indices[name]])\<close> when the column exists, the default otherwise.\<close>

definition col_value :: "(string \<Rightarrow> nat option) \<Rightarrow> string list \<Rightarrow> string \<Rightarrow> fl \<Rightarrow> fl res" where
  "col_value idx row name dflt = (case idx name of Some i \<Rightarrow> text_clean (row ! i) | None \<Rightarrow> Inr dflt)"

text \<open>\<open>self._clean(row[indices[name]])\<close> for a column that must exist.\<close>

definition col_req :: "(string \<Rightarrow> nat option) \<Rightarrow> string list \<Rightarrow> string \<Rightarrow> fl res" where
  "col_req idx row name = (case idx name of Some i \<Rightarrow> text_clean (row ! i) | None \<Rightarrow> Inl (KeyError name))"

text \<open>
  Lines 480--484, one quantile column of a row: \<open>float(field[1:])\<close> (not
  cleaned), added to the quantile set, and the row's value stored under the
  six-part key.
\<close>

definition quantile_step :: "(string \<Rightarrow> nat option) \<Rightarrow> string list \<Rightarrow> key \<Rightarrow> string \<Rightarrow> tstate \<Rightarrow> tstate res" where
  "quantile_step idx row k field st =
     (case parse_float (drop 1 field) of
        None \<Rightarrow> Inl (ValueError (drop 1 field))
      | Some q \<Rightarrow>
          (case col_req idx row field of
             Inl e \<Rightarrow> Inl e
           | Inr v \<Rightarrow>
               Inr (st\<lparr>ts_quantiles := pyset_add q (ts_quantiles st),
                       ts_sparse := (ts_sparse st)\<lparr>sp_x := AList.update (key6 k q) v (sp_x (ts_sparse st))\<rparr>\<rparr>)))"

text \<open>Lines 485--489, one threshold column of a row.\<close>

definition threshold_step :: "(string \<Rightarrow> nat option) \<Rightarrow> string list \<Rightarrow> key \<Rightarrow> string \<Rightarrow> tstate \<Rightarrow> tstate res" where
  "threshold_step idx row k field st =
     (case parse_float (drop 1 field) of
        None \<Rightarrow> Inl (ValueError (drop 1 field))
      | Some t \<Rightarrow>
          (case col_req idx row field of
             Inl e \<Rightarrow> Inl e
           | Inr v \<Rightarrow>
               Inr (st\<lparr>ts_thresholds := pyset_add t (ts_thresholds st),
                       ts_sparse := (ts_sparse st)\<lparr>sp_cdf := AList.update (key6 k t) v (sp_cdf (ts_sparse st))\<rparr>\<rparr>)))"

text \<open>
  Lines 426--428: the arity check is \<open>len(row) is not len(header)\<close>, an
  identity test on two \<open>int\<close> objects.  CPython shares the objects of the
  integers up to 256 only, so for longer rows the test is true even when the
  lengths agree.
\<close>

definition arity_error :: "nat \<Rightarrow> nat \<Rightarrow> bool" where
  "arity_error n_row n_header \<longleftrightarrow> n_row \<noteq> n_header \<or> 256 < n_row"

text \<open>
  Lines 429--434 and 470--479: a row's date and offset join their sets, the
  registry is the one \<open>resolve_location\<close> returned, its warning (if any) is
  written, and the row's \<open>obs\<close>, \<open>fcst\<close> and optional \<open>pit\<close> values are
  stored under the key of the date, the offset and the resolved location.
  Python adds the date and the offset to their sets as soon as it reads them;
  an error later in the row aborts the whole load, so adding them here is the
  same.
\<close>

definition store_row ::
  "tstate \<Rightarrow> fl \<Rightarrow> fl \<Rightarrow> registry \<Rightarrow> location \<Rightarrow> message option \<Rightarrow> fl \<Rightarrow> fl \<Rightarrow> fl option \<Rightarrow> tstate" where
  "store_row st date offset reg l w v_obs v_fcst v_pit =
     (let k = loc_key date offset l; sp = ts_sparse st
      in st\<lparr>ts_dates := pyset_add date (ts_dates st),
            ts_offsets := pyset_add offset (ts_offsets st),
            ts_reg := reg,
            ts_sparse := sp\<lparr>sp_obs := AList.update k v_obs (sp_obs sp),
                            sp_fcst := AList.update k v_fcst (sp_fcst sp),
                            sp_pit := (case v_pit of None \<Rightarrow> sp_pit sp
                                       | Some v \<Rightarrow> AList.update k v (sp_pit sp))\<rparr>,
            ts_log := ts_log st @ (case w of None \<Rightarrow> [] | Some m \<Rightarrow> [m])\<rparr>)"

text \<open>
  Lines 426--489: a data row.  The fields are cleaned in the order of the code
  (date, offset, id, lat, lon, elev); the registry resolves the row's location;
  \<open>obs\<close>, \<open>fcst\<close> and the optional \<open>pit\<close> column are cleaned and stored;
  then the quantile and the threshold columns.
\<close>

definition data_row :: "tstate \<Rightarrow> string list \<Rightarrow> string list \<Rightarrow> string \<Rightarrow> tstate res" where
  "data_row st header row rowstr =
     (if arity_error (length row) (length header)
      then Inl (ColumnCount (length header) (py_strip rowstr))
      else
       (let idx = ts_indices st in
        case col_value idx row ''date'' (Num 0) of Inl e \<Rightarrow> Inl e | Inr date \<Rightarrow>
        case col_value idx row ''offset'' (Num 0) of Inl e \<Rightarrow> Inl e | Inr offset \<Rightarrow>
        case col_value idx row ''id'' NaN of Inl e \<Rightarrow> Inl e | Inr i \<Rightarrow>
        case col_value idx row ''lat'' NaN of Inl e \<Rightarrow> Inl e | Inr cur_lat \<Rightarrow>
        case col_value idx row ''lon'' NaN of Inl e \<Rightarrow> Inl e | Inr cur_lon \<Rightarrow>
        case col_value idx row ''elev'' NaN of Inl e \<Rightarrow> Inl e | Inr cur_elev \<Rightarrow>
        case resolve_location (ts_reg st) i cur_lat cur_lon cur_elev of (reg, l, w) \<Rightarrow>
        case col_req idx row ''obs'' of Inl e \<Rightarrow> Inl e | Inr v_obs \<Rightarrow>
        case col_req idx row ''fcst'' of Inl e \<Rightarrow> Inl e | Inr v_fcst \<Rightarrow>
        case (case idx ''pit'' of None \<Rightarrow> Inr None
              | Some _ \<Rightarrow> map_sum id Some (col_req idx row ''pit'')) of
          Inl e \<Rightarrow> Inl e
        | Inr v_pit \<Rightarrow>
            (let k = loc_key date offset l
             in case fold_res (quantile_step idx row k) (quantile_fields header)
                       (store_row st date offset reg l w v_obs v_fcst v_pit) of
                  Inl e \<Rightarrow> Inl e
                | Inr st'' \<Rightarrow> fold_res (threshold_step idx row k) (threshold_fields header) st'')))"

text \<open>Lines 385--489: one line of the file.  \<open>rowstr[0]\<close> of an empty string raises.\<close>

definition text_line :: "tstate \<Rightarrow> string \<Rightarrow> tstate res" where
  "text_line st rowstr =
     (case rowstr of
        [] \<Rightarrow> Inl IndexError
      | c # rest \<Rightarrow>
          if c = CHR ''#'' then comment_line st rest rowstr
          else (let row = py_split rowstr
                in case ts_header st of
                     None \<Rightarrow> header_line st row
                   | Some header \<Rightarrow> data_row st header row rowstr))"

text \<open>Lines 385--490: the first pass over all lines.\<close>

definition text_run :: "string list \<Rightarrow> tstate res" where
  "text_run lines = fold_res (\<lambda>l st. text_line st l) lines text_init"

text \<open>Lines 493--497 and 504--537: the frozen coordinates and the dense arrays.\<close>

definition text_coords :: "tstate \<Rightarrow> coords" where
  "text_coords st =
     \<lparr>c_dates = ts_dates st, c_offsets = ts_offsets st, c_locations = reg_locs (ts_reg st),
      c_quantiles = ts_quantiles st, c_thresholds = ts_thresholds st\<rparr>"

text \<open>Lines 491--560: the second pass.\<close>

definition text_finish :: "tstate \<Rightarrow> text_input" where
  "text_finish st =
     (let dn = fill_dense (ts_sparse st) (text_coords st)
      in \<lparr>ti_dates = ts_dates st, ti_offsets = ts_offsets st,
          ti_locations = resolve_ids (reg_locs (ts_reg st)),
          ti_thresholds = ts_thresholds st, ti_quantiles = ts_quantiles st,
          ti_variable = (ts_variable st, ts_units st),
          ti_obs = dn_obs dn, ti_fcst = dn_fcst dn, ti_pit = dn_pit dn,
          ti_qs = dn_qs dn, ti_ts = dn_ts dn, ti_log = ts_log st\<rparr>)"

text \<open>\<open>Text(filename)\<close> on a file with these lines (lines 350--560).\<close>

definition text_load :: "string list \<Rightarrow> text_input res" where
  "text_load lines = (case text_run lines of Inl e \<Rightarrow> Inl e | Inr st \<Rightarrow> Inr (text_finish st))"

section \<open>The invariant of the first pass\<close>

definition conflict_count :: "message list \<Rightarrow> nat" where
  "conflict_count ms = length (filter is_conflict ms)"

text \<open>A key built from coordinates that are in the coordinate sets.\<close>

definition key_known :: "tstate \<Rightarrow> key \<Rightarrow> bool" where
  "key_known st k \<longleftrightarrow>
     (\<exists>d \<in> set (ts_dates st). \<exists>h \<in> set (ts_offsets st). \<exists>l \<in> set (reg_locs (ts_reg st)). k = loc_key d h l)"

definition keys_known :: "tstate \<Rightarrow> bool" where
  "keys_known st \<longleftrightarrow>
     (\<forall>k \<in> dom (map_of (sp_obs (ts_sparse st))) \<union> dom (map_of (sp_fcst (ts_sparse st)))
            \<union> dom (map_of (sp_pit (ts_sparse st))). key_known st k) \<and>
     (\<forall>k6 \<in> dom (map_of (sp_x (ts_sparse st))).
        \<exists>k q. k6 = key6 k q \<and> key_known st k \<and> q \<in> set (ts_quantiles st)) \<and>
     (\<forall>k6 \<in> dom (map_of (sp_cdf (ts_sparse st))).
        \<exists>k t. k6 = key6 k t \<and> key_known st k \<and> t \<in> set (ts_thresholds st))"

definition text_inv :: "tstate \<Rightarrow> bool" where
  "text_inv st \<longleftrightarrow>
     reg_inv (ts_reg st) \<and> distinct (ts_dates st) \<and> distinct (ts_offsets st) \<and>
     distinct (ts_quantiles st) \<and> distinct (ts_thresholds st) \<and>
     conflict_count (ts_log st) = (if reg_shown (ts_reg st) then 1 else 0) \<and> keys_known st"

text \<open>A line that the first pass reads as a comment: its first character is \<open>#\<close>.\<close>

definition is_comment :: "string \<Rightarrow> bool" where
  "is_comment l \<longleftrightarrow> take 1 l = ''#''"

section \<open>Properties of the first pass\<close>

lemma data_row_Inr:
  assumes "data_row st header row r = Inr st'"
  obtains date offset i a b c reg l w v_obs v_fcst v_pit st2 where
    "\<not> arity_error (length row) (length header)"
    "resolve_location (ts_reg st) i a b c = (reg, l, w)"
    "fold_res (quantile_step (ts_indices st) row (loc_key date offset l)) (quantile_fields header)
       (store_row st date offset reg l w v_obs v_fcst v_pit) = Inr st2"
    "fold_res (threshold_step (ts_indices st) row (loc_key date offset l)) (threshold_fields header) st2 = Inr st'"
  using assms that
  by (auto simp: data_row_def Let_def split: if_splits sum.splits prod.splits option.splits)

lemma quantile_step_Inr:
  "quantile_step idx row k f st = Inr st' \<Longrightarrow>
   \<exists>q v. st' = st\<lparr>ts_quantiles := pyset_add q (ts_quantiles st),
                  ts_sparse := (ts_sparse st)\<lparr>sp_x := AList.update (key6 k q) v (sp_x (ts_sparse st))\<rparr>\<rparr>"
  by (auto simp: quantile_step_def split: option.splits sum.splits)

lemma threshold_step_Inr:
  "threshold_step idx row k f st = Inr st' \<Longrightarrow>
   \<exists>t v. st' = st\<lparr>ts_thresholds := pyset_add t (ts_thresholds st),
                  ts_sparse := (ts_sparse st)\<lparr>sp_cdf := AList.update (key6 k t) v (sp_cdf (ts_sparse st))\<rparr>\<rparr>"
  by (auto simp: threshold_step_def split: option.splits sum.splits)

lemma key_known_frame:
  "ts_dates st' = ts_dates st \<Longrightarrow> ts_offsets st' = ts_offsets st \<Longrightarrow> ts_reg st' = ts_reg st \<Longrightarrow>
   key_known st' = key_known st"
  by (simp add: key_known_def fun_eq_iff)

lemma quantile_step_inv:
  assumes "text_inv st" "key_known st k" "quantile_step idx row k f st = Inr st'"
  shows "text_inv st' \<and> key_known st' k"
proof -
  from quantile_step_Inr [OF assms(3)] obtain q v where st': "st' = st\<lparr>ts_quantiles := pyset_add q (ts_quantiles st),
      ts_sparse := (ts_sparse st)\<lparr>sp_x := AList.update (key6 k q) v (sp_x (ts_sparse st))\<rparr>\<rparr>"
    by blast
  have kk: "key_known st' = key_known st" by (rule key_known_frame) (simp_all add: st')
  have "keys_known st'"
    unfolding keys_known_def kk
  proof (intro conjI ballI)
    fix k' assume "k' \<in> dom (map_of (sp_obs (ts_sparse st'))) \<union> dom (map_of (sp_fcst (ts_sparse st')))
      \<union> dom (map_of (sp_pit (ts_sparse st')))"
    with assms(1) show "key_known st k'" by (simp add: st' text_inv_def keys_known_def)
  next
    fix k6 assume "k6 \<in> dom (map_of (sp_x (ts_sparse st')))"
    then have "k6 = key6 k q \<or> k6 \<in> dom (map_of (sp_x (ts_sparse st)))" by (auto simp: st')
    then show "\<exists>k q. k6 = key6 k q \<and> key_known st k \<and> q \<in> set (ts_quantiles st')"
    proof
      assume "k6 = key6 k q"
      with assms(2) show ?thesis by (intro exI [of _ k] exI [of _ q]) (simp add: st')
    next
      assume "k6 \<in> dom (map_of (sp_x (ts_sparse st)))"
      with assms(1) show ?thesis unfolding text_inv_def keys_known_def st' by fastforce
    qed
  next
    fix k6 assume "k6 \<in> dom (map_of (sp_cdf (ts_sparse st')))"
    with assms(1) show "\<exists>k t. k6 = key6 k t \<and> key_known st k \<and> t \<in> set (ts_thresholds st')"
      by (simp add: st' text_inv_def keys_known_def)
  qed
  with assms(1,2) show ?thesis by (simp add: text_inv_def kk) (simp add: st')
qed

lemma threshold_step_inv:
  assumes "text_inv st" "key_known st k" "threshold_step idx row k f st = Inr st'"
  shows "text_inv st' \<and> key_known st' k"
proof -
  from threshold_step_Inr [OF assms(3)] obtain t v where st': "st' = st\<lparr>ts_thresholds := pyset_add t (ts_thresholds st),
      ts_sparse := (ts_sparse st)\<lparr>sp_cdf := AList.update (key6 k t) v (sp_cdf (ts_sparse st))\<rparr>\<rparr>"
    by blast
  have kk: "key_known st' = key_known st" by (rule key_known_frame) (simp_all add: st')
  have "keys_known st'"
    unfolding keys_known_def kk
  proof (intro conjI ballI)
    fix k' assume "k' \<in> dom (map_of (sp_obs (ts_sparse st'))) \<union> dom (map_of (sp_fcst (ts_sparse st')))
      \<union> dom (map_of (sp_pit (ts_sparse st')))"
    with assms(1) show "key_known st k'" by (simp add: st' text_inv_def keys_known_def)
  next
    fix k6 assume "k6 \<in> dom (map_of (sp_x (ts_sparse st')))"
    with assms(1) show "\<exists>k q. k6 = key6 k q \<and> key_known st k \<and> q \<in> set (ts_quantiles st')"
      by (simp add: st' text_inv_def keys_known_def)
  next
    fix k6 assume "k6 \<in> dom (map_of (sp_cdf (ts_sparse st')))"
    then have "k6 = key6 k t \<or> k6 \<in> dom (map_of (sp_cdf (ts_sparse st)))" by (auto simp: st')
    then show "\<exists>k t'. k6 = key6 k t' \<and> key_known st k \<and> t' \<in> set (ts_thresholds st')"
    proof
      assume "k6 = key6 k t"
      with assms(2) show ?thesis by (intro exI [of _ k] exI [of _ t]) (simp add: st')
    next
      assume "k6 \<in> dom (map_of (sp_cdf (ts_sparse st)))"
      with assms(1) show ?thesis unfolding text_inv_def keys_known_def st' by fastforce
    qed
  qed
  with assms(1,2) show ?thesis by (simp add: text_inv_def kk) (simp add: st')
qed

lemma key_known_mono:
  assumes "key_known st k"
    and "set (ts_dates st) \<subseteq> set (ts_dates st')" "set (ts_offsets st) \<subseteq> set (ts_offsets st')"
    and "set (reg_locs (ts_reg st)) \<subseteq> set (reg_locs (ts_reg st'))"
  shows "key_known st' k"
  using assms unfolding key_known_def by blast

lemma store_row_inv:
  assumes "text_inv st" and res: "resolve_location (ts_reg st) i a b c = (reg, l, w)"
  shows "text_inv (store_row st date offset reg l w v_obs v_fcst v_pit) \<and>
         key_known (store_row st date offset reg l w v_obs v_fcst v_pit) (loc_key date offset l)"
proof -
  let ?st = "store_row st date offset reg l w v_obs v_fcst v_pit"
  have reg: "reg_inv (ts_reg st)" using assms(1) by (simp add: text_inv_def)
  note loc = resolve_location_loc [OF reg res]
  note warn = resolve_location_warning [OF res]
  have fields: "ts_reg ?st = reg" "ts_dates ?st = pyset_add date (ts_dates st)"
      "ts_offsets ?st = pyset_add offset (ts_offsets st)" "ts_quantiles ?st = ts_quantiles st"
      "ts_thresholds ?st = ts_thresholds st"
      "ts_log ?st = ts_log st @ (case w of None \<Rightarrow> [] | Some m \<Rightarrow> [m])"
      "sp_x (ts_sparse ?st) = sp_x (ts_sparse st)" "sp_cdf (ts_sparse ?st) = sp_cdf (ts_sparse st)"
    by (simp_all add: store_row_def Let_def)
  have mono: "key_known st k \<Longrightarrow> key_known ?st k" for k
    by (rule key_known_mono) (use loc in \<open>auto simp: fields\<close>)
  have new: "key_known ?st (loc_key date offset l)"
    using loc by (auto simp: key_known_def fields)
  have log: "conflict_count (ts_log ?st) = conflict_count (ts_log st) + (if w = None then 0 else 1)"
    using loc by (cases w) (auto simp: store_row_def Let_def conflict_count_def)
  have count: "conflict_count (ts_log ?st) = (if reg_shown reg then 1 else 0)"
    using assms(1) warn log by (auto simp: text_inv_def)
  have "keys_known ?st"
    unfolding keys_known_def
  proof (intro conjI ballI)
    fix k assume "k \<in> dom (map_of (sp_obs (ts_sparse ?st))) \<union> dom (map_of (sp_fcst (ts_sparse ?st)))
      \<union> dom (map_of (sp_pit (ts_sparse ?st)))"
    then have "k = loc_key date offset l \<or> k \<in> dom (map_of (sp_obs (ts_sparse st))) \<union>
        dom (map_of (sp_fcst (ts_sparse st))) \<union> dom (map_of (sp_pit (ts_sparse st)))"
      by (auto simp: store_row_def Let_def split: option.splits)
    then show "key_known ?st k"
    proof
      assume "k = loc_key date offset l"
      with new show ?thesis by simp
    next
      assume "k \<in> dom (map_of (sp_obs (ts_sparse st))) \<union> dom (map_of (sp_fcst (ts_sparse st)))
        \<union> dom (map_of (sp_pit (ts_sparse st)))"
      with assms(1) have "key_known st k" unfolding text_inv_def keys_known_def by blast
      then show ?thesis by (rule mono)
    qed
  next
    fix k6 assume "k6 \<in> dom (map_of (sp_x (ts_sparse ?st)))"
    with assms(1) mono show "\<exists>k q. k6 = key6 k q \<and> key_known ?st k \<and> q \<in> set (ts_quantiles ?st)"
      unfolding fields text_inv_def keys_known_def by blast
  next
    fix k6 assume "k6 \<in> dom (map_of (sp_cdf (ts_sparse ?st)))"
    with assms(1) mono show "\<exists>k t. k6 = key6 k t \<and> key_known ?st k \<and> t \<in> set (ts_thresholds ?st)"
      unfolding fields text_inv_def keys_known_def by blast
  qed
  moreover have "reg_inv reg" by (rule resolve_location_inv [OF reg res])
  ultimately show ?thesis using assms(1) count new by (simp add: text_inv_def fields)
qed

lemma data_row_inv:
  assumes "text_inv st" and "data_row st header row r = Inr st'"
  shows "text_inv st'"
proof -
  from assms(2) obtain date offset i a b c reg l w v_obs v_fcst v_pit st2 where
    res: "resolve_location (ts_reg st) i a b c = (reg, l, w)"
    and q: "fold_res (quantile_step (ts_indices st) row (loc_key date offset l)) (quantile_fields header)
       (store_row st date offset reg l w v_obs v_fcst v_pit) = Inr st2"
    and t: "fold_res (threshold_step (ts_indices st) row (loc_key date offset l)) (threshold_fields header) st2 = Inr st'"
    by (rule data_row_Inr)
  let ?k = "loc_key date offset l"
  have "text_inv (store_row st date offset reg l w v_obs v_fcst v_pit) \<and>
        key_known (store_row st date offset reg l w v_obs v_fcst v_pit) ?k"
    by (rule store_row_inv [OF assms(1) res])
  then have "text_inv st2 \<and> key_known st2 ?k"
  proof (rule fold_res_invariant [OF q])
    fix x t t' assume a: "text_inv t \<and> key_known t ?k" and b: "quantile_step (ts_indices st) row ?k x t = Inr t'"
    from a have "text_inv t" "key_known t ?k" by simp_all
    from quantile_step_inv [OF this b] show "text_inv t' \<and> key_known t' ?k" .
  qed
  then have "text_inv st' \<and> key_known st' ?k"
  proof (rule fold_res_invariant [OF t])
    fix x t t' assume a: "text_inv t \<and> key_known t ?k" and b: "threshold_step (ts_indices st) row ?k x t = Inr t'"
    from a have "text_inv t" "key_known t ?k" by simp_all
    from threshold_step_inv [OF this b] show "text_inv t' \<and> key_known t' ?k" .
  qed
  then show ?thesis by simp
qed

lemma comment_line_inv:
  assumes "text_inv st" and "comment_line st rest r = Inr st'"
  shows "text_inv st'"
proof -
  have same: "text_inv (st\<lparr>ts_variable := x\<rparr>) = text_inv st" "text_inv (st\<lparr>ts_units := x\<rparr>) = text_inv st"
    "text_inv (st\<lparr>ts_log := ts_log st @ [IgnoredLine y]\<rparr>) = text_inv st" for x y
    by (simp_all add: text_inv_def keys_known_def key_known_def conflict_count_def)
  from assms show ?thesis
    by (auto simp: comment_line_def same split: list.splits if_splits)
qed

lemma header_line_inv:
  assumes "text_inv st" and "header_line st row = Inr st'"
  shows "text_inv st'"
proof -
  have same: "text_inv (st\<lparr>ts_header := x, ts_indices := y\<rparr>) = text_inv st" for x y
    by (simp add: text_inv_def keys_known_def key_known_def)
  from assms show ?thesis by (auto simp: header_line_def Let_def same split: if_splits)
qed

lemma text_line_inv:
  assumes "text_inv st" and "text_line st l = Inr st'"
  shows "text_inv st'"
proof (cases l)
  case Nil
  with assms(2) show ?thesis by (simp add: text_line_def)
next
  case (Cons c rest)
  show ?thesis
  proof (cases "c = CHR ''#''")
    case True
    with assms Cons show ?thesis by (auto simp: text_line_def intro: comment_line_inv)
  next
    case False
    show ?thesis
    proof (cases "ts_header st")
      case None
      with assms Cons False show ?thesis by (auto simp: text_line_def Let_def intro: header_line_inv)
    next
      case (Some header)
      with assms Cons False show ?thesis by (auto simp: text_line_def Let_def intro: data_row_inv)
    qed
  qed
qed

lemma text_init_inv: "text_inv text_init"
  by (simp add: text_init_def text_inv_def reg_inv_def keys_known_def key_known_def conflict_count_def
      empty_registry_def)

lemma text_run_inv: "text_run lines = Inr st \<Longrightarrow> text_inv st"
  unfolding text_run_def by (rule fold_res_invariant [where P = text_inv]) (auto intro: text_init_inv text_line_inv)

lemma text_load_Inr:
  "text_load lines = Inr ti \<Longrightarrow> \<exists>st. text_run lines = Inr st \<and> ti = text_finish st"
  by (auto simp: text_load_def split: sum.splits)

lemma text_finish_dense:
  "ti_obs (text_finish st) = dense3 (sp_obs (ts_sparse st)) (text_coords st)"
  "ti_fcst (text_finish st) = dense3 (sp_fcst (ts_sparse st)) (text_coords st)"
  "ti_pit (text_finish st) =
     (if sp_pit (ts_sparse st) \<noteq> [] then Some (dense3 (sp_pit (ts_sparse st)) (text_coords st)) else None)"
  "ti_qs (text_finish st) = dense4 (sp_x (ts_sparse st)) (ts_quantiles st) (text_coords st)"
  "ti_ts (text_finish st) = dense4 (sp_cdf (ts_sparse st)) (ts_thresholds st) (text_coords st)"
  by (simp_all add: text_finish_def fill_dense_eq assemble_def text_coords_def)

lemma text_finish_coords [simp]:
  "ti_dates (text_finish st) = ts_dates st" "ti_offsets (text_finish st) = ts_offsets st"
  "ti_quantiles (text_finish st) = ts_quantiles st" "ti_thresholds (text_finish st) = ts_thresholds st"
  "ti_locations (text_finish st) = resolve_ids (reg_locs (ts_reg st))"
  "ti_log (text_finish st) = ts_log st"
  by (simp_all add: text_finish_def Let_def)

lemma length_resolve_ids [simp]: "length (resolve_ids ls) = length ls"
  by (simp add: resolve_ids_def Let_def)

text \<open>
  C2: After a successful load every dense array has the extents of the
  coordinate lists: \<open>obs\<close>, \<open>fcst\<close> and the optional \<open>pit\<close> are
  dates \<times> offsets \<times> locations, the quantile and threshold arrays have one
  more axis of the length of their coordinate list.
\<close>

theorem text_load_shape:
  assumes "text_load lines = Inr ti"
  shows "shape3 (ti_obs ti) (length (ti_dates ti)) (length (ti_offsets ti)) (length (ti_locations ti)) \<and>
         shape3 (ti_fcst ti) (length (ti_dates ti)) (length (ti_offsets ti)) (length (ti_locations ti)) \<and>
         shape4 (ti_qs ti) (length (ti_dates ti)) (length (ti_offsets ti)) (length (ti_locations ti))
           (length (ti_quantiles ti)) \<and>
         shape4 (ti_ts ti) (length (ti_dates ti)) (length (ti_offsets ti)) (length (ti_locations ti))
           (length (ti_thresholds ti)) \<and>
         (\<forall>p. ti_pit ti = Some p \<longrightarrow>
            shape3 p (length (ti_dates ti)) (length (ti_offsets ti)) (length (ti_locations ti)))"
proof -
  from text_load_Inr [OF assms] obtain st where ti: "ti = text_finish st" by blast
  show ?thesis
    using dense3_shape [of _ "text_coords st"] dense4_shape [of _ _ "text_coords st"]
    by (simp add: ti text_finish_def fill_dense_eq assemble_def text_coords_def Let_def)
qed

text \<open>
  C4: After the deferred numbering, the location ids of a load are pairwise
  distinct and none is NaN.
\<close>

theorem text_load_ids:
  assumes "text_load lines = Inr ti"
  shows "distinct (map loc_id (ti_locations ti)) \<and> (\<forall>l \<in> set (ti_locations ti). \<not> is_nan (loc_id l))"
proof -
  from text_load_Inr [OF assms] obtain st where run: "text_run lines = Inr st" and ti: "ti = text_finish st"
    by blast
  from text_run_inv [OF run] have "reg_inv (ts_reg st)" by (simp add: text_inv_def)
  then show ?thesis
    using resolve_ids_registry by (simp add: ti text_finish_def Let_def)
qed

text \<open>
  C5: However many rows conflict with the registered location of their id, at
  most one conflict warning is logged.
\<close>

theorem text_load_one_conflict:
  assumes "text_load lines = Inr ti"
  shows "length (filter is_conflict (ti_log ti)) \<le> 1"
proof -
  from text_load_Inr [OF assms] obtain st where run: "text_run lines = Inr st" and ti: "ti = text_finish st"
    by blast
  from text_run_inv [OF run] show ?thesis by (simp add: ti text_inv_def conflict_count_def)
qed


section \<open>Header, errors and locations over whole runs\<close>

lemma header_indices_None: "header_indices h x = None \<longleftrightarrow> x \<notin> set h"
proof -
  have "fold (\<lambda>i m. m(h ! i \<mapsto> i)) is m0 x = None \<longleftrightarrow> m0 x = None \<and> x \<notin> (\<lambda>i. h ! i) ` set is"
    for "is" m0
    by (induction "is" arbitrary: m0) auto
  then show ?thesis by (auto simp: header_indices_def in_set_conv_nth)
qed

lemma text_run_append:
  "text_run (xs @ ys) = (case text_run xs of Inl e \<Rightarrow> Inl e | Inr st \<Rightarrow> fold_res (\<lambda>l st. text_line st l) ys st)"
  by (simp add: text_run_def fold_res_append)

lemma text_load_abort:
  assumes "text_run xs = Inr st" and "text_line st l = Inl e"
  shows "text_load (xs @ l # ys) = Inl e"
  using assms by (simp add: text_load_def text_run_append)

lemma quantile_steps_frame:
  assumes "fold_res (quantile_step idx row k) fs st = Inr st'"
  shows "ts_header st' = ts_header st \<and> ts_reg st' = ts_reg st"
  by (rule fold_res_invariant [OF assms, where P = "\<lambda>t. ts_header t = ts_header st \<and> ts_reg t = ts_reg st"])
     (auto dest!: quantile_step_Inr)

lemma threshold_steps_frame:
  assumes "fold_res (threshold_step idx row k) fs st = Inr st'"
  shows "ts_header st' = ts_header st \<and> ts_reg st' = ts_reg st"
  by (rule fold_res_invariant [OF assms, where P = "\<lambda>t. ts_header t = ts_header st \<and> ts_reg t = ts_reg st"])
     (auto dest!: threshold_step_Inr)

lemma data_row_frame:
  assumes "data_row st header row r = Inr st'"
  shows "ts_header st' = ts_header st \<and> (\<exists>i a b c l w. resolve_location (ts_reg st) i a b c = (ts_reg st', l, w))"
proof -
  from assms obtain date offset i a b c reg l w v_obs v_fcst v_pit st2 where
    res: "resolve_location (ts_reg st) i a b c = (reg, l, w)"
    and q: "fold_res (quantile_step (ts_indices st) row (loc_key date offset l)) (quantile_fields header)
       (store_row st date offset reg l w v_obs v_fcst v_pit) = Inr st2"
    and t: "fold_res (threshold_step (ts_indices st) row (loc_key date offset l)) (threshold_fields header) st2 = Inr st'"
    by (rule data_row_Inr)
  have "ts_reg st' = reg" "ts_header st' = ts_header st"
    using quantile_steps_frame [OF q] threshold_steps_frame [OF t] by (simp_all add: store_row_def Let_def)
  with res show ?thesis by blast
qed

lemma text_line_header:
  assumes "text_line st l = Inr st'"
  shows "ts_header st' = (case ts_header st of Some h \<Rightarrow> Some h
                          | None \<Rightarrow> if is_comment l then None else Some (py_split l))"
proof (cases l)
  case Nil
  with assms show ?thesis by (simp add: text_line_def)
next
  case (Cons c rest)
  show ?thesis
  proof (cases "c = CHR ''#''")
    case True
    with assms Cons show ?thesis
      by (auto simp: text_line_def comment_line_def is_comment_def split: list.splits if_splits option.split)
  next
    case False
    show ?thesis
    proof (cases "ts_header st")
      case None
      with assms Cons False show ?thesis
        by (auto simp: text_line_def header_line_def is_comment_def Let_def split: if_splits)
    next
      case (Some header)
      with assms Cons False show ?thesis
        using data_row_frame by (auto simp: text_line_def Let_def)
    qed
  qed
qed

lemma run_header:
  "fold_res (\<lambda>l st. text_line st l) lines st0 = Inr st \<Longrightarrow>
   ts_header st = (case ts_header st0 of Some h \<Rightarrow> Some h
                   | None \<Rightarrow> map_option py_split (find (\<lambda>l. \<not> is_comment l) lines))"
proof (induction lines arbitrary: st0)
  case Nil
  then show ?case by (simp split: option.split)
next
  case (Cons l lines)
  then obtain st1 where s1: "text_line st0 l = Inr st1" and rest: "fold_res (\<lambda>l st. text_line st l) lines st1 = Inr st"
    by (auto split: sum.splits)
  from Cons.IH [OF rest] text_line_header [OF s1] show ?case
    by (auto split: option.splits if_splits)
qed

text \<open>
  C7: The header is the split of the first line of the file that is not a
  comment, if there is one.
\<close>

theorem text_run_header:
  "text_run lines = Inr st \<Longrightarrow> ts_header st = map_option py_split (find (\<lambda>l. \<not> is_comment l) lines)"
  unfolding text_run_def by (drule run_header) (simp add: text_init_def)

text \<open>
  C9: A data row whose number of fields differs from the header's aborts the
  load with the column-count error.
\<close>

theorem text_load_arity_error:
  assumes "text_run xs = Inr st" and "ts_header st = Some header"
    and "\<not> is_comment l" and "l \<noteq> []" and "length (py_split l) \<noteq> length header"
  shows "text_load (xs @ l # ys) = Inl (ColumnCount (length header) (py_strip l))"
proof (rule text_load_abort [OF assms(1)])
  from assms(3,4) obtain c rest where "l = c # rest" "c \<noteq> CHR ''#''"
    by (cases l) (auto simp: is_comment_def)
  with assms(2,5) show "text_line st l = Inl (ColumnCount (length header) (py_strip l))"
    by (simp add: text_line_def data_row_def arity_error_def)
qed

text \<open>
  C8: A header without an \<open>obs\<close> column aborts the load with the
  missing-column error, whatever follows it.
\<close>

theorem text_load_missing_obs:
  assumes "text_run xs = Inr st" and "ts_header st = None"
    and "\<not> is_comment l" and "l \<noteq> []" and "''obs'' \<notin> set (py_split l)"
  shows "text_load (xs @ l # ys) = Inl (MissingColumn ''obs'')"
proof (rule text_load_abort [OF assms(1)])
  from assms(3,4) obtain c rest where "l = c # rest" "c \<noteq> CHR ''#''"
    by (cases l) (auto simp: is_comment_def)
  with assms(2,5) show "text_line st l = Inl (MissingColumn ''obs'')"
    by (simp add: text_line_def header_line_def header_indices_None)
qed

lemma text_line_reg:
  assumes "text_line st l = Inr st'"
  shows "ts_reg st' = ts_reg st \<or> (\<exists>i a b c l w. resolve_location (ts_reg st) i a b c = (ts_reg st', l, w))"
proof (cases l)
  case Nil
  with assms show ?thesis by (simp add: text_line_def)
next
  case (Cons c rest)
  show ?thesis
  proof (cases "c = CHR ''#''")
    case True
    with assms Cons show ?thesis
      by (auto simp: text_line_def comment_line_def split: list.splits if_splits)
  next
    case False
    show ?thesis
    proof (cases "ts_header st")
      case None
      with assms Cons False show ?thesis
        by (auto simp: text_line_def header_line_def Let_def split: if_splits)
    next
      case (Some header)
      with assms Cons False show ?thesis
        using data_row_frame by (auto simp: text_line_def Let_def)
    qed
  qed
qed

text \<open>
  C6: Once an id is registered, later rows never change its location: it is
  still registered with the same coordinates at the end, and it is one of the
  locations of the result.
\<close>

theorem text_run_id_stable:
  assumes "text_run xs = Inr st" and "text_run (xs @ ys) = Inr st'"
    and "\<not> is_nan i" and "reg_info (ts_reg st) i = Some l"
  shows "reg_info (ts_reg st') i = Some l \<and> l \<in> set (ti_locations (text_finish st'))"
proof -
  from assms(1,2) have run: "fold_res (\<lambda>l st. text_line st l) ys st = Inr st'"
    by (simp add: text_run_append)
  have keep: "reg_info (ts_reg st') i = Some l"
  proof (rule fold_res_invariant [OF run, where P = "\<lambda>t. reg_info (ts_reg t) i = Some l"])
    show "reg_info (ts_reg st) i = Some l" by (rule assms(4))
  next
    fix y t t' assume "reg_info (ts_reg t) i = Some l" and "text_line t y = Inr t'"
    with assms(3) text_line_reg show "reg_info (ts_reg t') i = Some l"
      by (metis resolve_location_stable)
  qed
  from text_run_inv [OF assms(2)] have "reg_inv (ts_reg st')" by (simp add: text_inv_def)
  with keep assms(3) have "l \<in> set (reg_locs (ts_reg st'))" "\<not> is_nan (loc_id l)"
    by (auto simp: reg_inv_def)
  then have "l \<in> set (resolve_ids (reg_locs (ts_reg st')))"
    by (simp add: resolve_ids_def Let_def assign_ids_keep)
  with keep show ?thesis by simp
qed

lemma split_ws_word:
  assumes "\<forall>x \<in> set w. \<not> is_ws x" and "is_ws c" and "acc \<noteq> [] \<or> w \<noteq> []"
  shows "split_ws acc (w @ c # rest) = (rev acc @ w) # split_ws [] rest"
  using assms by (induction w arbitrary: acc) auto

lemma py_split_replicate:
  assumes "\<forall>x \<in> set w. \<not> is_ws x" and "w \<noteq> []"
  shows "py_split (concat (replicate n (w @ '' '')) @ s) = replicate n w @ py_split s"
proof (induction n)
  case 0
  then show ?case by simp
next
  case (Suc n)
  have "py_split (w @ CHR '' '' # concat (replicate n (w @ '' '')) @ s) =
        w # py_split (concat (replicate n (w @ '' '')) @ s)"
    using assms by (simp add: py_split_def split_ws_word is_ws_def)
  with Suc show ?case by simp
qed

text \<open>
  C10: A data row of more than 256 fields aborts the load even when it has as
  many fields as the header: \<open>len(row) is not len(header)\<close> compares the
  identity of two \<open>int\<close> objects, and CPython shares them only up to 256.
\<close>

theorem text_load_wide_row_rejected:
  assumes "text_run xs = Inr st" and "ts_header st = Some header"
    and "\<not> is_comment l" and "l \<noteq> []" and "256 < length (py_split l)"
  shows "text_load (xs @ l # ys) = Inl (ColumnCount (length header) (py_strip l))"
proof (rule text_load_abort [OF assms(1)])
  from assms(3,4) obtain c rest where "l = c # rest" "c \<noteq> CHR ''#''"
    by (cases l) (auto simp: is_comment_def)
  with assms(2,5) show "text_line st l = Inl (ColumnCount (length header) (py_strip l))"
    by (simp add: text_line_def data_row_def arity_error_def)
qed

text \<open>
  C3: The dense \<open>obs\<close> array represents the sparse table exactly: each cell
  holds the table's value at the cell's (date, offset, lat, lon, elev) key, or
  NaN, and every value of the table is found in some cell.
\<close>

theorem text_run_represents:
  assumes "text_run lines = Inr st"
  shows "(\<forall>d h s. d < length (ts_dates st) \<longrightarrow> h < length (ts_offsets st) \<longrightarrow>
            s < length (reg_locs (ts_reg st)) \<longrightarrow>
            ti_obs (text_finish st) ! d ! h ! s = nan_lookup (sp_obs (ts_sparse st)) (cell_key (text_coords st) d h s)) \<and>
         (\<forall>k v. map_of (sp_obs (ts_sparse st)) k = Some v \<longrightarrow>
            (\<exists>d h s. d < length (ts_dates st) \<and> h < length (ts_offsets st) \<and> s < length (reg_locs (ts_reg st)) \<and>
               cell_key (text_coords st) d h s = k \<and> ti_obs (text_finish st) ! d ! h ! s = v))"
proof (intro conjI allI impI)
  fix d h s assume "d < length (ts_dates st)" "h < length (ts_offsets st)" "s < length (reg_locs (ts_reg st))"
  then show "ti_obs (text_finish st) ! d ! h ! s = nan_lookup (sp_obs (ts_sparse st)) (cell_key (text_coords st) d h s)"
    by (simp add: text_finish_dense dense3_nth text_coords_def)
next
  fix k v assume kv: "map_of (sp_obs (ts_sparse st)) k = Some v"
  from text_run_inv [OF assms] have "keys_known st" by (simp add: text_inv_def)
  with kv have "key_known st k" unfolding keys_known_def by blast
  then obtain d' h' l where "d' \<in> set (ts_dates st)" "h' \<in> set (ts_offsets st)"
      "l \<in> set (reg_locs (ts_reg st))" and k: "k = loc_key d' h' l"
    by (auto simp: key_known_def)
  then obtain d h s where rng: "d < length (ts_dates st)" "h < length (ts_offsets st)" "s < length (reg_locs (ts_reg st))"
      and at: "ts_dates st ! d = d'" "ts_offsets st ! h = h'" "reg_locs (ts_reg st) ! s = l"
    by (metis in_set_conv_nth)
  have ck: "cell_key (text_coords st) d h s = k" by (simp add: cell_key_def text_coords_def at k)
  with rng kv show "\<exists>d h s. d < length (ts_dates st) \<and> h < length (ts_offsets st) \<and> s < length (reg_locs (ts_reg st)) \<and>
               cell_key (text_coords st) d h s = k \<and> ti_obs (text_finish st) ! d ! h ! s = v"
    by (intro exI [of _ d] exI [of _ h] exI [of _ s])
       (simp add: text_finish_dense dense3_nth text_coords_def nan_lookup_def)
qed

end
