(* ===== verification/TextExamples.thy ===== *)
theory TextExamples
  imports TextFormat
begin

text \<open>
  Concrete files run through the model of \<open>Text\<close>: the example of the
  format's own description (lines 325--347), a file whose rows disagree about
  a location, two ids at one place, a file without an \<open>id\<close> column and a
  row of 257 columns.  Each is evaluated by the simplifier with the
  definitions of the decoder (\<open>text_eval\<close>), and the witnesses of the
  decoder's theorems apply them to these files.
\<close>

section \<open>Example files\<close>

text \<open>The example of \<open>Text.description\<close>, one string per line as \<open>for rowstr in file\<close> yields them.\<close>

definition spec_example :: "string list" where
  "spec_example =
     [''# variable: Temperature\<newline>'', ''# units: $^oC$\<newline>'',
      ''date     offset id      lat     lon      elev obs fcst      p10\<newline>'',
      ''20150101 0      214     49.2    -122.1   92 3.4 2.1     0.91\<newline>'',
      ''20150101 1      214     49.2    -122.1   92 4.7 4.2      0.85\<newline>'',
      ''20150101 0      180     50.3    -120.3   150 0.2 -1.2 0.99\<newline>'']"

definition conflict_example :: "string list" where
  "conflict_example =
     [''date id lat obs fcst\<newline>'', ''1 7 10 0.5 0.4\<newline>'',
      ''2 7 20 0.6 0.5\<newline>'', ''3 7 30 0.7 0.6\<newline>'']"

definition shared_place_example :: "string list" where
  "shared_place_example =
     [''date offset id lat lon elev obs fcst\<newline>'',
      ''20150101 0 1 49.2 -122.1 92 3.4 2.1\<newline>'',
      ''20150101 0 2 49.2 -122.1 92 5 4\<newline>'']"

text \<open>A file without an \<open>id\<close> column: both locations are numbered after the fact.\<close>

definition no_id_example :: "string list" where
  "no_id_example = [''lat obs fcst\<newline>'', ''1 2 3\<newline>'', ''5 6 7\<newline>'']"

text \<open>A header of 257 columns (\<open>obs\<close> and \<open>fcst\<close> among them) and a row as wide.\<close>

definition wide_header :: string where
  "wide_header = concat (replicate 255 ''x '') @ ''obs fcst\<newline>''"

definition wide_row :: string where
  "wide_row = concat (replicate 257 ''1 '') @ ''\<newline>''"

section \<open>Evaluation\<close>

lemmas text_run_eval = text_run_def text_line_def py_split_def is_ws_def text_init_def
  header_line_def header_indices_def data_row_def arity_error_def col_value_def col_req_def
  text_clean_def res_simps Let_def resolve_location_def loc_key_def empty_registry_def
  quantile_fields_def threshold_fields_def quantile_step_def threshold_step_def pyset_add_def key6_def
  loc_set_add_def loc_eq_def conflicts_def nan_to_zero_def comment_line_def store_row_def

lemmas text_eval = text_load_def text_run_def text_line_def py_split_def is_ws_def text_init_def
  header_line_def header_indices_def data_row_def arity_error_def col_value_def col_req_def
  text_clean_def res_simps Let_def resolve_location_def loc_key_def empty_registry_def
  quantile_fields_def threshold_fields_def quantile_step_def threshold_step_def pyset_add_def key6_def
  text_finish_def text_coords_def fill_dense_eq assemble_def dense3_def dense4_def nan_lookup_def
  resolve_ids_def loc_set_add_def loc_eq_def conflicts_def nan_to_zero_def comment_line_def store_row_def

lemma shared_place_loads:
  "text_load shared_place_example =
     Inr \<lparr>ti_dates = [Num 20150101], ti_offsets = [Num 0],
          ti_locations =
            [\<lparr>loc_id = Num 1, loc_lat = Num (492 / 10), loc_lon = Num (- 1221 / 10), loc_elev = Num 92\<rparr>,
             \<lparr>loc_id = Num 2, loc_lat = Num (492 / 10), loc_lon = Num (- 1221 / 10), loc_elev = Num 92\<rparr>],
          ti_thresholds = [], ti_quantiles = [],
          ti_variable = (''Unknown'', ''Unknown units''),
          ti_obs = [[[Num 5, Num 5]]], ti_fcst = [[[Num 4, Num 4]]],
          ti_pit = None, ti_qs = [[[[], []]]], ti_ts = [[[[], []]]], ti_log = []\<rparr>"
  by (simp add: shared_place_example_def text_eval)

section \<open>Witnesses\<close>

lemma spec_example_runs: "\<exists>st. text_run spec_example = Inr st"
  by (simp add: spec_example_def text_run_eval)

lemma spec_example_loads: "\<exists>ti. text_load spec_example = Inr ti"
  using spec_example_runs by (auto simp: text_load_def)

theorem text_load_shape_witness:
  "\<exists>ti. text_load spec_example = Inr ti \<and>
     shape3 (ti_obs ti) (length (ti_dates ti)) (length (ti_offsets ti)) (length (ti_locations ti)) \<and>
     shape3 (ti_fcst ti) (length (ti_dates ti)) (length (ti_offsets ti)) (length (ti_locations ti)) \<and>
     shape4 (ti_qs ti) (length (ti_dates ti)) (length (ti_offsets ti)) (length (ti_locations ti))
       (length (ti_quantiles ti)) \<and>
     shape4 (ti_ts ti) (length (ti_dates ti)) (length (ti_offsets ti)) (length (ti_locations ti))
       (length (ti_thresholds ti)) \<and>
     (\<forall>p. ti_pit ti = Some p \<longrightarrow>
        shape3 p (length (ti_dates ti)) (length (ti_offsets ti)) (length (ti_locations ti)))"
proof -
  obtain ti where h: "text_load spec_example = Inr ti" using spec_example_loads by blast
  from text_load_shape [OF h] h show ?thesis by blast
qed

lemma no_id_example_loads: "\<exists>ti. text_load no_id_example = Inr ti"
  by (simp add: no_id_example_def text_run_eval text_load_def)

theorem text_load_ids_witness:
  "\<exists>ti. text_load no_id_example = Inr ti \<and>
     distinct (map loc_id (ti_locations ti)) \<and> (\<forall>l \<in> set (ti_locations ti). \<not> is_nan (loc_id l))"
proof -
  obtain ti where h: "text_load no_id_example = Inr ti" using no_id_example_loads by blast
  from text_load_ids [OF h] h show ?thesis by blast
qed

theorem text_run_represents_witness:
  "\<exists>st. text_run spec_example = Inr st \<and>
     (\<forall>d h s. d < length (ts_dates st) \<longrightarrow> h < length (ts_offsets st) \<longrightarrow>
        s < length (reg_locs (ts_reg st)) \<longrightarrow>
        ti_obs (text_finish st) ! d ! h ! s = nan_lookup (sp_obs (ts_sparse st)) (cell_key (text_coords st) d h s)) \<and>
     (\<forall>k v. map_of (sp_obs (ts_sparse st)) k = Some v \<longrightarrow>
        (\<exists>d h s. d < length (ts_dates st) \<and> h < length (ts_offsets st) \<and> s < length (reg_locs (ts_reg st)) \<and>
           cell_key (text_coords st) d h s = k \<and> ti_obs (text_finish st) ! d ! h ! s = v))"
proof -
  obtain st where h: "text_run spec_example = Inr st" using spec_example_runs by blast
  from text_run_represents [OF h] h show ?thesis by blast
qed

theorem text_run_header_witness:
  "\<exists>st. text_run spec_example = Inr st \<and>
     ts_header st = map_option py_split (find (\<lambda>l. \<not> is_comment l) spec_example)"
proof -
  obtain st where h: "text_run spec_example = Inr st" using spec_example_runs by blast
  from text_run_header [OF h] h show ?thesis by blast
qed

theorem text_load_arity_error_witness:
  "\<exists>st. text_run [''obs fcst\<newline>''] = Inr st \<and> ts_header st = Some [''obs'', ''fcst''] \<and>
     text_load ([''obs fcst\<newline>''] @ ''1\<newline>'' # []) = Inl (ColumnCount 2 (py_strip ''1\<newline>''))"
proof -
  obtain st where h: "text_run [''obs fcst\<newline>''] = Inr st" and hd: "ts_header st = Some [''obs'', ''fcst'']"
    by (simp add: text_run_eval)
  have "text_load ([''obs fcst\<newline>''] @ ''1\<newline>'' # []) = Inl (ColumnCount (length [''obs'', ''fcst'']) (py_strip ''1\<newline>''))"
    by (rule text_load_arity_error [OF h hd]) (simp_all add: is_comment_def py_split_def is_ws_def)
  with h hd show ?thesis by auto
qed

theorem text_load_missing_obs_witness:
  "\<exists>st. text_run [''# generated\<newline>''] = Inr st \<and> ts_header st = None \<and>
     text_load ([''# generated\<newline>''] @ ''fcst x\<newline>'' # []) = Inl (MissingColumn ''obs'')"
proof -
  obtain st where h: "text_run [''# generated\<newline>''] = Inr st" and hd: "ts_header st = None"
    by (simp add: text_run_eval)
  have "text_load ([''# generated\<newline>''] @ ''fcst x\<newline>'' # []) = Inl (MissingColumn ''obs'')"
    by (rule text_load_missing_obs [OF h hd]) (simp_all add: is_comment_def py_split_def is_ws_def)
  with h hd show ?thesis by auto
qed

lemma spec_prefix_run:
  "\<exists>st. text_run (take 4 spec_example) = Inr st \<and>
     reg_info (ts_reg st) (Num 214) =
       Some \<lparr>loc_id = Num 214, loc_lat = Num (492 / 10), loc_lon = Num (- 1221 / 10), loc_elev = Num 92\<rparr>"
  by (simp add: spec_example_def text_run_eval)

theorem text_run_id_stable_witness:
  "\<exists>st st'. text_run (take 4 spec_example) = Inr st \<and> text_run (take 4 spec_example @ drop 4 spec_example) = Inr st' \<and>
     reg_info (ts_reg st) (Num 214) =
       Some \<lparr>loc_id = Num 214, loc_lat = Num (492 / 10), loc_lon = Num (- 1221 / 10), loc_elev = Num 92\<rparr> \<and>
     reg_info (ts_reg st') (Num 214) =
       Some \<lparr>loc_id = Num 214, loc_lat = Num (492 / 10), loc_lon = Num (- 1221 / 10), loc_elev = Num 92\<rparr> \<and>
     \<lparr>loc_id = Num 214, loc_lat = Num (492 / 10), loc_lon = Num (- 1221 / 10), loc_elev = Num 92\<rparr>
       \<in> set (ti_locations (text_finish st'))"
proof -
  obtain st where h: "text_run (take 4 spec_example) = Inr st"
    and r: "reg_info (ts_reg st) (Num 214) =
       Some \<lparr>loc_id = Num 214, loc_lat = Num (492 / 10), loc_lon = Num (- 1221 / 10), loc_elev = Num 92\<rparr>"
    using spec_prefix_run by blast
  obtain st' where h': "text_run (take 4 spec_example @ drop 4 spec_example) = Inr st'"
    using spec_example_runs by auto
  from text_run_id_stable [OF h h' _ r] h h' r show ?thesis by auto
qed

lemma conflict_example_loads: "\<exists>ti. text_load conflict_example = Inr ti"
  by (simp add: conflict_example_def text_eval)

theorem text_load_one_conflict_witness:
  "\<exists>ti. text_load conflict_example = Inr ti \<and> length (filter is_conflict (ti_log ti)) \<le> 1"
proof -
  obtain ti where h: "text_load conflict_example = Inr ti" using conflict_example_loads by blast
  from text_load_one_conflict [OF h] h show ?thesis by blast
qed

lemma wide_header_split: "py_split wide_header = replicate 255 ''x'' @ [''obs'', ''fcst'']"
proof -
  have "py_split wide_header = replicate 255 ''x'' @ py_split ''obs fcst\<newline>''"
    unfolding wide_header_def using py_split_replicate [of "''x''" 255 "''obs fcst\<newline>''"]
    by (simp add: is_ws_def)
  then show ?thesis by (simp add: py_split_def is_ws_def)
qed

lemma wide_row_split: "py_split wide_row = replicate 257 ''1''"
proof -
  have "py_split wide_row = replicate 257 ''1'' @ py_split ''\<newline>''"
    unfolding wide_row_def using py_split_replicate [of "''1''" 257 "''\<newline>''"]
    by (simp add: is_ws_def)
  then show ?thesis by (simp add: py_split_def is_ws_def)
qed

lemma wide_header_cons: "wide_header = CHR ''x'' # CHR '' '' # concat (replicate 254 ''x '') @ ''obs fcst\<newline>''"
proof -
  have "replicate 255 ''x '' = ''x '' # replicate 254 ''x ''" by (simp add: numeral_eq_Suc)
  then show ?thesis by (simp add: wide_header_def)
qed

lemma wide_row_cons: "wide_row = CHR ''1'' # CHR '' '' # concat (replicate 256 ''1 '') @ ''\<newline>''"
proof -
  have "replicate 257 ''1 '' = ''1 '' # replicate 256 ''1 ''" by (simp add: numeral_eq_Suc)
  then show ?thesis by (simp add: wide_row_def)
qed

lemma wide_header_run:
  "\<exists>st. text_run [wide_header] = Inr st \<and> ts_header st = Some (py_split wide_header)"
proof -
  have "header_indices (py_split wide_header) ''obs'' \<noteq> None"
       "header_indices (py_split wide_header) ''fcst'' \<noteq> None"
    by (simp_all only: header_indices_None wide_header_split) simp_all
  moreover have "text_line st l = header_line st (py_split l)"
    if "l \<noteq> []" "\<not> is_comment l" "ts_header st = None" for st l
    using that by (auto simp: text_line_def is_comment_def split: list.split)
  moreover have "wide_header \<noteq> []" "\<not> is_comment wide_header"
    by (simp_all add: wide_header_cons is_comment_def)
  ultimately show ?thesis
    by (simp add: text_run_def text_init_def header_line_def Let_def)
qed

theorem text_load_wide_row_rejected_witness:
  "\<exists>st. text_run [wide_header] = Inr st \<and> ts_header st = Some (py_split wide_header) \<and>
     length (py_split wide_row) = length (py_split wide_header) \<and> 256 < length (py_split wide_row) \<and>
     text_load ([wide_header] @ wide_row # []) = Inl (ColumnCount 257 (py_strip wide_row))"
proof -
  obtain st where h: "text_run [wide_header] = Inr st" and hd: "ts_header st = Some (py_split wide_header)"
    using wide_header_run by blast
  have "text_load ([wide_header] @ wide_row # []) =
          Inl (ColumnCount (length (py_split wide_header)) (py_strip wide_row))"
    by (rule text_load_wide_row_rejected [OF h hd])
       (simp_all add: wide_row_split, simp_all add: wide_row_cons is_comment_def)
  with h hd show ?thesis by (simp add: wide_row_split wide_header_split)
qed

end
