(* ===== verification/TextTotal.thy ===== *)
theory TextTotal
  imports TextExamples
begin

text \<open>
  When the text decoder succeeds.  The decoder's error paths are theorems of
  \<open>TextFormat\<close>; this theory gives the converse: a file every line of which
  the code can read (\<open>text_wf\<close>) always loads.  The condition is the one the
  code checks, line kind by line kind: a comment has a first word, and a
  \<open>units:\<close> comment a value; the header names \<open>obs\<close> and \<open>fcst\<close> and its
  quantile and threshold columns have numeric suffixes; every later line is a
  comment or a row of the header's width (at most 256 fields, see
  \<open>arity_error\<close>) whose fields are numbers.  The proof is by progress and
  preservation: each kind of line succeeds and keeps the header and its
  column positions.
\<close>

definition comment_ok :: "string \<Rightarrow> bool" where
  "comment_ok l \<longleftrightarrow> (case py_split (drop 1 l) of [] \<Rightarrow> False | w # ws \<Rightarrow> w \<noteq> ''units:'' \<or> ws \<noteq> [])"

definition header_ok :: "string list \<Rightarrow> bool" where
  "header_ok hdr \<longleftrightarrow> ''obs'' \<in> set hdr \<and> ''fcst'' \<in> set hdr \<and>
     list_all (\<lambda>f. parse_float (drop 1 f) \<noteq> None) (quantile_fields hdr @ threshold_fields hdr)"

definition row_ok :: "string list \<Rightarrow> string \<Rightarrow> bool" where
  "row_ok hdr l \<longleftrightarrow> length (py_split l) = length hdr \<and> length hdr \<le> 256 \<and>
     list_all (\<lambda>x. parse_float x \<noteq> None) (py_split l)"

definition line_ok :: "string list \<Rightarrow> string \<Rightarrow> bool" where
  "line_ok hdr l \<longleftrightarrow> l \<noteq> [] \<and> (if is_comment l then comment_ok l else row_ok hdr l)"

definition text_wf :: "string list \<Rightarrow> bool" where
  "text_wf lines \<longleftrightarrow> list_all comment_ok (takeWhile is_comment lines) \<and>
     (case dropWhile is_comment lines of
        [] \<Rightarrow> True
      | h # ds \<Rightarrow> header_ok (py_split h) \<and> list_all (line_ok (py_split h)) ds)"

text \<open>The state after the header: the header and its column positions are set.\<close>

definition after_header :: "string list \<Rightarrow> tstate \<Rightarrow> bool" where
  "after_header hdr st \<longleftrightarrow> ts_header st = Some hdr \<and> ts_indices st = header_indices hdr"

definition small_file :: "string list" where
  "small_file = [''# variable: T\<newline>'', ''# units: K\<newline>'', ''date id obs fcst p10 q0.5\<newline>'',
                 ''20150101 214 3.4 2.1 0.91 3\<newline>'', ''# note\<newline>'', ''20150101 180 -999 -1.2 0.99 -1\<newline>'']"

section \<open>Properties\<close>

lemma header_indices_Some: "header_indices h x = Some i \<Longrightarrow> i < length h \<and> h ! i = x"
proof -
  have "fold (\<lambda>i m. m(h ! i \<mapsto> i)) is m0 x = Some j \<Longrightarrow>
        m0 x = Some j \<or> (j \<in> set is \<and> h ! j = x)" for "is" m0 j
  proof (induction "is" arbitrary: m0)
    case (Cons a "is")
    have "fold (\<lambda>i m. m(h ! i \<mapsto> i)) is (m0(h ! a \<mapsto> a)) x = Some j"
      using Cons.prems by (simp only: fold.simps comp_def)
    from Cons.IH [OF this] show ?case by (auto split: if_splits)
  qed simp
  then show "header_indices h x = Some i \<Longrightarrow> ?thesis" by (fastforce simp: header_indices_def)
qed

lemma text_clean_progress: "parse_float v \<noteq> None \<Longrightarrow> \<exists>x. text_clean v = Inr x"
  by (auto simp: text_clean_def)

lemma row_field_progress:
  assumes "row_ok hdr l" and "header_indices hdr name = Some i"
  shows "\<exists>x. text_clean (py_split l ! i) = Inr x"
proof -
  from assms have "py_split l ! i \<in> set (py_split l)"
    by (auto simp: row_ok_def dest!: header_indices_Some)
  with assms(1) show ?thesis by (auto simp: row_ok_def list_all_iff intro!: text_clean_progress)
qed

lemma col_value_progress:
  "row_ok hdr l \<Longrightarrow> \<exists>x. col_value (header_indices hdr) (py_split l) name d = Inr x"
  by (cases "header_indices hdr name") (auto simp: col_value_def dest: row_field_progress)

lemma col_req_progress:
  "row_ok hdr l \<Longrightarrow> name \<in> set hdr \<Longrightarrow> \<exists>x. col_req (header_indices hdr) (py_split l) name = Inr x"
  by (cases "header_indices hdr name") (auto simp: col_req_def header_indices_None dest: row_field_progress)

lemma quantile_steps_progress:
  assumes "header_ok hdr" "row_ok hdr l" "after_header hdr st"
  shows "\<exists>st'. fold_res (quantile_step (header_indices hdr) (py_split l) k) (quantile_fields hdr) st = Inr st' \<and>
              after_header hdr st'"
proof (rule fold_res_progress [where P = "after_header hdr", OF assms(3)])
  fix f t assume f: "f \<in> set (quantile_fields hdr)" and t: "after_header hdr t"
  then have "f \<in> set hdr" "parse_float (drop 1 f) \<noteq> None"
    using assms(1) by (auto simp: quantile_fields_def header_ok_def list_all_iff)
  with col_req_progress [OF assms(2)] t show "\<exists>t'. quantile_step (header_indices hdr) (py_split l) k f t = Inr t' \<and> after_header hdr t'"
    by (fastforce simp: quantile_step_def after_header_def)
qed

lemma threshold_steps_progress:
  assumes "header_ok hdr" "row_ok hdr l" "after_header hdr st"
  shows "\<exists>st'. fold_res (threshold_step (header_indices hdr) (py_split l) k) (threshold_fields hdr) st = Inr st' \<and>
              after_header hdr st'"
proof (rule fold_res_progress [where P = "after_header hdr", OF assms(3)])
  fix f t assume f: "f \<in> set (threshold_fields hdr)" and t: "after_header hdr t"
  then have "f \<in> set hdr" "parse_float (drop 1 f) \<noteq> None"
    using assms(1) by (auto simp: threshold_fields_def header_ok_def list_all_iff)
  with col_req_progress [OF assms(2)] t show "\<exists>t'. threshold_step (header_indices hdr) (py_split l) k f t = Inr t' \<and> after_header hdr t'"
    by (fastforce simp: threshold_step_def after_header_def)
qed

lemma store_row_after_header [simp]:
  "after_header hdr (store_row st d h reg l w a b c) = after_header hdr st"
  by (simp add: store_row_def after_header_def Let_def)

lemma data_row_progress:
  assumes "header_ok hdr" "row_ok hdr l" "after_header hdr st"
  shows "\<exists>st'. data_row st hdr (py_split l) l = Inr st' \<and> after_header hdr st'"
proof -
  let ?idx = "header_indices hdr" and ?row = "py_split l"
  have idx: "ts_indices st = ?idx" using assms(3) by (simp add: after_header_def)
  have na: "\<not> arity_error (length ?row) (length hdr)" using assms(2) by (simp add: row_ok_def arity_error_def)
  have req: "''obs'' \<in> set hdr" "''fcst'' \<in> set hdr" using assms(1) by (simp_all add: header_ok_def)
  obtain date offset i a b c where
    cv: "col_value ?idx ?row ''date'' (Num 0) = Inr date" "col_value ?idx ?row ''offset'' (Num 0) = Inr offset"
        "col_value ?idx ?row ''id'' NaN = Inr i" "col_value ?idx ?row ''lat'' NaN = Inr a"
        "col_value ?idx ?row ''lon'' NaN = Inr b" "col_value ?idx ?row ''elev'' NaN = Inr c"
    using col_value_progress [OF assms(2)] by meson
  obtain reg loc w where res: "resolve_location (ts_reg st) i a b c = (reg, loc, w)"
    by (cases "resolve_location (ts_reg st) i a b c") blast
  obtain v_obs v_fcst where
    cr: "col_req ?idx ?row ''obs'' = Inr v_obs" "col_req ?idx ?row ''fcst'' = Inr v_fcst"
    using col_req_progress [OF assms(2) req(1)] col_req_progress [OF assms(2) req(2)] by blast
  obtain v_pit where
    pit: "(case ?idx ''pit'' of None \<Rightarrow> Inr None | Some _ \<Rightarrow> map_sum id Some (col_req ?idx ?row ''pit'')) = Inr v_pit"
  proof (cases "?idx ''pit''")
    case (Some j)
    then have "''pit'' \<in> set hdr" by (metis header_indices_Some nth_mem)
    with col_req_progress [OF assms(2)] Some that show ?thesis by fastforce
  qed (use that in simp)
  have "after_header hdr (store_row st date offset reg loc w v_obs v_fcst v_pit)" using assms(3) by simp
  then obtain st2 where
    q: "fold_res (quantile_step ?idx ?row (loc_key date offset loc)) (quantile_fields hdr)
          (store_row st date offset reg loc w v_obs v_fcst v_pit) = Inr st2" "after_header hdr st2"
    using quantile_steps_progress [OF assms(1,2)] by blast
  then obtain st3 where
    t: "fold_res (threshold_step ?idx ?row (loc_key date offset loc)) (threshold_fields hdr) st2 = Inr st3"
       "after_header hdr st3"
    using threshold_steps_progress [OF assms(1,2)] by blast
  have "data_row st hdr ?row l = Inr st3"
    unfolding data_row_def Let_def idx using na cv res cr pit q(1) t(1) by simp
  with t(2) show ?thesis by blast
qed

lemma comment_progress:
  assumes "is_comment l" "comment_ok l"
  shows "\<exists>st'. text_line st l = Inr st' \<and> ts_header st' = ts_header st \<and> ts_indices st' = ts_indices st"
proof -
  from assms(1) obtain rest where l: "l = CHR ''#'' # rest"
    by (cases l) (auto simp: is_comment_def)
  with assms(2) show ?thesis
    by (auto simp: text_line_def comment_line_def comment_ok_def split: list.splits)
qed

lemma header_progress:
  assumes "\<not> is_comment h" "header_ok (py_split h)" "ts_header st = None"
  shows "\<exists>st'. text_line st h = Inr st' \<and> after_header (py_split h) st'"
proof -
  have "h \<noteq> []" using assms(2) by (auto simp: header_ok_def py_split_def)
  with assms(1) obtain c rest where h: "h = c # rest" "c \<noteq> CHR ''#''"
    by (cases h) (auto simp: is_comment_def)
  with assms(2,3) show ?thesis
    by (simp add: text_line_def header_line_def header_indices_None header_ok_def after_header_def Let_def)
qed

lemma line_progress:
  assumes "header_ok hdr" "line_ok hdr l" "after_header hdr st"
  shows "\<exists>st'. text_line st l = Inr st' \<and> after_header hdr st'"
proof (cases "is_comment l")
  case True
  with assms(2,3) comment_progress [of l st] show ?thesis by (auto simp: line_ok_def after_header_def)
next
  case False
  with assms(2) obtain c rest where l: "l = c # rest" "c \<noteq> CHR ''#''" and r: "row_ok hdr l"
    by (cases l) (auto simp: line_ok_def is_comment_def)
  have "text_line st l = data_row st hdr (py_split l) l"
    using l assms(3) by (simp add: text_line_def after_header_def)
  with data_row_progress [OF assms(1) r assms(3)] show ?thesis by simp
qed

lemma text_run_progress:
  assumes "text_wf lines"
  shows "\<exists>st. text_run lines = Inr st"
proof -
  let ?cs = "takeWhile is_comment lines" and ?f = "\<lambda>l st. text_line st l"
  have "\<exists>st1. fold_res ?f ?cs text_init = Inr st1 \<and> ts_header st1 = None"
  proof (rule fold_res_progress [where P = "\<lambda>t. ts_header t = None"])
    fix x and t :: tstate assume "x \<in> set ?cs" "ts_header t = None"
    moreover from this(1) have "is_comment x" "comment_ok x"
      using assms by (auto simp: text_wf_def list_all_iff dest: set_takeWhileD)
    ultimately show "\<exists>t'. ?f x t = Inr t' \<and> ts_header t' = None"
      using comment_progress [of x t] by auto
  qed (simp add: text_init_def)
  then obtain st1 where s1: "fold_res ?f ?cs text_init = Inr st1" "ts_header st1 = None" by blast
  show ?thesis
  proof (cases "dropWhile is_comment lines")
    case Nil
    then have "lines = ?cs" by (metis append_Nil2 takeWhile_dropWhile_id)
    with s1 show ?thesis by (metis text_run_def)
  next
    case (Cons h ds)
    then have split: "lines = ?cs @ h # ds" and nc: "\<not> is_comment h"
      by (simp_all add: dropWhile_eq_Cons_conv)
    from assms Cons have hd: "header_ok (py_split h)" and ls: "list_all (line_ok (py_split h)) ds"
      by (simp_all add: text_wf_def)
    obtain st2 where s2: "text_line st1 h = Inr st2" "after_header (py_split h) st2"
      using header_progress [OF nc hd s1(2)] by blast
    have "\<exists>st3. fold_res ?f ds st2 = Inr st3 \<and> after_header (py_split h) st3"
      by (rule fold_res_progress [where P = "after_header (py_split h)", OF s2(2)])
         (use line_progress [OF hd] ls in \<open>auto simp: list_all_iff\<close>)
    then obtain st3 where "fold_res ?f ds st2 = Inr st3" by blast
    with s1(1) s2(1) have "text_run lines = Inr st3"
      by (subst split) (simp add: text_run_def fold_res_append)
    then show ?thesis by blast
  qed
qed

text \<open>
  C23: Every well-formed file loads: when every comment has a first word
  (and a \<open>units:\<close> comment a value), the header names \<open>obs\<close> and \<open>fcst\<close> with
  numeric quantile and threshold suffixes, and every later line is a comment
  or a row of numbers of the header's width, at most 256, \<open>Text(filename)\<close>
  returns an input and raises nothing.
\<close>

theorem text_load_progress:
  assumes "text_wf lines"
  shows "\<exists>r. text_load lines = Inr r"
  using text_run_progress [OF assms] by (auto simp: text_load_def)

theorem text_load_progress_witness:
  "text_wf small_file \<and> (\<exists>r. text_load small_file = Inr r)"
proof -
  have wf: "text_wf small_file"
    by (simp add: small_file_def text_wf_def comment_ok_def header_ok_def row_ok_def line_ok_def
        is_comment_def py_split_def is_ws_def quantile_fields_def threshold_fields_def parse_defs)
  show ?thesis using text_load_progress [OF wf] wf by simp
qed

end
