(* ===== verification/Dispatcher.thy ===== *)
theory Dispatcher
  imports Comps TextTotal
begin

text \<open>
  The entry point of \<open>src/verif/input.py\<close> and its base class:
  \<open>get_input\<close> (lines 14--25) tries the three decoders in order and the
  \<open>Input\<close> class (lines 28--74) derives the display names of a data set
  from its path and lists the fields it offers.  A file is what the three
  probes of \<open>get_input\<close> see of it: whether the path exists, the netCDF
  view the netCDF library gives of it (\<open>None\<close> when it does not open as
  netCDF) and its lines as a text file.  The decoded input is one of the
  three results.  The test double \<open>Fake\<close>
  (lines 591--602) is a fourth subclass.

  The properties: an existing well-formed text file that does not open as
  netCDF is always decoded, by \<open>Text\<close>; \<open>name\<close> and \<open>shortname\<close>
  are characterised over \<open>rfind\<close>.
\<close>

record pyfile =
  pf_exists :: bool
  pf_nc :: "ncfile option"
  pf_lines :: "string list"

datatype input = InNetcdf nc_input | InComps comps_input | InText text_input

section \<open>Python's \<open>str.rfind\<close> and slicing\<close>

text \<open>\<open>s.rfind(c)\<close>: the last index of \<open>c\<close> in \<open>s\<close>, or -1.\<close>

definition py_rfind :: "char \<Rightarrow> string \<Rightarrow> int" where
  "py_rfind c s = (case filter (\<lambda>i. s ! i = c) [0..<length s] of [] \<Rightarrow> -1 | is \<Rightarrow> int (last is))"

text \<open>\<open>s[i:]\<close> and \<open>s[:i]\<close>: a negative index counts from the end, clamped at 0.\<close>

definition py_slice_from :: "int \<Rightarrow> string \<Rightarrow> string" where
  "py_slice_from i s = (if i < 0 then drop (nat (int (length s) + i)) s else drop (nat i) s)"

definition py_slice_to :: "int \<Rightarrow> string \<Rightarrow> string" where
  "py_slice_to i s = (if i < 0 then take (nat (int (length s) + i)) s else take (nat i) s)"

section \<open>The \<open>Input\<close> base class\<close>

text \<open>Lines 62--67, \<open>Input.name\<close>: the path after its last \<open>/\<close>.\<close>

definition input_name :: "string \<Rightarrow> string" where
  "input_name fullname = (let i = py_rfind CHR ''/'' fullname in py_slice_from (i + 1) fullname)"

text \<open>Lines 69--74, \<open>Input.shortname\<close>: the name up to its last \<open>.\<close>.\<close>

definition input_shortname :: "string \<Rightarrow> string" where
  "input_shortname fullname = (let n = input_name fullname; i = py_rfind CHR ''.'' n in py_slice_to i n)"

text \<open>The fields of \<open>verif.field\<close> (outside \<open>src/\<close>) the base class lists.\<close>

datatype field = Obs | Deterministic | Threshold fl | Quantile fl

text \<open>Lines 56--60, \<open>Input.get_variables\<close>.\<close>

definition get_variables :: "fl list \<Rightarrow> fl list \<Rightarrow> field list" where
  "get_variables thresholds quantiles =
     [Obs, Deterministic] @ map Threshold thresholds @ map Quantile quantiles"

section \<open>\<open>Fake\<close>\<close>

text \<open>
  \<open>name\<close> is a property of \<open>Input\<close> without a setter (lines 62--67), so
  assigning it on an instance raises \<open>AttributeError\<close>, whatever the value.
\<close>

definition input_set_name :: "'a \<Rightarrow> string \<Rightarrow> 'a res" where
  "input_set_name obj v = Inl (AttributeError ''can't set attribute'')"

text \<open>The attributes \<open>Fake.__init__\<close> sets (lines 591--596).\<close>

record fake =
  fk_obs :: arr3
  fk_fcst :: arr3
  fk_fullname :: string

text \<open>Lines 592--596, \<open>Fake.__init__\<close>: three attributes, then \<open>self.name = "Fake"\<close>.\<close>

definition fake_init :: "arr3 \<Rightarrow> arr3 \<Rightarrow> fake res" where
  "fake_init obs fcst = input_set_name \<lparr>fk_obs = obs, fk_fcst = fcst, fk_fullname = ''Fake''\<rparr> ''Fake''"

text \<open>Lines 598--602, \<open>get_obs\<close> and \<open>get_mean\<close>.\<close>

definition fake_get_obs :: "fake \<Rightarrow> arr3" where
  "fake_get_obs s = fk_obs s"

definition fake_get_mean :: "fake \<Rightarrow> arr3" where
  "fake_get_mean s = fk_fcst s"

section \<open>\<open>get_input\<close>\<close>

text \<open>Lines 562--564, \<open>Text.is_valid\<close>: every file is accepted.\<close>

definition text_is_valid :: "pyfile \<Rightarrow> bool" where
  "text_is_valid pf = True"

text \<open>
  Lines 14--25: \<open>verif.util.error\<close> aborts with the message; each decoder
  reads the file its probe opened.
\<close>

definition get_input :: "string \<Rightarrow> pyfile \<Rightarrow> input res" where
  "get_input filename pf =
     (if \<not> pf_exists pf then Inl (FileNotFound (''File '' @ [CHR 0x27] @ filename @ [CHR 0x27] @ '' does not exist''))
      else if netcdf_is_valid (pf_nc pf) then rbind (netcdf_load (the (pf_nc pf))) (\<lambda>i. Inr (InNetcdf i))
      else if comps_is_valid (pf_nc pf) then rbind (comps_load (the (pf_nc pf))) (\<lambda>i. Inr (InComps i))
      else if text_is_valid pf then rbind (text_load (pf_lines pf)) (\<lambda>i. Inr (InText i))
      else Inl (InvalidInput (''File '' @ [CHR 0x27] @ filename @ [CHR 0x27] @ '' is not a valid input file'')))"

text \<open>A netCDF file that carries the misspelt \<open>Convensions\<close> and not \<open>Convension\<close>.\<close>

definition convensions_file :: ncfile where
  "convensions_file = \<lparr>nc_attrs = [(''Convensions'', ''comps'')], nc_vars = []\<rparr>"

section \<open>Properties\<close>

lemma py_rfind_absent: "c \<notin> set s \<Longrightarrow> py_rfind c s = -1"
proof -
  assume "c \<notin> set s"
  then have "filter (\<lambda>i. s ! i = c) [0..<length s] = []"
    by (auto simp: filter_empty_conv in_set_conv_nth)
  then show ?thesis by (simp add: py_rfind_def)
qed

lemma py_rfind_last: "c \<notin> set q \<Longrightarrow> py_rfind c (p @ c # q) = int (length p)"
proof -
  assume q: "c \<notin> set q"
  let ?s = "p @ c # q" and ?P = "\<lambda>i. (p @ c # q) ! i = c"
  have up: "[0..<length ?s] = [0..<length p] @ length p # [Suc (length p)..<length ?s]"
  proof -
    have "[0..<length p + Suc (length q)] = [0..<length p] @ [length p..<length p + Suc (length q)]"
      by (rule upt_add_eq_append) simp
    also have "[length p..<length p + Suc (length q)] = length p # [Suc (length p)..<length p + Suc (length q)]"
      by (rule upt_conv_Cons) simp
    finally show ?thesis by simp
  qed
  have f0: "filter ?P [Suc (length p)..<length ?s] = []"
  proof (rule filter_False, rule ballI)
    fix i assume "i \<in> set [Suc (length p)..<length ?s]"
    then obtain k where i: "i = Suc (length p) + k" "k < length q"
      by (auto dest!: le_Suc_ex)
    then have "?s ! i = q ! k" by (simp add: nth_append)
    then show "\<not> ?P i" using q i(2) by (metis nth_mem)
  qed
  have "?P (length p)" by simp
  then have filt: "filter ?P [0..<length ?s] = filter ?P [0..<length p] @ [length p]"
    by (simp only: up filter_append filter.simps(2) if_True f0) simp
  obtain y ys where yys: "filter ?P [0..<length p] @ [length p] = y # ys"
    by (cases "filter ?P [0..<length p]") auto
  then have "last (y # ys) = length p" by (metis last_snoc)
  then show ?thesis by (simp only: py_rfind_def filt yys list.case)
qed

lemma py_slice_from_nat: "py_slice_from (int n) s = drop n s"
  by (simp add: py_slice_from_def)

lemma py_slice_to_nat: "py_slice_to (int n) s = take n s"
  by (simp add: py_slice_to_def)

lemma py_slice_to_minus1: "py_slice_to (-1) s = butlast s"
  by (cases "s = []") (simp_all add: py_slice_to_def butlast_conv_take nat_diff_distrib')

text \<open>
  C27: \<open>Input.name\<close> is the part of the path after its last \<open>/\<close> (the whole
  path when there is none): the path is a directory prefix followed by the
  name, and the name holds no \<open>/\<close>.
\<close>

theorem input_name_split:
  "\<exists>p. fullname = p @ input_name fullname \<and> (p = [] \<or> last p = CHR ''/'') \<and>
       CHR ''/'' \<notin> set (input_name fullname)"
proof (cases "CHR ''/'' \<in> set fullname")
  case True
  then obtain p q where s: "fullname = p @ CHR ''/'' # q" and q: "CHR ''/'' \<notin> set q"
    by (meson split_list_last)
  have i: "int (length p) + 1 = int (Suc (length p))" by simp
  have "input_name fullname = q"
    by (simp only: s input_name_def Let_def py_rfind_last [OF q] i py_slice_from_nat) simp
  then show ?thesis using s q by (intro exI [of _ "p @ [CHR ''/'']"]) simp
next
  case False
  then have "input_name fullname = fullname"
    by (simp add: input_name_def py_rfind_absent py_slice_from_nat [of 0, simplified])
  then show ?thesis using False by simp
qed

text \<open>
  C28: When the name holds a \<open>.\<close>, \<open>Input.shortname\<close> is the name up to its
  last \<open>.\<close>: the name is the short name, a dot and an extension with no dot.
\<close>

theorem input_shortname_ext:
  assumes "CHR ''.'' \<in> set (input_name fullname)"
  shows "\<exists>ext. input_name fullname = input_shortname fullname @ CHR ''.'' # ext \<and> CHR ''.'' \<notin> set ext"
proof -
  obtain p q where s: "input_name fullname = p @ CHR ''.'' # q" and q: "CHR ''.'' \<notin> set q"
    using assms by (meson split_list_last)
  have "input_shortname fullname = p"
    by (simp add: input_shortname_def s py_rfind_last q py_slice_to_nat)
  then show ?thesis using s q by simp
qed

theorem input_shortname_ext_witness:
  "CHR ''.'' \<in> set (input_name ''obs/run.2/kf.nc'') \<and> input_name ''obs/run.2/kf.nc'' = ''kf.nc'' \<and>
   input_shortname ''obs/run.2/kf.nc'' = ''kf''"
proof -
  have n: "input_name ''obs/run.2/kf.nc'' = ''kf.nc''"
    by (simp add: input_name_def py_rfind_last [of _ "''kf.nc''" "''obs/run.2''", simplified] py_slice_from_def)
  obtain ext where "''kf.nc'' = input_shortname ''obs/run.2/kf.nc'' @ CHR ''.'' # ext" "CHR ''.'' \<notin> set ext"
    using input_shortname_ext [of "''obs/run.2/kf.nc''"] by (auto simp: n)
  then have "input_shortname ''obs/run.2/kf.nc'' = ''kf''"
    by (cases ext rule: rev_cases) (auto simp: append_eq_append_conv2 Cons_eq_append_conv)
  then show ?thesis by (simp add: n)
qed

text \<open>
  C29: When the name holds no \<open>.\<close>, \<open>rfind\<close> returns -1 and the slice
  \<open>name[:-1]\<close> drops the last character: \<open>Input.shortname\<close> of
  \<open>dir/data\<close> is \<open>dat\<close>.
\<close>

theorem input_shortname_no_dot:
  assumes "CHR ''.'' \<notin> set (input_name fullname)"
  shows "input_shortname fullname = butlast (input_name fullname)"
  using assms by (simp add: input_shortname_def py_rfind_absent py_slice_to_minus1)

theorem input_shortname_no_dot_witness:
  "CHR ''.'' \<notin> set (input_name ''dir/data'') \<and> input_shortname ''dir/data'' = ''dat''"
proof -
  have n: "input_name ''dir/data'' = ''data''"
    by (simp add: input_name_def py_rfind_last [of _ "''data''" "''dir''", simplified] py_slice_from_def)
  show ?thesis using input_shortname_no_dot [of "''dir/data''"] by (simp add: n)
qed

text \<open>
  The dispatch on concrete files: a missing path; the example
  CF file goes to \<open>NetcdfCf\<close>; the example \<open>Comps\<close> file to \<open>Comps\<close>,
  whose fields are the observation, the forecast, its two thresholds and
  its quantile; a netCDF file with the attribute \<open>Convensions\<close> but no
  \<open>Convension\<close> is rejected by \<open>Comps.is_valid\<close> and read as text.
\<close>

theorem get_input_examples:
  "get_input ''x'' \<lparr>pf_exists = False, pf_nc = None, pf_lines = []\<rparr> = Inl (FileNotFound ''File 'x' does not exist'') \<and>
   rbind (get_input ''f.nc'' \<lparr>pf_exists = True, pf_nc = Some netcdf_example, pf_lines = []\<rparr>)
     (\<lambda>i. Inr (case i of InNetcdf n \<Rightarrow> Some (ni_variable n) | _ \<Rightarrow> None)) = Inr (Some (''Precipitation'', ''$mm$'')) \<and>
   rbind (get_input ''c.nc'' \<lparr>pf_exists = True, pf_nc = Some comps_example, pf_lines = []\<rparr>)
     (\<lambda>i. case i of InComps c \<Rightarrow> Inr (get_variables (ci_thresholds c) (ci_quantiles c)) | _ \<Rightarrow> Inr []) =
     Inr [Obs, Deterministic, Threshold (Num 10), Threshold (Num (3 / 10)), Quantile (Num (1 / 2))] \<and>
   rbind (get_input ''o.nc'' \<lparr>pf_exists = True, pf_nc = Some convensions_file, pf_lines = [''# variable: T\<newline>'']\<rparr>)
     (\<lambda>i. Inr (case i of InText t \<Rightarrow> Some (ti_variable t) | _ \<Rightarrow> None)) = Inr (Some (''T'', ''Unknown units''))"
  by (simp add: get_input_def text_is_valid_def netcdf_is_valid_def comps_is_valid_def nc_hasattr_def
        nc_getattr_def netcdf_example_def convensions_file_def comps_eval comps_example_def netcdf_load_def netcdf_accessors
        read_locations_def nc_locations_def clean_fl_def netcdf_variable_def units_label_def upt_conv_Cons
        text_eval cells_def get_variables_def)

text \<open>
  C30: An existing file that does not open as netCDF and is a well-formed
  text file (\<open>text_wf\<close>) is always decoded, by \<open>Text\<close>: \<open>get_input\<close>
  returns a text input and raises nothing.
\<close>

theorem get_input_text_progress:
  assumes "pf_exists pf" and "pf_nc pf = None" and "text_wf (pf_lines pf)"
  shows "\<exists>i. get_input filename pf = Inr (InText i)"
proof -
  obtain st where "text_run (pf_lines pf) = Inr st" using text_run_progress [OF assms(3)] by blast
  with assms(1,2) show ?thesis
    by (simp add: get_input_def netcdf_is_valid_def comps_is_valid_def text_is_valid_def text_load_def)
qed

theorem get_input_text_progress_witness:
  "pf_exists \<lparr>pf_exists = True, pf_nc = None, pf_lines = small_file\<rparr> \<and>
   pf_nc \<lparr>pf_exists = True, pf_nc = None, pf_lines = small_file\<rparr> = None \<and>
   text_wf small_file \<and>
   (\<exists>i. get_input ''obs.txt'' \<lparr>pf_exists = True, pf_nc = None, pf_lines = small_file\<rparr> = Inr (InText i))"
proof -
  have wf: "text_wf small_file"
    by (simp add: small_file_def text_wf_def comment_ok_def header_ok_def row_ok_def line_ok_def
        is_comment_def py_split_def is_ws_def quantile_fields_def threshold_fields_def parse_defs)
  show ?thesis using get_input_text_progress [of "\<lparr>pf_exists = True, pf_nc = None, pf_lines = small_file\<rparr>"] wf by simp
qed

end
