(* ===== verification/TextBehaviour.thy ===== *)
theory TextBehaviour
  imports TextTotal
begin

text \<open>
  Behaviours of the text decoder over all files, each the general form of a
  divergence from the format's description: the value tables are keyed by
  place, not by location; rows without an \<open>id\<close> column never share a
  location; a file without a header loads empty; two kinds of metadata line
  raise instead of being ignored.
\<close>

text \<open>The header and its column positions agree in every state of a run.\<close>

definition indices_ok :: "tstate \<Rightarrow> bool" where
  "indices_ok st \<longleftrightarrow> (case ts_header st of None \<Rightarrow> True | Some h \<Rightarrow> ts_indices st = header_indices h)"

section \<open>Properties\<close>

lemma data_row_Inr_id:
  assumes "data_row st header row r = Inr st'"
  obtains date offset i a b c reg l w v_obs v_fcst v_pit st2 where
    "col_value (ts_indices st) row ''id'' NaN = Inr i"
    "resolve_location (ts_reg st) i a b c = (reg, l, w)"
    "fold_res (quantile_step (ts_indices st) row (loc_key date offset l)) (quantile_fields header)
       (store_row st date offset reg l w v_obs v_fcst v_pit) = Inr st2"
    "fold_res (threshold_step (ts_indices st) row (loc_key date offset l)) (threshold_fields header) st2 = Inr st'"
  using assms that
  by (auto simp: data_row_def Let_def split: if_splits sum.splits prod.splits option.splits)

lemma quantile_steps_indices:
  "fold_res (quantile_step idx row k) fs st = Inr st' \<Longrightarrow> ts_indices st' = ts_indices st \<and> ts_reg st' = ts_reg st"
  by (rule fold_res_invariant [where P = "\<lambda>t. ts_indices t = ts_indices st \<and> ts_reg t = ts_reg st"])
     (auto dest!: quantile_step_Inr)

lemma threshold_steps_indices:
  "fold_res (threshold_step idx row k) fs st = Inr st' \<Longrightarrow> ts_indices st' = ts_indices st \<and> ts_reg st' = ts_reg st"
  by (rule fold_res_invariant [where P = "\<lambda>t. ts_indices t = ts_indices st \<and> ts_reg t = ts_reg st"])
     (auto dest!: threshold_step_Inr)

lemma data_row_indices_reg:
  assumes "data_row st header row r = Inr st'"
  shows "ts_header st' = ts_header st \<and> ts_indices st' = ts_indices st \<and>
         (\<exists>i a b c l w. col_value (ts_indices st) row ''id'' NaN = Inr i \<and>
                        resolve_location (ts_reg st) i a b c = (ts_reg st', l, w))"
proof -
  from assms obtain date offset i a b c reg l w v_obs v_fcst v_pit st2 where
    i: "col_value (ts_indices st) row ''id'' NaN = Inr i"
    and res: "resolve_location (ts_reg st) i a b c = (reg, l, w)"
    and q: "fold_res (quantile_step (ts_indices st) row (loc_key date offset l)) (quantile_fields header)
       (store_row st date offset reg l w v_obs v_fcst v_pit) = Inr st2"
    and t: "fold_res (threshold_step (ts_indices st) row (loc_key date offset l)) (threshold_fields header) st2 = Inr st'"
    by (rule data_row_Inr_id)
  have "ts_indices st' = ts_indices st" "ts_reg st' = reg"
    using quantile_steps_indices [OF q] threshold_steps_indices [OF t] by (simp_all add: store_row_def Let_def)
  moreover have "ts_header st' = ts_header st" using data_row_frame [OF assms] by simp
  ultimately show ?thesis using i res by blast
qed

lemma text_line_indices_ok:
  assumes "indices_ok st" and "text_line st l = Inr st'"
  shows "indices_ok st'"
proof (cases l)
  case Nil
  with assms(2) show ?thesis by (simp add: text_line_def)
next
  case (Cons c rest)
  show ?thesis
  proof (cases "c = CHR ''#''")
    case True
    with assms Cons show ?thesis
      by (auto simp: text_line_def comment_line_def indices_ok_def split: list.splits if_splits option.splits)
  next
    case False
    show ?thesis
    proof (cases "ts_header st")
      case None
      with assms Cons False show ?thesis
        by (auto simp: text_line_def header_line_def indices_ok_def Let_def split: if_splits)
    next
      case (Some h)
      with assms Cons False data_row_indices_reg [of st h "py_split l" l st'] show ?thesis
        by (auto simp: text_line_def indices_ok_def Let_def)
    qed
  qed
qed

lemma run_indices_ok: "fold_res (\<lambda>l st. text_line st l) ls st0 = Inr st \<Longrightarrow> indices_ok st0 \<Longrightarrow> indices_ok st"
  by (rule fold_res_invariant [where P = indices_ok]) (auto intro: text_line_indices_ok)

lemma text_run_indices:
  "text_run xs = Inr st \<Longrightarrow> ts_header st = Some h \<Longrightarrow> ts_indices st = header_indices h"
  using run_indices_ok [of xs text_init st] by (simp add: text_run_def text_init_def indices_ok_def)

lemma loc_set_add_nan: "loc_id l = NaN \<Longrightarrow> loc_set_add l ls = ls @ [l]"
  by (rule loc_set_add_fresh) (auto simp: is_nan_def)

lemma no_id_row_new_location:
  assumes "ts_header st = Some h" "ts_indices st = header_indices h" "''id'' \<notin> set h"
    and "\<not> is_comment l" "text_line st l = Inr st'"
  shows "ts_header st' = Some h \<and> ts_indices st' = header_indices h \<and>
         length (reg_locs (ts_reg st')) = Suc (length (reg_locs (ts_reg st)))"
proof -
  have "l \<noteq> []" using assms(5) by (cases l) (simp_all add: text_line_def)
  with assms(4) obtain c rest where l: "l = c # rest" "c \<noteq> CHR ''#''"
    by (cases l) (auto simp: is_comment_def)
  with assms(1,5) have dr: "data_row st h (py_split l) l = Inr st'" by (simp add: text_line_def)
  from data_row_indices_reg [OF dr] obtain i a b c' loc w where
    hi: "ts_header st' = ts_header st" "ts_indices st' = ts_indices st"
    and i: "col_value (ts_indices st) (py_split l) ''id'' NaN = Inr i"
    and res: "resolve_location (ts_reg st) i a b c' = (ts_reg st', loc, w)" by blast
  have "header_indices h ''id'' = None" using assms(3) by (simp add: header_indices_None)
  then have "i = NaN" using i assms(2) by (simp add: col_value_def)
  then have "reg_locs (ts_reg st') = reg_locs (ts_reg st) @
      [\<lparr>loc_id = NaN, loc_lat = nan_to_zero a, loc_lon = nan_to_zero b, loc_elev = nan_to_zero c'\<rparr>]"
    using res resolve_location_new [of i "ts_reg st" a b c'] by (simp add: Let_def loc_set_add_nan)
  with hi assms(1,2) show ?thesis by simp
qed

text \<open>
  C14: Rows without an \<open>id\<close> column never share a location: after the header,
  each data row creates one more location, even when two rows give the same
  place, because a location with a NaN id equals no other.  The locations are
  numbered afterwards, so a file of \<open>n\<close> such rows has \<open>n\<close> locations.
\<close>

theorem text_run_no_id_rows:
  assumes "text_run xs = Inr st" and "ts_header st = Some h" and "''id'' \<notin> set h"
    and "list_all (\<lambda>l. \<not> is_comment l) ds" and "text_run (xs @ ds) = Inr st'"
  shows "length (reg_locs (ts_reg st')) = length (reg_locs (ts_reg st)) + length ds"
proof -
  have "ts_indices st = header_indices h" using text_run_indices [OF assms(1,2)] .
  moreover have "fold_res (\<lambda>l st. text_line st l) ds st = Inr st'"
    using assms(1,5) by (simp add: text_run_append)
  ultimately show ?thesis using assms(2,3,4)
  proof (induction ds arbitrary: st)
    case Nil
    then show ?case by simp
  next
    case (Cons l ds)
    then obtain st1 where s1: "text_line st l = Inr st1" and rest: "fold_res (\<lambda>l st. text_line st l) ds st1 = Inr st'"
      by (auto split: sum.splits)
    from no_id_row_new_location [OF Cons.prems(3) Cons.prems(1) Cons.prems(4) _ s1] Cons.prems(5)
    have "ts_header st1 = Some h" "ts_indices st1 = header_indices h"
      "length (reg_locs (ts_reg st1)) = Suc (length (reg_locs (ts_reg st)))" by simp_all
    with Cons.IH [OF _ rest] Cons.prems(4,5) show ?case by simp
  qed
qed

theorem text_run_no_id_rows_witness:
  "\<exists>st st'. text_run [''lat lon obs fcst\<newline>''] = Inr st \<and> ts_header st = Some [''lat'', ''lon'', ''obs'', ''fcst''] \<and>
     ''id'' \<notin> set [''lat'', ''lon'', ''obs'', ''fcst''] \<and>
     list_all (\<lambda>l. \<not> is_comment l) [''1 2 3 4\<newline>'', ''1 2 5 6\<newline>''] \<and>
     text_run ([''lat lon obs fcst\<newline>''] @ [''1 2 3 4\<newline>'', ''1 2 5 6\<newline>'']) = Inr st' \<and>
     length (reg_locs (ts_reg st')) = length (reg_locs (ts_reg st)) + length [''1 2 3 4\<newline>'', ''1 2 5 6\<newline>'']"
proof -
  obtain st where h: "text_run [''lat lon obs fcst\<newline>''] = Inr st"
    and hd: "ts_header st = Some [''lat'', ''lon'', ''obs'', ''fcst'']"
    by (simp add: text_run_eval)
  obtain st' where h': "text_run ([''lat lon obs fcst\<newline>''] @ [''1 2 3 4\<newline>'', ''1 2 5 6\<newline>'']) = Inr st'"
    by (simp add: text_run_eval)
  have c: "list_all (\<lambda>l. \<not> is_comment l) [''1 2 3 4\<newline>'', ''1 2 5 6\<newline>'']" by (simp add: is_comment_def)
  from text_run_no_id_rows [OF h hd _ c h'] h hd c h' show ?thesis by auto
qed

lemma resolve_ids_place:
  assumes "s < length ls"
  shows "loc_lat (resolve_ids ls ! s) = loc_lat (ls ! s) \<and> loc_lon (resolve_ids ls ! s) = loc_lon (ls ! s) \<and>
         loc_elev (resolve_ids ls ! s) = loc_elev (ls ! s)"
proof -
  let ?p = "\<lambda>l. (loc_lat l, loc_lon l, loc_elev l)"
  have "map ?p (resolve_ids ls) = map ?p ls" by (simp add: resolve_ids_def Let_def assign_ids_coords)
  then have "map ?p (resolve_ids ls) ! s = map ?p ls ! s" by simp
  with assms show ?thesis by (simp add: resolve_ids_def Let_def)
qed

text \<open>
  C11: The value tables are keyed by place, not by location: two locations of
  a loaded file at the same latitude, longitude and elevation have the same
  observation and the same forecast in every cell, even when their ids differ,
  because \<open>key = (date, offset, lat, lon, elev)\<close> leaves the id out and a
  later row at that place overwrites an earlier one.
\<close>

theorem text_load_keyed_by_place:
  assumes "text_load lines = Inr ti"
    and "d < length (ti_dates ti)" "h < length (ti_offsets ti)"
    and "s < length (ti_locations ti)" "s' < length (ti_locations ti)"
    and "loc_lat (ti_locations ti ! s) = loc_lat (ti_locations ti ! s')"
    and "loc_lon (ti_locations ti ! s) = loc_lon (ti_locations ti ! s')"
    and "loc_elev (ti_locations ti ! s) = loc_elev (ti_locations ti ! s')"
  shows "ti_obs ti ! d ! h ! s = ti_obs ti ! d ! h ! s' \<and> ti_fcst ti ! d ! h ! s = ti_fcst ti ! d ! h ! s'"
proof -
  obtain st where ti: "ti = text_finish st" using text_load_Inr [OF assms(1)] by blast
  let ?c = "text_coords st" and ?ls = "reg_locs (ts_reg st)"
  have len: "d < length (c_dates ?c)" "h < length (c_offsets ?c)" "s < length (c_locations ?c)"
    "s' < length (c_locations ?c)"
    using assms(2-5) by (simp_all add: ti text_coords_def resolve_ids_def Let_def)
  have "loc_lat (?ls ! s) = loc_lat (?ls ! s') \<and> loc_lon (?ls ! s) = loc_lon (?ls ! s') \<and>
        loc_elev (?ls ! s) = loc_elev (?ls ! s')"
    using assms(6-8) resolve_ids_place [of s ?ls] resolve_ids_place [of s' ?ls] len(3,4)
    by (simp add: ti text_coords_def)
  then have "cell_key ?c d h s = cell_key ?c d h s'" by (simp add: cell_key_def loc_key_def text_coords_def)
  with len show ?thesis by (simp add: ti text_finish_dense dense3_nth)
qed

lemma comment_line_frame:
  assumes "is_comment l" and "text_line st l = Inr st'"
  shows "ts_header st' = ts_header st \<and> ts_dates st' = ts_dates st \<and> ts_offsets st' = ts_offsets st \<and>
         ts_reg st' = ts_reg st"
proof -
  from assms(1) obtain rest where "l = CHR ''#'' # rest" by (cases l) (auto simp: is_comment_def)
  with assms(2) show ?thesis
    by (auto simp: text_line_def comment_line_def split: list.splits if_splits)
qed

text \<open>
  C12: A file of comment lines only, without a header, loads without error to
  an empty input: no dates, offsets or locations and empty observation and
  forecast arrays.  The check that \<open>obs\<close> and \<open>fcst\<close> are columns runs
  only when a data row is read, so a file without a header is never rejected.
\<close>

theorem text_load_comments_only:
  assumes "list_all is_comment lines" and "list_all comment_ok lines"
  shows "\<exists>ti. text_load lines = Inr ti \<and> ti_dates ti = [] \<and> ti_offsets ti = [] \<and>
           ti_locations ti = [] \<and> ti_obs ti = [] \<and> ti_fcst ti = []"
proof -
  let ?P = "\<lambda>t. ts_header t = None \<and> ts_dates t = [] \<and> ts_offsets t = [] \<and> reg_locs (ts_reg t) = []"
  have "\<exists>st. fold_res (\<lambda>l st. text_line st l) lines text_init = Inr st \<and> ?P st"
  proof (rule fold_res_progress [where P = ?P])
    fix x and t :: tstate assume x: "x \<in> set lines" and p: "?P t"
    from x assms have c: "is_comment x" "comment_ok x" by (auto simp: list_all_iff)
    then obtain t' where "text_line t x = Inr t'" using comment_progress [of x t] by blast
    with comment_line_frame [OF c(1)] p show "\<exists>t'. text_line t x = Inr t' \<and> ?P t'" by fastforce
  qed (simp add: text_init_def empty_registry_def)
  then obtain st where "text_run lines = Inr st" "?P st" by (auto simp: text_run_def)
  then show ?thesis
    by (simp add: text_load_def text_finish_dense dense3_def text_coords_def resolve_ids_def Let_def)
qed

text \<open>
  C15: Two kinds of metadata line raise \<open>IndexError\<close> instead of being
  ignored: a line that is \<open>#\<close> with no word after it (\<open>curr[0]\<close> of an
  empty list), and a \<open>units:\<close> line without a value (\<open>curr[1]\<close>).
  Wherever such a line appears, before or after the header, the load aborts.
\<close>

theorem text_load_comment_error:
  assumes "text_run xs = Inr st" and "is_comment l"
    and "py_split (drop 1 l) = [] \<or> py_split (drop 1 l) = [''units:'']"
  shows "text_load (xs @ l # ys) = Inl IndexError"
proof (rule text_load_abort [OF assms(1)])
  from assms(2) obtain rest where l: "l = CHR ''#'' # rest" by (cases l) (auto simp: is_comment_def)
  with assms(3) show "text_line st l = Inl IndexError" by (auto simp: text_line_def comment_line_def)
qed

section \<open>Witnesses\<close>

theorem text_load_keyed_by_place_witness:
  "\<exists>ti. text_load shared_place_example = Inr ti \<and>
     0 < length (ti_dates ti) \<and> 0 < length (ti_offsets ti) \<and>
     0 < length (ti_locations ti) \<and> 1 < length (ti_locations ti) \<and>
     loc_lat (ti_locations ti ! 0) = loc_lat (ti_locations ti ! 1) \<and>
     loc_lon (ti_locations ti ! 0) = loc_lon (ti_locations ti ! 1) \<and>
     loc_elev (ti_locations ti ! 0) = loc_elev (ti_locations ti ! 1) \<and>
     loc_id (ti_locations ti ! 0) \<noteq> loc_id (ti_locations ti ! 1) \<and>
     ti_obs ti ! 0 ! 0 ! 0 = ti_obs ti ! 0 ! 0 ! 1 \<and> ti_fcst ti ! 0 ! 0 ! 0 = ti_fcst ti ! 0 ! 0 ! 1"
proof -
  obtain ti where h: "text_load shared_place_example = Inr ti"
    and c: "0 < length (ti_dates ti)" "0 < length (ti_offsets ti)"
      "0 < length (ti_locations ti)" "1 < length (ti_locations ti)"
      "loc_lat (ti_locations ti ! 0) = loc_lat (ti_locations ti ! 1)"
      "loc_lon (ti_locations ti ! 0) = loc_lon (ti_locations ti ! 1)"
      "loc_elev (ti_locations ti ! 0) = loc_elev (ti_locations ti ! 1)"
      "loc_id (ti_locations ti ! 0) \<noteq> loc_id (ti_locations ti ! 1)"
    using shared_place_loads by simp
  from text_load_keyed_by_place [OF h c(1-7)] h c show ?thesis by blast
qed

theorem text_load_comments_only_witness:
  "list_all is_comment [''# variable: Precipitation\<newline>''] \<and>
   list_all comment_ok [''# variable: Precipitation\<newline>''] \<and>
   (\<exists>ti. text_load [''# variable: Precipitation\<newline>''] = Inr ti \<and> ti_dates ti = [] \<and> ti_offsets ti = [] \<and>
      ti_locations ti = [] \<and> ti_obs ti = [] \<and> ti_fcst ti = [])"
proof -
  have c: "list_all is_comment [''# variable: Precipitation\<newline>'']"
    "list_all comment_ok [''# variable: Precipitation\<newline>'']"
    by (simp_all add: is_comment_def comment_ok_def py_split_def is_ws_def)
  from text_load_comments_only [OF c] c show ?thesis by blast
qed

theorem text_load_comment_error_witness:
  "\<exists>st. text_run [''obs fcst\<newline>''] = Inr st \<and> is_comment ''# units:\<newline>'' \<and>
     (py_split (drop 1 ''# units:\<newline>'') = [] \<or> py_split (drop 1 ''# units:\<newline>'') = [''units:'']) \<and>
     text_load ([''obs fcst\<newline>''] @ ''# units:\<newline>'' # []) = Inl IndexError"
proof -
  obtain st where h: "text_run [''obs fcst\<newline>''] = Inr st" by (simp add: text_run_eval)
  have c: "is_comment ''# units:\<newline>''"
    "py_split (drop 1 ''# units:\<newline>'') = [] \<or> py_split (drop 1 ''# units:\<newline>'') = [''units:'']"
    by (simp_all add: is_comment_def py_split_def is_ws_def)
  from text_load_comment_error [OF h c] h c show ?thesis by blast
qed

end
