(* ===== verification/Spec2Isabelle.thy ===== *)
theory Spec2Isabelle
  imports Dispatcher TextBehaviour
begin

text \<open>
  \<^bold>\<open>A verification model of \<open>src/verif/input.py\<close>.\<close>

  \<open>src/verif/input.py\<close> reads a verification data set (observations and
  forecasts indexed by date, forecast offset and location) from a file.
  \<open>get_input\<close> picks a parser: \<open>NetcdfCf\<close> (CF-style netCDF), \<open>Comps\<close>
  (the older netCDF layout) or \<open>Text\<close> (a whitespace-separated table).  Every
  parser presents the same \<open>Input\<close> interface: coordinate arrays (\<open>dates\<close>,
  \<open>offsets\<close>, \<open>locations\<close>, \<open>thresholds\<close>, \<open>quantiles\<close>) and dense arrays
  \<open>obs\<close>, \<open>deterministic\<close>, \<open>pit\<close>, \<open>threshold_scores\<close> and
  \<open>quantile_scores\<close> over those coordinates.

  \<^bold>\<open>Theories.\<close>
  \<^item> \<open>Prelude\<close>: floats as \<open>Num rat | NaN\<close>; the \<open>error\<close> values that stand
    for \<open>verif.util.error\<close> aborts and Python exceptions, the warning log;
    the error-propagating loop \<open>fold_res\<close> with its invariant and totality
    rules; Python sets as insertion-ordered lists (\<open>pyset_add\<close>) and
    dictionaries as association lists (\<open>nan_lookup\<close> reads a cell of an
    array that starts full of NaN and is filled from one).
  \<^item> \<open>PyRuntime\<close>: the builtins the loader calls on strings (\<open>str.split\<close>,
    \<open>strip\<close>, \<open>join\<close>, \<open>replace\<close>, \<open>float()\<close>), modelled after the language
    documentation; they are not code of the repository and are not in the map.
  \<^item> \<open>Location\<close>: the location record (\<open>verif.location.Location\<close>, outside
    \<open>src/\<close>, modelled from its use), the registry the first pass of
    \<open>Text.__init__\<close> keeps (the \<open>locationInfo\<close> dictionary, the
    \<open>_locations\<close> set and the \<open>shownConflictingWarning\<close> flag, lines
    372--373 and 440--472, \<open>resolve_location\<close>), and the deferred numbering of
    locations without id (lines 539--553, \<open>max_loc_id\<close>, \<open>assign_ids\<close>,
    \<open>resolve_ids\<close>).  The registry invariant \<open>reg_inv\<close> is kept by every step;
    the numbering gives distinct non-NaN ids and is characterised position by
    position.
  \<^item> \<open>Dense\<close>: the sparse dictionaries of the first pass and the dense arrays
    of the second (lines 504--537).  \<open>fill_dense\<close> is the literal loop: NaN
    arrays, then a write per cell whose key is in a dictionary (\<open>fill3\<close>,
    \<open>fill4\<close>, over \<open>cells\<close> in the code's loop order).  \<open>assemble\<close> is the
    map-form reference; the two are proved equal.
  \<^item> \<open>TextFormat\<close>: \<open>Text.__init__\<close> (lines 350--560) and its helpers
    \<open>_clean\<close>, \<open>_get_quantile_fields\<close>, \<open>_get_threshold_fields\<close>.  The
    loop state is the record \<open>tstate\<close> (the locals and attributes of lines
    355--380); \<open>text_line\<close> is one iteration of \<open>for rowstr in file\<close>, split
    into \<open>comment_line\<close>, \<open>header_line\<close> and \<open>data_row\<close> as the code's
    branches are; \<open>text_run\<close> is the loop, \<open>text_finish\<close> the second pass
    and the numbering, \<open>text_load\<close> the constructor.  The result record
    \<open>text_input\<close> holds the attributes of the \<open>Input\<close> interface.
  \<^item> \<open>TextExamples\<close>: concrete files evaluated through the model and the
    witnesses of the decoder's theorems.
  \<^item> \<open>TextBehaviour\<close>: behaviours of the text decoder over all files
    that diverge from the format's description: the value tables are keyed
    by place, rows without an \<open>id\<close> column never share a location, a file
    of comments only loads empty, and two kinds of metadata line raise.
  \<^item> \<open>TextTotal\<close>: when the text decoder succeeds.  \<open>text_wf\<close> states,
    line kind by line kind, the conditions the code checks (a comment has a
    first word, a \<open>units:\<close> comment a value, the header names \<open>obs\<close> and
    \<open>fcst\<close>, a row is numbers of the header's width, at most 256); the
    progress lemmas show each kind of line succeeds and keeps the header.
  \<^item> \<open>Codec\<close>: the naming codec of the legacy format (lines 201--251,
    \<open>_comps_to_verif_threshold\<close>, \<open>_comps_to_verif_quantile\<close>,
    \<open>_verif_to_comps_threshold\<close>, \<open>_verif_to_comps_quantile\<close>), with the
    \<open>"%d"\<close> and \<open>"%g"\<close> formatting of Python written out (\<open>fmt_d\<close>,
    \<open>fmt_g\<close>: six significant digits rounded half to even, fixed notation
    for exponents -4 to 5, trailing zeros stripped, two exponent digits).
  \<^item> \<open>NetCDF\<close>: an abstract netCDF file (global attributes and variables
    of rank 1, 3 or 4, in file order), \<open>verif.util.clean\<close>, the location
    assembly and units rule both netCDF decoders share, and \<open>NetcdfCf\<close>
    (lines 254--334): \<open>is_valid\<close>, the constructor in the order of its
    reads, the data arrays as views of the stored variables.
  \<^item> \<open>Comps\<close>: the legacy decoder (lines 77--198): \<open>is_valid\<close>, the
    constructor, the discovery of thresholds and quantiles through the codec,
    and \<open>threshold_scores\<close>/\<open>quantile_scores\<close>, the loop that stacks one
    3-D variable per level into a 4-D array (\<open>stack_step\<close> is one iteration,
    \<open>assign_slice\<close> the numpy assignment \<open>values[:, :, :, t] = temp\<close>
    with broadcasting of extent-1 axes, \<open>ShapeError\<close> otherwise).
  \<^item> \<open>Dispatcher\<close>: \<open>get_input\<close> (lines 14--25) over a file as its three
    probes see it (existence, netCDF view, lines), the result as one of the
    three decoders' records, and the \<open>Input\<close> base class (lines 28--74:
    \<open>get_variables\<close>, \<open>name\<close>, \<open>shortname\<close>, over Python's \<open>rfind\<close>
    and slicing with negative indices), and the test double \<open>Fake\<close>
    (lines 591--602), whose constructor assigns the read-only property
    \<open>name\<close>.

  \<^bold>\<open>What is proved.\<close>  The invariant \<open>text_inv\<close> of the first pass (registry
  invariant, duplicate-free coordinate sets, the conflict flag counting the
  warnings, every stored key built from known coordinates) holds after every
  run; from it follow the shapes of all dense arrays, that the dense arrays
  represent the dictionaries exactly, unique non-NaN ids and at most one
  conflict warning.  Over runs: the header is the first non-comment line; a
  missing \<open>obs\<close> column, a row of the wrong width, a row wider than 256
  fields, a bare \<open>#\<close> line and a \<open>units:\<close> line without a value abort
  the load with the corresponding error; registered locations never change.
  For every file: two locations at one place report the same values in every
  cell (the tables are keyed by place, not by location); after a header
  without \<open>id\<close> every data row adds a location; a file of comments only
  loads to an empty input.  Well-formed text files always load (by progress
  and preservation over the first pass), the converse of the error theorems.

  The codec: every integer threshold and every whole-percentage quantile
  round-trips; every negative threshold in (-1, -0.0001] decodes to an
  integer different from it; every non-integer threshold of magnitude at
  least 1 decodes to its truncation; the names 10 to 100 decode at both
  levels, because the guard \<open>len >= 2 or name[0] == c\<close> admits every name of
  two characters.  The legacy decoder: \<open>threshold_scores\<close> refines the
  reference stacking (by an invariant of the loop, \<open>partial\<close>: after
  \<open>j\<close> levels the first \<open>j\<close> slices hold the first \<open>j\<close> arrays);
  discovery gives quantiles in [0, 1] only; \<open>is_valid\<close> is characterised
  (it never reads the value \<open>comps\<close>).  \<open>NetcdfCf\<close>: the constructor
  succeeds exactly on files with the coordinate vectors and
  \<open>standard_name\<close>, with the result described field by field; its result
  does not depend on the data variables, so extents are never checked.  The
  dispatcher: \<open>name\<close> splits the path at its last \<open>/\<close>, \<open>shortname\<close>
  cuts at the last \<open>.\<close> and, without one, drops the last character; every
  existing file that is not netCDF and is well-formed text is decoded, by
  \<open>Text\<close>.  \<open>Fake\<close> is modelled but no theorem is stated about it: its
  constructor assigns a read-only property and always raises.

  \<^bold>\<open>Modelling choices.\<close>  A file is the list of its lines with their
  newlines, as Python's iteration yields them.  Floats are exact rationals:
  \<open>float()\<close> of a decimal literal is the rational it denotes, so binary
  rounding and the tolerance tests near their limits are abstracted; NaN is
  one value, as the single object \<open>np.nan\<close> is inside sets and dictionaries.
  Sets become lists in insertion order, one of the orders Python may produce;
  the theorems hold for any order since they are stated over the lists.  No
  loop of the model needs fuel: every loop is over a finite list.  A netCDF
  file's variables are in file order, the order \<open>iteritems\<close> gives in the
  model; numpy broadcasting is modelled for the one assignment the code
  makes.

  \<^bold>\<open>Not modelled.\<close>  Opening and closing files and \<open>os.path\<close>
  (the model starts from what the probes see; \<open>expanduser\<close> is taken as the
  identity); timing calls; the numpy arrays' element types; the
  \<open>description\<close> strings (class attributes that only document the
  formats).  \<open>verif.field\<close> is outside
  \<open>src/\<close>: \<open>get_variables\<close> calls \<open>verif.field.Quantiles\<close>, modelled as the
  constructor \<open>Quantile\<close>.
\<close>

end
